theory Spec2Isabelle
  imports Main
begin

section \<open>The scheduled job runner of cron.js\<close>

text \<open>
  The module registers nine cron handlers over one Prisma client. Each handler reads
  candidate rows, decides per row, writes rows and notifications, and logs its outcome.
  The embedding keeps the tables as lists in a record, threads that record through every
  awaited call, and turns every rejected promise into a value \<open>Inl e\<close>.

  Wall-clock time is a number of milliseconds. A run reads the clock once: the value is
  the parameter \<open>now\<close> of the handler, and a second reading \<open>finish\<close> is taken when the
  body has ended. Where a handler calls \<open>new Date()\<close> again inside its loop, the model
  uses the same reading \<open>now\<close>.
\<close>

subsection \<open>Rows\<close>

type_synonym time = int

datatype js_error = Error (message: string) (stack: string)

datatype notification_type =
  REMINDER | STREAK_MILESTONE | SYSTEM_MESSAGE | ACHIEVEMENT_UNLOCKED | SOCIAL_INTERACTION

datatype send_status = SENT | SKIPPED | FAILED

datatype json = JStr string | JNum int | JObj "(string \<times> json) list"

record user =
  user_id :: nat
  user_name :: string
  prefersNotifications :: bool
  onVacation :: bool
  dailyGoal :: int
  registeredAt :: time

record habit_streak =
  current_streak :: int

text \<open>A habit row as the queries return it: with its streak rows and its owner included.\<close>

record habit =
  habit_id :: nat
  habit_user_id :: nat
  name :: string
  is_active :: bool
  color :: string
  icon :: string
  streak :: "habit_streak list"
  habit_user :: user

record habit_log =
  log_habit_id :: nat
  log_user_id :: nat
  log_completed :: bool
  completed_at :: time

record notification =
  notification_id :: nat
  n_user_id :: nat
  title :: string
  content :: string
  n_type :: notification_type
  related_id :: "nat option"
  action_url :: "string option"
  is_read :: bool

record scheduled_reminder =
  scheduled_reminder_id :: nat
  r_habit_id :: nat
  r_user_id :: nat
  scheduled_time :: time
  reminder_type :: string
  r_message :: string
  is_sent :: bool
  is_prepared :: bool
  actual_send_time :: "time option"
  send_status :: "send_status option"
  failure_reason :: "string option"
  metadata :: "(string \<times> json) list"

text \<open>What \<open>notificationService.sendToUser\<close> is handed.\<close>

record push =
  p_user_id :: nat
  p_title :: string
  p_body :: string
  p_type :: notification_type
  relatedId :: "nat option"
  actionUrl :: "string option"
  notificationId :: "nat option"

text \<open>The argument of \<open>createNotification\<close>; an omitted field is \<open>None\<close>.\<close>

record notification_data =
  d_user_id :: nat
  d_title :: string
  d_content :: string
  d_type :: notification_type
  d_related_id :: "nat option"
  d_action_url :: "string option"

subsection \<open>The store and the outside world\<close>

text \<open>
  \<open>ticks\<close> counts the awaited external calls made so far. \<open>console_errors\<close> holds the
  lines written with \<open>console.error\<close>.
\<close>

record db =
  users :: "user list"
  habits :: "habit list"
  habitLogs :: "habit_log list"
  scheduledReminders :: "scheduled_reminder list"
  notifications :: "notification list"
  pushes :: "push list"
  console_errors :: "string list"
  ticks :: nat

record streak_update_result =
  results :: "(string \<times> json) list"
  result_message :: string

text \<open>
  What a run cannot decide by itself. \<open>faults n\<close> is the error with which the \<open>n\<close>-th
  awaited call rejects, if it does. The three predicates of \<open>reminderService\<close>, and the two
  orchestration functions that live in other modules, are parameters; within one run the
  predicates answer from tables that the run does not write. \<open>tz_offset\<close> is the offset of
  the server's local time from UTC in milliseconds.
\<close>

record env =
  faults :: "nat \<Rightarrow> js_error option"
  isHabitScheduledForDate :: "habit \<Rightarrow> time \<Rightarrow> bool"
  isHabitCompletedForDate :: "nat \<Rightarrow> nat \<Rightarrow> time \<Rightarrow> bool"
  isInQuietHours :: "nat \<Rightarrow> time \<Rightarrow> bool"
  processDailyStreakUpdates :: "db \<Rightarrow> streak_update_result \<times> db"
  prepareRemindersForNextDay :: "db \<Rightarrow> nat \<times> db"
  tz_offset :: int

type_synonym 'a io = "db \<Rightarrow> (js_error + 'a) \<times> db"

definition tick :: "db \<Rightarrow> db" where
  "tick d = d\<lparr>ticks := Suc (ticks d)\<rparr>"

text \<open>An awaited call: it rejects when the fault plan says so, and otherwise runs \<open>f\<close>.\<close>

definition await :: "env \<Rightarrow> (db \<Rightarrow> 'a \<times> db) \<Rightarrow> 'a io" where
  "await e f d =
     (case faults e (ticks d) of
        Some err \<Rightarrow> (Inl err, tick d)
      | None \<Rightarrow> (case f d of (x, d') \<Rightarrow> (Inr x, tick d')))"

text \<open>Sequencing inside one \<open>try\<close> block: the first rejection ends the block.\<close>

definition and_then :: "'a io \<Rightarrow> ('a \<Rightarrow> 'b io) \<Rightarrow> 'b io" where
  "and_then m k d = (case m d of (Inl err, d') \<Rightarrow> (Inl err, d') | (Inr x, d') \<Rightarrow> k x d')"

definition console_error :: "string \<Rightarrow> db \<Rightarrow> db" where
  "console_error line d = d\<lparr>console_errors := console_errors d @ [line]\<rparr>"

subsection \<open>Text\<close>

definition digit_char :: "nat \<Rightarrow> char" where
  "digit_char n = char_of (48 + n)"

function show_nat :: "nat \<Rightarrow> string" where
  "show_nat n = (if n < 10 then [digit_char n] else show_nat (n div 10) @ [digit_char (n mod 10)])"
  by pat_completeness auto
termination
  by (relation "measure (\<lambda>n. n)") auto

declare show_nat.simps [simp del]

definition show_int :: "int \<Rightarrow> string" where
  "show_int i = (if i < 0 then CHR ''-'' # show_nat (nat (- i)) else show_nat (nat i))"

definition dq :: string where
  "dq = [CHR 0x22]"

text \<open>The emoji of the message templates, as their UTF-8 bytes.\<close>

definition emoji_fire :: string where
  "emoji_fire = [CHR 0xF0, CHR 0x9F, CHR 0x94, CHR 0xA5]"

definition emoji_warning :: string where
  "emoji_warning = [CHR 0xE2, CHR 0x9A, CHR 0xA0, CHR 0xEF, CHR 0xB8, CHR 0x8F]"

definition emoji_chart :: string where
  "emoji_chart = [CHR 0xF0, CHR 0x9F, CHR 0x93, CHR 0x8A]"

definition emoji_seedling :: string where
  "emoji_seedling = [CHR 0xF0, CHR 0x9F, CHR 0x8C, CHR 0xB1]"

definition emoji_thumbs_up :: string where
  "emoji_thumbs_up = [CHR 0xF0, CHR 0x9F, CHR 0x91, CHR 0x8D]"

definition emoji_target :: string where
  "emoji_target = [CHR 0xF0, CHR 0x9F, CHR 0x8E, CHR 0xAF]"

definition emoji_trophy :: string where
  "emoji_trophy = [CHR 0xF0, CHR 0x9F, CHR 0x8F, CHR 0x86]"

definition emoji_wave :: string where
  "emoji_wave = [CHR 0xF0, CHR 0x9F, CHR 0x91, CHR 0x8B]"

text \<open>Prisma's \<open>contains\<close> filter on a text column.\<close>

fun contains :: "string \<Rightarrow> string \<Rightarrow> bool" where
  "contains sub [] = (sub = [])"
| "contains sub (c # cs) = (take (length sub) (c # cs) = sub \<or> contains sub cs)"

subsection \<open>logJobStatus\<close>

datatype job_status = started | completed | failed | warning

record log_event =
  timestamp :: time
  job :: string
  status :: job_status
  details :: "(string \<times> json) list"

text \<open>
  \<open>logJobStatus\<close> builds the log object and prints one line; the colour it picks does not
  change what is logged. The model returns the event that the line carries.
\<close>

definition logJobStatus :: "time \<Rightarrow> string \<Rightarrow> job_status \<Rightarrow> (string \<times> json) list \<Rightarrow> log_event" where
  "logJobStatus t jobName st dets = \<lparr>timestamp = t, job = jobName, status = st, details = dets\<rparr>"

subsection \<open>createNotification\<close>

definition new_id :: "nat list \<Rightarrow> nat" where
  "new_id ids = Suc (foldr max ids 0)"

text \<open>\<open>x || null\<close>: a missing or falsy value becomes null.\<close>

definition id_or_null :: "nat option \<Rightarrow> nat option" where
  "id_or_null x = (if x = Some 0 then None else x)"

definition url_or_null :: "string option \<Rightarrow> string option" where
  "url_or_null x = (if x = Some [] then None else x)"

text \<open>The row that \<open>prisma.notification.create\<close> writes under the key \<open>i\<close>.\<close>

definition notification_row :: "nat \<Rightarrow> notification_data \<Rightarrow> notification" where
  "notification_row i dat =
     \<lparr>notification_id = i,
      n_user_id = d_user_id dat,
      title = d_title dat,
      content = d_content dat,
      n_type = d_type dat,
      related_id = id_or_null (d_related_id dat),
      action_url = url_or_null (d_action_url dat),
      is_read = False\<rparr>"

definition notification_create :: "env \<Rightarrow> notification_data \<Rightarrow> notification io" where
  "notification_create e dat =
     await e (\<lambda>d.
       let n = notification_row (new_id (map notification_id (notifications d))) dat
       in (n, d\<lparr>notifications := notifications d @ [n]\<rparr>))"

text \<open>
  The code reads \<open>notification.id\<close> twice: for the payload of the push and for the
  update that marks a reminder SENT. The table \<open>Notification\<close> of the migration is keyed by
  \<open>notification_id\<close> and has no column \<open>id\<close>, so the property is \<open>undefined\<close> on
  every row that \<open>create\<close> returns: \<open>None\<close>.
\<close>

definition notification_dot_id :: "notification \<Rightarrow> nat option" where
  "notification_dot_id n = None"

text \<open>The payload of the push that follows the row \<open>n\<close>.\<close>

definition push_of :: "notification_data \<Rightarrow> notification \<Rightarrow> push" where
  "push_of dat n =
     \<lparr>p_user_id = d_user_id dat, p_title = d_title dat, p_body = d_content dat,
      p_type = d_type dat, relatedId = d_related_id dat,
      actionUrl = d_action_url dat, notificationId = notification_dot_id n\<rparr>"

definition sendToUser :: "env \<Rightarrow> push \<Rightarrow> unit io" where
  "sendToUser e p = await e (\<lambda>d. ((), d\<lparr>pushes := pushes d @ [p]\<rparr>))"

text \<open>The \<open>try\<close> block of \<open>createNotification\<close>: the row first, then the push.\<close>

definition createNotification_try :: "env \<Rightarrow> notification_data \<Rightarrow> notification io" where
  "createNotification_try e dat =
     and_then (notification_create e dat) (\<lambda>n.
     and_then (sendToUser e (push_of dat n)) (\<lambda>_.
     (\<lambda>d. (Inr n, d))))"

text \<open>
  The \<open>catch\<close> block logs and falls off the end of the function, so the caller receives
  \<open>undefined\<close>: \<open>None\<close>.
\<close>

definition createNotification :: "env \<Rightarrow> notification_data \<Rightarrow> db \<Rightarrow> notification option \<times> db" where
  "createNotification e dat d =
     (case createNotification_try e dat d of
        (Inr n, d') \<Rightarrow> (Some n, d')
      | (Inl err, d') \<Rightarrow> (None, console_error (''Error creating notification: '' @ message err) d'))"

subsection \<open>The job boundary\<close>

text \<open>
  Every handler has the same frame: log \<open>started\<close>, run the body inside \<open>try\<close>, log
  \<open>completed\<close> with the duration and the body's summary, and in \<open>catch\<close> log \<open>failed\<close>
  with the message and the stack. The frame returns the events it logged and the store.
\<close>

definition cron_job ::
  "string \<Rightarrow> (string \<times> json) list io \<Rightarrow> time \<Rightarrow> time \<Rightarrow> db \<Rightarrow> log_event list \<times> db" where
  "cron_job jobName body now finish d =
     (case body d of
        (Inr summary, d') \<Rightarrow>
          ([logJobStatus now jobName started [],
            logJobStatus finish jobName completed
              ((''duration'', JStr (show_int (finish - now) @ ''ms'')) # summary)], d')
      | (Inl err, d') \<Rightarrow>
          ([logJobStatus now jobName started [],
            logJobStatus finish jobName failed
              [(''error'', JStr (message err)), (''stack'', JStr (stack err))]], d'))"

subsection \<open>Store calls used by the handlers\<close>

text \<open>
  \<open>prisma.scheduledReminder.update\<close> rejects when no row has the given key. A created row
  takes the next free key and the column defaults.
\<close>

definition record_not_found :: js_error where
  "record_not_found = Error ''Record to update not found.'' ''PrismaClientKnownRequestError''"

definition update_row ::
  "nat \<Rightarrow> (scheduled_reminder \<Rightarrow> scheduled_reminder) \<Rightarrow> scheduled_reminder list \<Rightarrow> scheduled_reminder list" where
  "update_row rid f rs = map (\<lambda>r. if scheduled_reminder_id r = rid then f r else r) rs"

definition reminder_update ::
  "env \<Rightarrow> nat \<Rightarrow> (scheduled_reminder \<Rightarrow> scheduled_reminder) \<Rightarrow> unit io" where
  "reminder_update e rid f d =
     (case faults e (ticks d) of
        Some err \<Rightarrow> (Inl err, tick d)
      | None \<Rightarrow>
          if rid \<in> set (map scheduled_reminder_id (scheduledReminders d))
          then (Inr (), tick (d\<lparr>scheduledReminders := update_row rid f (scheduledReminders d)\<rparr>))
          else (Inl record_not_found, tick d))"

definition reminder_row ::
  "nat \<Rightarrow> nat \<Rightarrow> nat \<Rightarrow> time \<Rightarrow> string \<Rightarrow> string \<Rightarrow> (string \<times> json) list \<Rightarrow> scheduled_reminder" where
  "reminder_row i hid uid t ty msg meta =
     \<lparr>scheduled_reminder_id = i,
      r_habit_id = hid, r_user_id = uid, scheduled_time = t, reminder_type = ty,
      r_message = msg, is_sent = False, is_prepared = True,
      actual_send_time = None, send_status = None, failure_reason = None,
      metadata = meta\<rparr>"

definition reminder_create ::
  "env \<Rightarrow> nat \<Rightarrow> nat \<Rightarrow> time \<Rightarrow> string \<Rightarrow> string \<Rightarrow> (string \<times> json) list \<Rightarrow> scheduled_reminder io" where
  "reminder_create e hid uid t ty msg meta =
     await e (\<lambda>d.
       let r = reminder_row (new_id (map scheduled_reminder_id (scheduledReminders d)))
                 hid uid t ty msg meta
       in (r, d\<lparr>scheduledReminders := scheduledReminders d @ [r]\<rparr>))"

definition habit_findMany_active :: "env \<Rightarrow> habit list io" where
  "habit_findMany_active e = await e (\<lambda>d. (filter is_active (habits d), d))"

definition call_isHabitScheduledForDate :: "env \<Rightarrow> habit \<Rightarrow> time \<Rightarrow> bool io" where
  "call_isHabitScheduledForDate e h t = await e (\<lambda>d. (isHabitScheduledForDate e h t, d))"

definition call_isHabitCompletedForDate :: "env \<Rightarrow> nat \<Rightarrow> nat \<Rightarrow> time \<Rightarrow> bool io" where
  "call_isHabitCompletedForDate e hid uid t = await e (\<lambda>d. (isHabitCompletedForDate e hid uid t, d))"

definition call_isInQuietHours :: "env \<Rightarrow> nat \<Rightarrow> time \<Rightarrow> bool io" where
  "call_isInQuietHours e uid t = await e (\<lambda>d. (isInQuietHours e uid t, d))"

subsection \<open>process-reminders\<close>

record dispatch_results =
  processed :: nat
  sent :: nat
  skipped :: nat
  failed_count :: nat

text \<open>A due row with the habit and the owner that the query joins to it.\<close>

type_synonym due_reminder = "scheduled_reminder \<times> habit option \<times> user option"

definition is_due :: "time \<Rightarrow> scheduled_reminder \<Rightarrow> bool" where
  "is_due now r = (scheduled_time r \<le> now \<and> is_sent r = False \<and> is_prepared r = True)"

definition join_reminder :: "db \<Rightarrow> scheduled_reminder \<Rightarrow> due_reminder" where
  "join_reminder d r =
     (r, find (\<lambda>h. habit_id h = r_habit_id r) (habits d),
         find (\<lambda>u. user_id u = r_user_id r) (users d))"

definition find_due_reminders :: "env \<Rightarrow> time \<Rightarrow> due_reminder list io" where
  "find_due_reminders e now =
     await e (\<lambda>d. (map (join_reminder d) (filter (is_due now) (scheduledReminders d)), d))"

definition undefined_property :: "string \<Rightarrow> js_error" where
  "undefined_property p =
     Error (''Cannot read properties of undefined (reading '' @ [CHR 0x27] @ p @ [CHR 0x27] @ '')'')
           ''TypeError''"

definition null_property :: "string \<Rightarrow> js_error" where
  "null_property p =
     Error (''Cannot read properties of null (reading '' @ [CHR 0x27] @ p @ [CHR 0x27] @ '')'')
           ''TypeError''"

definition mark_skipped :: "time \<Rightarrow> string \<Rightarrow> scheduled_reminder \<Rightarrow> scheduled_reminder" where
  "mark_skipped now reason r =
     r\<lparr>is_sent := True, actual_send_time := Some now, send_status := Some SKIPPED,
       failure_reason := Some reason\<rparr>"

text \<open>
  The update of the SENT branch also passes \<open>notification_id: notification.id\<close>. The value
  is \<open>undefined\<close>, which Prisma leaves out of the write, and the table
  \<open>ScheduledReminder\<close> of the migration has no such column: the write sets three columns.
\<close>

definition mark_sent :: "time \<Rightarrow> scheduled_reminder \<Rightarrow> scheduled_reminder" where
  "mark_sent now r =
     r\<lparr>is_sent := True, actual_send_time := Some now, send_status := Some SENT\<rparr>"

definition mark_failed :: "string \<Rightarrow> scheduled_reminder \<Rightarrow> scheduled_reminder" where
  "mark_failed reason r = r\<lparr>send_status := Some FAILED, failure_reason := Some reason\<rparr>"

definition reminder_notification :: "scheduled_reminder \<Rightarrow> habit option \<Rightarrow> notification_data" where
  "reminder_notification reminder rhabit =
     \<lparr>d_user_id = r_user_id reminder,
      d_title = (case rhabit of Some h \<Rightarrow> ''Reminder: '' @ name h | None \<Rightarrow> ''Habit Reminder''),
      d_content = r_message reminder,
      d_type = REMINDER,
      d_related_id = Some (r_habit_id reminder),
      d_action_url = Some (''/habits/'' @ show_nat (r_habit_id reminder))\<rparr>"

text \<open>
  The \<open>try\<close> block of the loop body. It returns the counters as the block leaves them.
  Reading a field of a missing owner, or \<open>id\<close> of the \<open>undefined\<close> that a failed
  \<open>createNotification\<close> returns, throws a TypeError.
\<close>

definition dispatch_try :: "env \<Rightarrow> time \<Rightarrow> due_reminder \<Rightarrow> dispatch_results \<Rightarrow> dispatch_results io" where
  "dispatch_try e now x res =
     (case x of (reminder, rhabit, ruser) \<Rightarrow>
       (case ruser of
          None \<Rightarrow> (\<lambda>d. (Inl (null_property ''prefersNotifications''), d))
        | Some u \<Rightarrow>
            if \<not> prefersNotifications u \<or> onVacation u then
              and_then (reminder_update e (scheduled_reminder_id reminder)
                          (mark_skipped now ''User preferences or status''))
                (\<lambda>_ d. (Inr (res\<lparr>skipped := skipped res + 1\<rparr>), d))
            else
              and_then (call_isHabitCompletedForDate e (r_habit_id reminder) (r_user_id reminder) now)
                (\<lambda>isCompletedToday.
                  if isCompletedToday then
                    and_then (reminder_update e (scheduled_reminder_id reminder)
                                (mark_skipped now ''Already completed''))
                      (\<lambda>_ d. (Inr (res\<lparr>skipped := skipped res + 1\<rparr>), d))
                  else
                    (\<lambda>d. case createNotification e (reminder_notification reminder rhabit) d of
                        (None, d') \<Rightarrow> (Inl (undefined_property ''id''), d')
                      | (Some n, d') \<Rightarrow>
                          and_then (reminder_update e (scheduled_reminder_id reminder)
                                      (mark_sent now))
                            (\<lambda>_ d. (Inr (res\<lparr>sent := sent res + 1\<rparr>), d)) d'))))"

text \<open>
  One iteration: the \<open>try\<close> block, and the \<open>catch\<close> block that marks the row. The
  \<open>catch\<close> block hands \<open>console.error\<close> the error object as a second argument, which is
  printed after a space as its stack.
\<close>

definition dispatch_one :: "env \<Rightarrow> time \<Rightarrow> due_reminder \<Rightarrow> dispatch_results \<Rightarrow> dispatch_results io" where
  "dispatch_one e now x res d =
     (case dispatch_try e now x res d of
        (Inr res', d') \<Rightarrow> (Inr res', d')
      | (Inl err, d') \<Rightarrow>
          and_then (reminder_update e (scheduled_reminder_id (fst x)) (mark_failed (message err)))
            (\<lambda>_ d. (Inr (res\<lparr>failed_count := failed_count res + 1\<rparr>), d))
            (console_error (''Error processing reminder '' @ show_nat (scheduled_reminder_id (fst x))
                            @ '':'' @ '' '' @ stack err) d'))"

fun dispatch_loop :: "env \<Rightarrow> time \<Rightarrow> due_reminder list \<Rightarrow> dispatch_results \<Rightarrow> dispatch_results io" where
  "dispatch_loop e now [] res d = (Inr res, d)"
| "dispatch_loop e now (x # xs) res d =
     (case dispatch_one e now x res d of
        (Inl err, d') \<Rightarrow> (Inl err, d')
      | (Inr res', d') \<Rightarrow> dispatch_loop e now xs res' d')"

definition dispatch :: "env \<Rightarrow> time \<Rightarrow> dispatch_results io" where
  "dispatch e now =
     and_then (find_due_reminders e now) (\<lambda>dueReminders.
       dispatch_loop e now dueReminders
         \<lparr>processed = length dueReminders, sent = 0, skipped = 0, failed_count = 0\<rparr>)"

definition dispatch_summary :: "dispatch_results \<Rightarrow> (string \<times> json) list" where
  "dispatch_summary res =
     [(''processed'', JNum (int (processed res))), (''sent'', JNum (int (sent res))),
      (''skipped'', JNum (int (skipped res))), (''failed'', JNum (int (failed_count res)))]"

definition process_reminders_body :: "env \<Rightarrow> time \<Rightarrow> (string \<times> json) list io" where
  "process_reminders_body e now =
     and_then (dispatch e now) (\<lambda>res d. (Inr (dispatch_summary res), d))"

definition process_reminders :: "env \<Rightarrow> time \<Rightarrow> time \<Rightarrow> db \<Rightarrow> log_event list \<times> db" where
  "process_reminders e now finish =
     cron_job ''process-reminders'' (process_reminders_body e now) now finish"

subsection \<open>daily-streak-update and prepare-next-day-reminders\<close>

definition daily_streak_update_body :: "env \<Rightarrow> (string \<times> json) list io" where
  "daily_streak_update_body e =
     and_then (await e (processDailyStreakUpdates e)) (\<lambda>result d.
       (Inr [(''results'', JObj (results result)),
             (''message'', JStr (result_message result))], d))"

definition daily_streak_update :: "env \<Rightarrow> time \<Rightarrow> time \<Rightarrow> db \<Rightarrow> log_event list \<times> db" where
  "daily_streak_update e now finish =
     cron_job ''daily-streak-update'' (daily_streak_update_body e) now finish"

definition prepare_next_day_reminders_body :: "env \<Rightarrow> (string \<times> json) list io" where
  "prepare_next_day_reminders_body e =
     and_then (await e (prepareRemindersForNextDay e)) (\<lambda>preparedCount d.
       (Inr [(''preparedCount'', JNum (int preparedCount))], d))"

definition prepare_next_day_reminders :: "env \<Rightarrow> time \<Rightarrow> time \<Rightarrow> db \<Rightarrow> log_event list \<times> db" where
  "prepare_next_day_reminders e now finish =
     cron_job ''prepare-next-day-reminders'' (prepare_next_day_reminders_body e) now finish"

subsection \<open>streak-milestone-check\<close>

definition milestones :: "int list" where
  "milestones = [7, 14, 21, 30, 60, 90, 100, 180, 365]"

definition milestone_notification :: "habit \<Rightarrow> habit_streak \<Rightarrow> notification_data" where
  "milestone_notification h s =
     \<lparr>d_user_id = habit_user_id h,
      d_title = show_int (current_streak s) @ ''-Day Streak! '' @ emoji_fire,
      d_content = ''Amazing! You've maintained your '' @ dq @ name h @ dq @ '' habit for ''
                  @ show_int (current_streak s) @ '' days in a row! Keep going!'',
      d_type = STREAK_MILESTONE,
      d_related_id = Some (habit_id h),
      d_action_url = Some (''/habits/'' @ show_nat (habit_id h))\<rparr>"

text \<open>The loop over the active habits; \<open>n\<close> is \<open>notificationsSent\<close>.\<close>

fun milestone_loop :: "env \<Rightarrow> habit list \<Rightarrow> nat \<Rightarrow> db \<Rightarrow> nat \<times> db" where
  "milestone_loop e [] n d = (n, d)"
| "milestone_loop e (h # hs) n d =
     (if streak h = [] \<or> \<not> prefersNotifications (habit_user h) then milestone_loop e hs n d
      else
        let s = hd (streak h) in
        if current_streak s > 0 \<and> current_streak s \<in> set milestones then
          (case createNotification e (milestone_notification h s) d of
             (_, d') \<Rightarrow> milestone_loop e hs (n + 1) d')
        else milestone_loop e hs n d)"

definition streak_milestone_check_body :: "env \<Rightarrow> (string \<times> json) list io" where
  "streak_milestone_check_body e =
     and_then (habit_findMany_active e) (\<lambda>habitsWithStreaks d.
       case milestone_loop e habitsWithStreaks 0 d of
         (notificationsSent, d') \<Rightarrow>
           (Inr [(''habitsChecked'', JNum (int (length habitsWithStreaks))),
                 (''milestoneNotificationsSent'', JNum (int notificationsSent))], d'))"

definition streak_milestone_check :: "env \<Rightarrow> time \<Rightarrow> time \<Rightarrow> db \<Rightarrow> log_event list \<times> db" where
  "streak_milestone_check e now finish =
     cron_job ''streak-milestone-check'' (streak_milestone_check_body e) now finish"

subsection \<open>streak-warning-check\<close>

text \<open>
  \<open>setHours(20, 0, 0)\<close> on a copy of \<open>now\<close>: the same local day at 20:00:00, the
  milliseconds kept. Daylight-saving shifts are left out: a local day has 86400000 ms.
\<close>

definition local_midnight :: "env \<Rightarrow> time \<Rightarrow> time" where
  "local_midnight e t = t - (t + tz_offset e) mod 86400000"

definition at_20_hours :: "env \<Rightarrow> time \<Rightarrow> time" where
  "at_20_hours e t = local_midnight e t + 72000000 + (t + tz_offset e) mod 1000"

definition warning_notification :: "nat \<Rightarrow> string \<Rightarrow> int \<Rightarrow> nat \<Rightarrow> notification_data" where
  "warning_notification userId habitName currentStreak habitId =
     \<lparr>d_user_id = userId,
      d_title = ''Streak at Risk!'',
      d_content = ''Your '' @ show_int currentStreak @ ''-day streak for '' @ dq @ habitName @ dq
                  @ '' will be reset if you don't complete it today!'',
      d_type = STREAK_MILESTONE,
      d_related_id = Some habitId,
      d_action_url = Some (''/habits/'' @ show_nat habitId)\<rparr>"

definition warning_message :: "string \<Rightarrow> int \<Rightarrow> string" where
  "warning_message habitName currentStreak =
     emoji_warning @ '' STREAK ALERT: Your '' @ show_int currentStreak @ ''-day streak for ''
     @ dq @ habitName @ dq @ '' will be reset tonight if not completed!''"

definition warning_metadata :: "string \<Rightarrow> int \<Rightarrow> (string \<times> json) list" where
  "warning_metadata habitName currentStreak =
     [(''priority'', JStr ''high''), (''streakLength'', JNum currentStreak),
      (''habitName'', JStr habitName)]"

definition createStreakWarningNotification ::
  "env \<Rightarrow> time \<Rightarrow> nat \<Rightarrow> string \<Rightarrow> int \<Rightarrow> nat \<Rightarrow> db \<Rightarrow> db" where
  "createStreakWarningNotification e now userId habitName currentStreak habitId d =
     (case createNotification e (warning_notification userId habitName currentStreak habitId) d of
        (_, d1) \<Rightarrow>
          if now < at_20_hours e now then
            (case reminder_create e habitId userId (at_20_hours e now) ''STREAK_WARNING''
                    (warning_message habitName currentStreak)
                    (warning_metadata habitName currentStreak) d1 of
               (Inr _, d2) \<Rightarrow> d2
             | (Inl err, d2) \<Rightarrow>
                 console_error (''Error creating streak warning notification: '' @ message err) d2)
          else d1)"

text \<open>The query includes only the streak rows above the threshold.\<close>

definition streaks_above :: "int \<Rightarrow> habit \<Rightarrow> habit" where
  "streaks_above k h = h\<lparr>streak := filter (\<lambda>s. current_streak s > k) (streak h)\<rparr>"

definition habit_findMany_streaks_above :: "env \<Rightarrow> int \<Rightarrow> habit list io" where
  "habit_findMany_streaks_above e k =
     await e (\<lambda>d. (map (streaks_above k) (filter is_active (habits d)), d))"

text \<open>The loop body for one habit; \<open>n\<close> is \<open>warningsCreated\<close>.\<close>

definition warning_one :: "env \<Rightarrow> time \<Rightarrow> habit \<Rightarrow> nat \<Rightarrow> nat io" where
  "warning_one e now h n =
     (if streak h = [] \<or> onVacation (habit_user h) then (\<lambda>d. (Inr n, d))
      else
        and_then (call_isHabitScheduledForDate e h now) (\<lambda>isScheduledToday.
          if \<not> isScheduledToday then (\<lambda>d. (Inr n, d))
          else
            and_then (call_isHabitCompletedForDate e (habit_id h) (habit_user_id h) now)
              (\<lambda>isCompletedToday d.
                if \<not> isCompletedToday then
                  (Inr (n + 1),
                   createStreakWarningNotification e now (habit_user_id h) (name h)
                     (current_streak (hd (streak h))) (habit_id h) d)
                else (Inr n, d))))"

fun warning_loop :: "env \<Rightarrow> time \<Rightarrow> habit list \<Rightarrow> nat \<Rightarrow> nat io" where
  "warning_loop e now [] n d = (Inr n, d)"
| "warning_loop e now (h # hs) n d =
     (case warning_one e now h n d of
        (Inl err, d') \<Rightarrow> (Inl err, d')
      | (Inr n', d') \<Rightarrow> warning_loop e now hs n' d')"

definition streak_warning_check_body :: "env \<Rightarrow> time \<Rightarrow> (string \<times> json) list io" where
  "streak_warning_check_body e now =
     and_then (habit_findMany_streaks_above e 2) (\<lambda>habitsAtRisk.
     and_then (warning_loop e now habitsAtRisk 0) (\<lambda>warningsCreated d.
       (Inr [(''habitsChecked'', JNum (int (length habitsAtRisk))),
             (''warningsCreated'', JNum (int warningsCreated))], d)))"

definition streak_warning_check :: "env \<Rightarrow> time \<Rightarrow> time \<Rightarrow> db \<Rightarrow> log_event list \<times> db" where
  "streak_warning_check e now finish =
     cron_job ''streak-warning-check'' (streak_warning_check_body e now) now finish"

subsection \<open>streak-preservation-reminder\<close>

definition two_hours :: int where
  "two_hours = 2 * 60 * 60 * 1000"

definition is_recent_preservation :: "time \<Rightarrow> nat \<Rightarrow> nat \<Rightarrow> scheduled_reminder \<Rightarrow> bool" where
  "is_recent_preservation now hid uid r =
     (r_habit_id r = hid \<and> r_user_id r = uid \<and> reminder_type r = ''STREAK_PRESERVATION''
      \<and> scheduled_time r \<ge> now - two_hours)"

definition find_recent_preservation :: "env \<Rightarrow> time \<Rightarrow> nat \<Rightarrow> nat \<Rightarrow> scheduled_reminder option io" where
  "find_recent_preservation e now hid uid =
     await e (\<lambda>d. (find (is_recent_preservation now hid uid) (scheduledReminders d), d))"

definition preservation_message :: "habit \<Rightarrow> habit_streak \<Rightarrow> string" where
  "preservation_message h s =
     emoji_fire @ '' Don't lose your '' @ show_int (current_streak s) @ ''-day streak for ''
     @ dq @ name h @ dq @ ''! Complete it now!''"

definition preservation_metadata :: "habit \<Rightarrow> habit_streak \<Rightarrow> (string \<times> json) list" where
  "preservation_metadata h s =
     [(''priority'', JStr ''urgent''), (''streakLength'', JNum (current_streak s)),
      (''habitName'', JStr (name h)), (''habitColor'', JStr (color h)),
      (''habitIcon'', JStr (icon h))]"

definition preservation_notification :: "habit \<Rightarrow> habit_streak \<Rightarrow> notification_data" where
  "preservation_notification h s =
     \<lparr>d_user_id = habit_user_id h,
      d_title = ''Urgent Habit Reminder'',
      d_content = preservation_message h s,
      d_type = REMINDER,
      d_related_id = Some (habit_id h),
      d_action_url = Some (''/habits/'' @ show_nat (habit_id h))\<rparr>"

text \<open>The part of the loop body behind \<open>if (!isCompletedToday && !inQuietHours)\<close>.\<close>

definition preservation_create :: "env \<Rightarrow> time \<Rightarrow> habit \<Rightarrow> nat \<Rightarrow> nat io" where
  "preservation_create e now h n =
     and_then (find_recent_preservation e now (habit_id h) (habit_user_id h)) (\<lambda>recentReminder.
       case recentReminder of
         Some _ \<Rightarrow> (\<lambda>d. (Inr n, d))
       | None \<Rightarrow>
           and_then (reminder_create e (habit_id h) (habit_user_id h) now ''STREAK_PRESERVATION''
                       (preservation_message h (hd (streak h)))
                       (preservation_metadata h (hd (streak h)))) (\<lambda>_ d.
             case createNotification e (preservation_notification h (hd (streak h))) d of
               (_, d') \<Rightarrow> (Inr (n + 1), d')))"

definition preservation_one :: "env \<Rightarrow> time \<Rightarrow> habit \<Rightarrow> nat \<Rightarrow> nat io" where
  "preservation_one e now h n =
     (if streak h = [] \<or> onVacation (habit_user h) \<or> \<not> prefersNotifications (habit_user h)
      then (\<lambda>d. (Inr n, d))
      else
        and_then (call_isHabitScheduledForDate e h now) (\<lambda>isScheduledToday.
          if \<not> isScheduledToday then (\<lambda>d. (Inr n, d))
          else
            and_then (call_isHabitCompletedForDate e (habit_id h) (habit_user_id h) now)
              (\<lambda>isCompletedToday.
            and_then (call_isInQuietHours e (habit_user_id h) now) (\<lambda>inQuietHours.
              if \<not> isCompletedToday \<and> \<not> inQuietHours then preservation_create e now h n
              else (\<lambda>d. (Inr n, d))))))"

fun preservation_loop :: "env \<Rightarrow> time \<Rightarrow> habit list \<Rightarrow> nat \<Rightarrow> nat io" where
  "preservation_loop e now [] n d = (Inr n, d)"
| "preservation_loop e now (h # hs) n d =
     (case preservation_one e now h n d of
        (Inl err, d') \<Rightarrow> (Inl err, d')
      | (Inr n', d') \<Rightarrow> preservation_loop e now hs n' d')"

definition streak_preservation_body :: "env \<Rightarrow> time \<Rightarrow> (string \<times> json) list io" where
  "streak_preservation_body e now =
     and_then (habit_findMany_streaks_above e 7) (\<lambda>highValueHabits.
     and_then (preservation_loop e now highValueHabits 0) (\<lambda>remindersCreated d.
       (Inr [(''habitsChecked'', JNum (int (length highValueHabits))),
             (''remindersCreated'', JNum (int remindersCreated))], d)))"

definition streak_preservation_reminder :: "env \<Rightarrow> time \<Rightarrow> time \<Rightarrow> db \<Rightarrow> log_event list \<times> db" where
  "streak_preservation_reminder e now finish =
     cron_job ''streak-preservation-reminder'' (streak_preservation_body e now) now finish"

subsection \<open>weekly-habit-review\<close>

definition user_findMany_active :: "env \<Rightarrow> user list io" where
  "user_findMany_active e =
     await e (\<lambda>d. (filter (\<lambda>u. prefersNotifications u = True \<and> onVacation u = False) (users d), d))"

text \<open>\<open>setDate(getDate() - 7)\<close>: the same local time seven days earlier.\<close>

definition one_week_ago :: "time \<Rightarrow> time" where
  "one_week_ago today = today - 7 * 86400000"

definition week_logs :: "habit_log list \<Rightarrow> nat \<Rightarrow> time \<Rightarrow> habit_log list" where
  "week_logs logs uid today =
     filter (\<lambda>l. log_user_id l = uid \<and> log_completed l = True
                \<and> completed_at l \<ge> one_week_ago today \<and> completed_at l \<le> today) logs"

text \<open>\<open>groupBy\<close> on \<open>habit_id\<close> with \<open>_count\<close>: one pair per habit that has a matching log.\<close>

definition group_counts :: "habit_log list \<Rightarrow> (nat \<times> nat) list" where
  "group_counts ls =
     map (\<lambda>hid. (hid, length (filter (\<lambda>l. log_habit_id l = hid) ls))) (remdups (map log_habit_id ls))"

definition habitLog_groupBy :: "env \<Rightarrow> nat \<Rightarrow> time \<Rightarrow> (nat \<times> nat) list io" where
  "habitLog_groupBy e uid today = await e (\<lambda>d. (group_counts (week_logs (habitLogs d) uid today), d))"

definition habit_findMany_in :: "env \<Rightarrow> nat list \<Rightarrow> habit list io" where
  "habit_findMany_in e habitIds = await e (\<lambda>d. (filter (\<lambda>h. habit_id h \<in> set habitIds) (habits d), d))"

definition totalCompletions :: "(nat \<times> nat) list \<Rightarrow> nat" where
  "totalCompletions completedHabits = foldl (\<lambda>sum h. sum + snd h) 0 completedHabits"

text \<open>
  The name and count of each habit, sorted with the comparator \<open>b.count - a.count\<close>.
  \<open>Array.prototype.sort\<close> is stable, and so is \<open>sort_key\<close>.
\<close>

definition topHabits :: "(nat \<times> nat) list \<Rightarrow> habit list \<Rightarrow> (string \<times> nat) list" where
  "topHabits completedHabits hs =
     sort_key (\<lambda>a. - int (snd a))
       (map (\<lambda>h. (name h, (case map_of completedHabits (habit_id h) of Some c \<Rightarrow> c | None \<Rightarrow> 0))) hs)"

fun join_comma :: "string list \<Rightarrow> string" where
  "join_comma [] = []"
| "join_comma [x] = x"
| "join_comma (x # y # ys) = x @ '', '' @ join_comma (y # ys)"

definition topHabitsText :: "(string \<times> nat) list \<Rightarrow> string" where
  "topHabitsText tops =
     (if length tops > 0 then
        ''Top habits: '' @ join_comma (map (\<lambda>h. fst h @ '' ('' @ show_nat (snd h) @ '' times)'') (take 3 tops))
      else ''No habits completed this week.'')"

definition weekly_summary_notification :: "nat \<Rightarrow> nat \<Rightarrow> (string \<times> nat) list \<Rightarrow> notification_data" where
  "weekly_summary_notification userId completedCount tops =
     (let message0 = ''You completed '' @ show_nat completedCount @ '' habits this week! ''
                     @ topHabitsText tops;
          (emoji, msg) =
            (if completedCount = 0 then (emoji_seedling, message0 @ '' Let's set some goals for next week!'')
             else if completedCount < 5 then (emoji_thumbs_up, message0 @ '' You're making progress!'')
             else if completedCount < 15 then (emoji_target, message0 @ '' Great consistency!'')
             else if completedCount < 30 then (emoji_fire, message0 @ '' You're on fire!'')
             else (emoji_trophy, message0 @ '' Incredible dedication!''))
      in \<lparr>d_user_id = userId,
          d_title = ''Weekly Summary '' @ emoji,
          d_content = msg,
          d_type = SYSTEM_MESSAGE,
          d_related_id = None,
          d_action_url = Some ''/stats''\<rparr>)"

definition createWeeklySummaryNotification ::
  "env \<Rightarrow> nat \<Rightarrow> nat \<Rightarrow> (string \<times> nat) list \<Rightarrow> db \<Rightarrow> db" where
  "createWeeklySummaryNotification e userId completedCount tops d =
     snd (createNotification e (weekly_summary_notification userId completedCount tops) d)"

text \<open>The \<open>try\<close> block of one user's report.\<close>

definition weekly_try :: "env \<Rightarrow> time \<Rightarrow> user \<Rightarrow> unit io" where
  "weekly_try e today u =
     and_then (habitLog_groupBy e (user_id u) today) (\<lambda>completedHabits.
     and_then (habit_findMany_in e (map fst completedHabits)) (\<lambda>hs d.
       (Inr (), createWeeklySummaryNotification e (user_id u)
                  (totalCompletions completedHabits) (topHabits completedHabits hs) d)))"

text \<open>One iteration with its \<open>catch\<close> block; \<open>n\<close> is \<open>reportsGenerated\<close>.\<close>

definition weekly_one :: "env \<Rightarrow> time \<Rightarrow> user \<Rightarrow> nat \<Rightarrow> db \<Rightarrow> nat \<times> db" where
  "weekly_one e today u n d =
     (case weekly_try e today u d of
        (Inr _, d') \<Rightarrow> (n + 1, d')
      | (Inl err, d') \<Rightarrow>
          (n, console_error (''Error generating weekly report for user '' @ show_nat (user_id u)
                             @ '': '' @ message err) d'))"

fun weekly_loop :: "env \<Rightarrow> time \<Rightarrow> user list \<Rightarrow> nat \<Rightarrow> db \<Rightarrow> nat \<times> db" where
  "weekly_loop e today [] n d = (n, d)"
| "weekly_loop e today (u # us) n d =
     (case weekly_one e today u n d of (n', d') \<Rightarrow> weekly_loop e today us n' d')"

definition weekly_habit_review_body :: "env \<Rightarrow> time \<Rightarrow> (string \<times> json) list io" where
  "weekly_habit_review_body e now =
     and_then (user_findMany_active e) (\<lambda>activeUsers d.
       case weekly_loop e now activeUsers 0 d of
         (reportsGenerated, d') \<Rightarrow>
           (Inr [(''usersProcessed'', JNum (int (length activeUsers))),
                 (''reportsGenerated'', JNum (int reportsGenerated))], d'))"

definition weekly_habit_review :: "env \<Rightarrow> time \<Rightarrow> time \<Rightarrow> db \<Rightarrow> log_event list \<times> db" where
  "weekly_habit_review e now finish =
     cron_job ''weekly-habit-review'' (weekly_habit_review_body e now) now finish"

subsection \<open>daily-goal-check\<close>

definition user_findMany_with_goal :: "env \<Rightarrow> user list io" where
  "user_findMany_with_goal e =
     await e (\<lambda>d. (filter (\<lambda>u. prefersNotifications u = True \<and> onVacation u = False \<and> dailyGoal u > 0)
                     (users d), d))"

definition completed_between :: "habit_log list \<Rightarrow> nat \<Rightarrow> time \<Rightarrow> time \<Rightarrow> nat" where
  "completed_between logs uid today tomorrow =
     length (filter (\<lambda>l. log_user_id l = uid \<and> log_completed l = True
                        \<and> completed_at l \<ge> today \<and> completed_at l < tomorrow) logs)"

definition habitLog_count :: "env \<Rightarrow> nat \<Rightarrow> time \<Rightarrow> time \<Rightarrow> nat io" where
  "habitLog_count e uid today tomorrow =
     await e (\<lambda>d. (completed_between (habitLogs d) uid today tomorrow, d))"

definition goal_notification :: "user \<Rightarrow> nat \<Rightarrow> notification_data" where
  "goal_notification u completedCount =
     \<lparr>d_user_id = user_id u,
      d_title = ''Daily Goal Achieved! '' @ emoji_target,
      d_content = ''Congratulations! You've completed '' @ show_nat completedCount @ ''/''
                  @ show_int (dailyGoal u) @ '' habits today. Keep up the great work!'',
      d_type = ACHIEVEMENT_UNLOCKED,
      d_related_id = None,
      d_action_url = Some ''/stats''\<rparr>"

text \<open>The loop body for one user; \<open>n\<close> is \<open>notificationsSent\<close>.\<close>

definition goal_one :: "env \<Rightarrow> time \<Rightarrow> time \<Rightarrow> user \<Rightarrow> nat \<Rightarrow> nat io" where
  "goal_one e today tomorrow u n =
     and_then (habitLog_count e (user_id u) today tomorrow) (\<lambda>completedCount d.
       if int completedCount \<ge> dailyGoal u then
         (Inr (n + 1), snd (createNotification e (goal_notification u completedCount) d))
       else (Inr n, d))"

fun goal_loop :: "env \<Rightarrow> time \<Rightarrow> time \<Rightarrow> user list \<Rightarrow> nat \<Rightarrow> nat io" where
  "goal_loop e today tomorrow [] n d = (Inr n, d)"
| "goal_loop e today tomorrow (u # us) n d =
     (case goal_one e today tomorrow u n d of
        (Inl err, d') \<Rightarrow> (Inl err, d')
      | (Inr n', d') \<Rightarrow> goal_loop e today tomorrow us n' d')"

definition daily_goal_check_body :: "env \<Rightarrow> time \<Rightarrow> (string \<times> json) list io" where
  "daily_goal_check_body e now =
     (let today = local_midnight e now; tomorrow = today + 86400000 in
      and_then (user_findMany_with_goal e) (\<lambda>us.
      and_then (goal_loop e today tomorrow us 0) (\<lambda>notificationsSent d.
        (Inr [(''usersProcessed'', JNum (int (length us))),
              (''notificationsSent'', JNum (int notificationsSent))], d))))"

definition daily_goal_check :: "env \<Rightarrow> time \<Rightarrow> time \<Rightarrow> db \<Rightarrow> log_event list \<times> db" where
  "daily_goal_check e now finish =
     cron_job ''daily-goal-check'' (daily_goal_check_body e now) now finish"

subsection \<open>new-user-welcome\<close>

definition is_welcome :: "notification \<Rightarrow> bool" where
  "is_welcome n = (n_type n = SYSTEM_MESSAGE \<and> contains ''Welcome'' (title n))"

definition needs_welcome :: "db \<Rightarrow> time \<Rightarrow> user \<Rightarrow> bool" where
  "needs_welcome d thirtyMinutesAgo u =
     (registeredAt u \<ge> thirtyMinutesAgo
      \<and> filter (\<lambda>n. n_user_id n = user_id u \<and> is_welcome n) (notifications d) = [])"

definition user_findMany_new :: "env \<Rightarrow> time \<Rightarrow> user list io" where
  "user_findMany_new e thirtyMinutesAgo =
     await e (\<lambda>d. (filter (needs_welcome d thirtyMinutesAgo) (users d), d))"

definition welcome_notification :: "user \<Rightarrow> notification_data" where
  "welcome_notification u =
     \<lparr>d_user_id = user_id u,
      d_title = ''Welcome to HabitPulse! '' @ emoji_wave,
      d_content = ''Start tracking your habits and build positive routines. We're excited to have you here!'',
      d_type = SYSTEM_MESSAGE,
      d_related_id = None,
      d_action_url = Some ''/dashboard''\<rparr>"

text \<open>
  The loop wraps each call in \<open>try\<close>, but \<open>createNotification\<close> cannot throw, so the
  \<open>catch\<close> block has nothing to catch.
\<close>

fun welcome_loop :: "env \<Rightarrow> user list \<Rightarrow> nat \<Rightarrow> db \<Rightarrow> nat \<times> db" where
  "welcome_loop e [] n d = (n, d)"
| "welcome_loop e (u # us) n d =
     welcome_loop e us (n + 1) (snd (createNotification e (welcome_notification u) d))"

definition new_user_welcome_body :: "env \<Rightarrow> time \<Rightarrow> (string \<times> json) list io" where
  "new_user_welcome_body e now =
     and_then (user_findMany_new e (now - 30 * 60 * 1000)) (\<lambda>newUsers d.
       case welcome_loop e newUsers 0 d of
         (welcomesSent, d') \<Rightarrow> (Inr [(''welcomeNotificationsSent'', JNum (int welcomesSent))], d'))"

definition new_user_welcome :: "env \<Rightarrow> time \<Rightarrow> time \<Rightarrow> db \<Rightarrow> log_event list \<times> db" where
  "new_user_welcome e now finish =
     cron_job ''new-user-welcome'' (new_user_welcome_body e now) now finish"

subsection \<open>The registered handlers\<close>

text \<open>The row a successful \<open>createNotification\<close> adds to the store \<open>d\<close>.\<close>

definition next_row :: "db \<Rightarrow> notification_data \<Rightarrow> notification" where
  "next_row d dat = notification_row (new_id (map notification_id (notifications d))) dat"

text \<open>
  The nine \<open>cron.schedule\<close> registrations of the module, in source order. An entry holds
  the cron expression and the handler, and beside them the two things the handler is built
  from: the value of \<open>jobName\<close> and the statements between \<open>try {\<close> and the \<open>completed\<close>
  log line, which compute the summary that line prints.
\<close>

type_synonym handler = "db \<Rightarrow> log_event list \<times> db"

definition schedule ::
  "env \<Rightarrow> time \<Rightarrow> time \<Rightarrow> (string \<times> string \<times> (string \<times> json) list io \<times> handler) list" where
  "schedule e now finish =
     [(''0 0 * * *'', ''daily-streak-update'',
         daily_streak_update_body e, daily_streak_update e now finish),
      (''5 0 * * *'', ''streak-milestone-check'',
         streak_milestone_check_body e, streak_milestone_check e now finish),
      (''0 9 * * *'', ''streak-warning-check'',
         streak_warning_check_body e now, streak_warning_check e now finish),
      (''*/15 * * * *'', ''process-reminders'',
         process_reminders_body e now, process_reminders e now finish),
      (''0 10,12,14,16,18,20 * * *'', ''streak-preservation-reminder'',
         streak_preservation_body e now, streak_preservation_reminder e now finish),
      (''0 23 * * *'', ''prepare-next-day-reminders'',
         prepare_next_day_reminders_body e, prepare_next_day_reminders e now finish),
      (''0 9 * * 0'', ''weekly-habit-review'',
         weekly_habit_review_body e now, weekly_habit_review e now finish),
      (''0 22 * * *'', ''daily-goal-check'',
         daily_goal_check_body e now, daily_goal_check e now finish),
      (''*/30 * * * *'', ''new-user-welcome'',
         new_user_welcome_body e now, new_user_welcome e now finish)]"

definition handlers :: "env \<Rightarrow> time \<Rightarrow> time \<Rightarrow> handler list" where
  "handlers e now finish = map (\<lambda>(expr, jobName, body, run). run) (schedule e now finish)"

text \<open>
  A series of invocations, one after the other on the same store, as the scheduler fires
  them: the events of each invocation, and the store at the end.
\<close>

fun invoke_all :: "handler list \<Rightarrow> db \<Rightarrow> log_event list list \<times> db" where
  "invoke_all [] d = ([], d)"
| "invoke_all (run # runs) d =
     (case run d of (events, d') \<Rightarrow>
        (case invoke_all runs d' of (rest, d'') \<Rightarrow> (events # rest, d'')))"

subsection \<open>Sample data\<close>

text \<open>One user with one habit and one due reminder, and a fault plan that rejects call \<open>k\<close>.\<close>

definition sample_user :: user where
  "sample_user = \<lparr>user_id = 1, user_name = ''ann'', prefersNotifications = True,
                   onVacation = False, dailyGoal = 2, registeredAt = 0\<rparr>"

definition sample_habit :: habit where
  "sample_habit = \<lparr>habit_id = 1, habit_user_id = 1, name = ''Run'', is_active = True,
                    color = ''red'', icon = ''shoe'', streak = [\<lparr>current_streak = 7\<rparr>],
                    habit_user = sample_user\<rparr>"

definition sample_reminder :: scheduled_reminder where
  "sample_reminder = reminder_row 1 1 1 100 ''REMINDER'' ''Time to run'' []"

definition sample_db :: db where
  "sample_db = \<lparr>users = [sample_user], habits = [sample_habit], habitLogs = [],
                 scheduledReminders = [sample_reminder], notifications = [], pushes = [],
                 console_errors = [], ticks = 0\<rparr>"

definition fail_at :: "nat \<Rightarrow> nat \<Rightarrow> js_error option" where
  "fail_at k n = (if n = k then Some (Error ''connection lost'' ''Error: connection lost'') else None)"

definition sample_env :: "(nat \<Rightarrow> js_error option) \<Rightarrow> env" where
  "sample_env f = \<lparr>faults = f, isHabitScheduledForDate = (\<lambda>h t. True),
                    isHabitCompletedForDate = (\<lambda>hid uid t. False),
                    isInQuietHours = (\<lambda>uid t. False),
                    processDailyStreakUpdates = (\<lambda>d. (\<lparr>results = [], result_message = ''done''\<rparr>, d)),
                    prepareRemindersForNextDay = (\<lambda>d. (0, d)), tz_offset = 0\<rparr>"

text \<open>The number of reminders a run has settled so far.\<close>

definition handled :: "dispatch_results \<Rightarrow> nat" where
  "handled res = sent res + skipped res + failed_count res"

text \<open>A store that is lost from call \<open>k\<close> on, and more sample rows.\<close>

definition fail_from :: "nat \<Rightarrow> nat \<Rightarrow> js_error option" where
  "fail_from k n = (if n \<ge> k then Some (Error ''connection lost'' ''Error: connection lost'') else None)"

definition two_due_db :: db where
  "two_due_db = sample_db\<lparr>scheduledReminders :=
     [sample_reminder, reminder_row 2 1 1 150 ''REMINDER'' ''Second call'' []]\<rparr>"

definition vacation_user :: user where
  "vacation_user = sample_user\<lparr>onVacation := True\<rparr>"

definition completed_env :: env where
  "completed_env = (sample_env (fail_at 2))\<lparr>isHabitCompletedForDate := (\<lambda>hid uid t. True)\<rparr>"

definition no_results :: dispatch_results where
  "no_results = \<lparr>processed = 1, sent = 0, skipped = 0, failed_count = 0\<rparr>"

text \<open>
  The dispatch pass in the words of the specification. The due set of a run; the owner and
  the habit that the query joins to a reminder; the verdict on a due reminder, decided in
  the order (i), (ii), (iii), with a reminder whose owner row is missing failing at the
  first read; and the row as each verdict leaves it.
\<close>

definition in_due_set :: "time \<Rightarrow> scheduled_reminder \<Rightarrow> bool" where
  "in_due_set now r = (scheduled_time r \<le> now \<and> \<not> is_sent r \<and> is_prepared r)"

definition owner_of :: "db \<Rightarrow> scheduled_reminder \<Rightarrow> user option" where
  "owner_of d r = find (\<lambda>u. user_id u = r_user_id r) (users d)"

definition habit_of :: "db \<Rightarrow> scheduled_reminder \<Rightarrow> habit option" where
  "habit_of d r = find (\<lambda>h. habit_id h = r_habit_id r) (habits d)"

datatype verdict = Skip_preferences | Skip_completed | Send | Fail_no_owner

definition verdict_of :: "env \<Rightarrow> time \<Rightarrow> db \<Rightarrow> scheduled_reminder \<Rightarrow> verdict" where
  "verdict_of e now d r =
     (case owner_of d r of
        None \<Rightarrow> Fail_no_owner
      | Some u \<Rightarrow>
          if \<not> prefersNotifications u \<or> onVacation u then Skip_preferences
          else if isHabitCompletedForDate e (r_habit_id r) (r_user_id r) now then Skip_completed
          else Send)"

definition settled_as :: "time \<Rightarrow> verdict \<Rightarrow> scheduled_reminder \<Rightarrow> scheduled_reminder" where
  "settled_as now v r =
     (case v of
        Skip_preferences \<Rightarrow>
          r\<lparr>is_sent := True, actual_send_time := Some now, send_status := Some SKIPPED,
            failure_reason := Some ''User preferences or status''\<rparr>
      | Skip_completed \<Rightarrow>
          r\<lparr>is_sent := True, actual_send_time := Some now, send_status := Some SKIPPED,
            failure_reason := Some ''Already completed''\<rparr>
      | Send \<Rightarrow> r\<lparr>is_sent := True, actual_send_time := Some now, send_status := Some SENT\<rparr>
      | Fail_no_owner \<Rightarrow>
          r\<lparr>send_status := Some FAILED,
            failure_reason := Some (message (null_property ''prefersNotifications''))\<rparr>)"

text \<open>The row \<open>r'\<close> is \<open>r\<close> marked FAILED with some reason, and otherwise as it was.\<close>

definition marked_failed :: "scheduled_reminder \<Rightarrow> scheduled_reminder \<Rightarrow> bool" where
  "marked_failed r r' =
     (failure_reason r' \<noteq> None
      \<and> r' = r\<lparr>send_status := Some FAILED, failure_reason := failure_reason r'\<rparr>)"

text \<open>A due reminder is settled when it was given its verdict, or was marked FAILED.\<close>

definition settled :: "env \<Rightarrow> time \<Rightarrow> db \<Rightarrow> scheduled_reminder \<Rightarrow> scheduled_reminder \<Rightarrow> bool" where
  "settled e now d r r' = (r' = settled_as now (verdict_of e now d r) r \<or> marked_failed r r')"

text \<open>The counts of a pass over the due reminders \<open>dues\<close> in which no call is rejected.\<close>

definition tally :: "env \<Rightarrow> time \<Rightarrow> db \<Rightarrow> scheduled_reminder list \<Rightarrow> dispatch_results" where
  "tally e now d dues =
     \<lparr>processed = length dues,
      sent = length (filter (\<lambda>r. verdict_of e now d r = Send) dues),
      skipped = length (filter (\<lambda>r. verdict_of e now d r = Skip_preferences
                                   \<or> verdict_of e now d r = Skip_completed) dues),
      failed_count = length (filter (\<lambda>r. verdict_of e now d r = Fail_no_owner) dues)\<rparr>"

text \<open>The notification stored for a reminder that is sent, and the push that follows it.\<close>

definition reminder_title :: "db \<Rightarrow> scheduled_reminder \<Rightarrow> string" where
  "reminder_title d r =
     (case habit_of d r of Some h \<Rightarrow> ''Reminder: '' @ name h | None \<Rightarrow> ''Habit Reminder'')"

definition reminder_note :: "db \<Rightarrow> notification \<Rightarrow> scheduled_reminder \<Rightarrow> bool" where
  "reminder_note d n r =
     (n_user_id n = r_user_id r \<and> n_type n = REMINDER \<and> title n = reminder_title d r
      \<and> content n = r_message r \<and> is_read n = False
      \<and> action_url n = Some (''/habits/'' @ show_nat (r_habit_id r))
      \<and> related_id n = (if r_habit_id r = 0 then None else Some (r_habit_id r)))"

definition reminder_push :: "db \<Rightarrow> push \<Rightarrow> scheduled_reminder \<Rightarrow> bool" where
  "reminder_push d p r =
     (p_user_id p = r_user_id r \<and> p_type p = REMINDER \<and> p_title p = reminder_title d r
      \<and> p_body p = r_message r)"

text \<open>
  Four reminders: the first for the sample user, the second for a user on vacation, the
  third not due before 900, the fourth for a user who has no row.
\<close>

definition mixed_db :: db where
  "mixed_db = sample_db
     \<lparr>users := [sample_user, vacation_user\<lparr>user_id := 2\<rparr>],
      scheduledReminders :=
        [sample_reminder,
         reminder_row 2 1 2 150 ''REMINDER'' ''Second call'' [],
         reminder_row 3 1 1 900 ''REMINDER'' ''Later'' [],
         reminder_row 4 1 3 120 ''REMINDER'' ''Nobody'' []]\<rparr>"

text \<open>The milestone scan: the habits it is to congratulate, and the row it stores for one.\<close>

definition milestone_set :: "int set" where
  "milestone_set = {7, 14, 21, 30, 60, 90, 100, 180, 365}"



definition no_faults :: "nat \<Rightarrow> js_error option" where
  "no_faults n = None"

text \<open>The warning scan: the habits it is to warn about, and the rows of a warning.\<close>

definition at_risk :: "env \<Rightarrow> time \<Rightarrow> habit \<Rightarrow> bool" where
  "at_risk e now h =
     (is_active h \<and> (\<exists>s \<in> set (streak h). current_streak s > 2)
      \<and> \<not> onVacation (habit_user h)
      \<and> isHabitScheduledForDate e (streaks_above 2 h) now
      \<and> \<not> isHabitCompletedForDate e (habit_id h) (habit_user_id h) now)"

definition warned_streak :: "habit \<Rightarrow> int" where
  "warned_streak h = current_streak (hd (filter (\<lambda>s. current_streak s > 2) (streak h)))"

definition warning_row :: "notification \<Rightarrow> habit \<Rightarrow> bool" where
  "warning_row n h =
     (\<exists>i. n = notification_row i
                 (warning_notification (habit_user_id h) (name h) (warned_streak h) (habit_id h)))"

definition warning_reminder :: "env \<Rightarrow> time \<Rightarrow> scheduled_reminder \<Rightarrow> habit \<Rightarrow> bool" where
  "warning_reminder e now r h =
     (\<exists>i. r = reminder_row i (habit_id h) (habit_user_id h) (at_20_hours e now) ''STREAK_WARNING''
                 (warning_message (name h) (warned_streak h))
                 (warning_metadata (name h) (warned_streak h)))"

text \<open>The same on a row as the warning query returns it, with its streak rows filtered.\<close>

definition warning_due :: "env \<Rightarrow> time \<Rightarrow> habit \<Rightarrow> bool" where
  "warning_due e now h =
     (streak h \<noteq> [] \<and> \<not> onVacation (habit_user h) \<and> isHabitScheduledForDate e h now
      \<and> \<not> isHabitCompletedForDate e (habit_id h) (habit_user_id h) now)"

definition warning_row_of :: "notification \<Rightarrow> habit \<Rightarrow> bool" where
  "warning_row_of n h =
     (\<exists>i. n = notification_row i
                 (warning_notification (habit_user_id h) (name h) (current_streak (hd (streak h)))
                    (habit_id h)))"

definition warning_reminder_of :: "env \<Rightarrow> time \<Rightarrow> scheduled_reminder \<Rightarrow> habit \<Rightarrow> bool" where
  "warning_reminder_of e now r h =
     (\<exists>i. r = reminder_row i (habit_id h) (habit_user_id h) (at_20_hours e now) ''STREAK_WARNING''
                 (warning_message (name h) (current_streak (hd (streak h))))
                 (warning_metadata (name h) (current_streak (hd (streak h)))))"

text \<open>A world in which every owner is in quiet hours all day.\<close>

definition quiet_env :: env where
  "quiet_env = (sample_env no_faults)\<lparr>isInQuietHours := (\<lambda>uid t. True)\<rparr>"

text \<open>The preservation reminders of one habit and user, and their spacing in time.\<close>

definition is_preservation_for :: "nat \<Rightarrow> nat \<Rightarrow> scheduled_reminder \<Rightarrow> bool" where
  "is_preservation_for hid uid r =
     (r_habit_id r = hid \<and> r_user_id r = uid \<and> reminder_type r = ''STREAK_PRESERVATION'')"

definition preservation_times :: "db \<Rightarrow> nat \<Rightarrow> nat \<Rightarrow> time list" where
  "preservation_times d hid uid =
     map scheduled_time (filter (is_preservation_for hid uid) (scheduledReminders d))"

definition spaced :: "time list \<Rightarrow> bool" where
  "spaced ts = sorted_wrt (\<lambda>a b. \<bar>a - b\<bar> > two_hours) ts"

text \<open>A habit with a ten-day streak, and 10:00 and 11:30 of the first day.\<close>

definition long_streak_db :: db where
  "long_streak_db = sample_db\<lparr>habits := [sample_habit\<lparr>streak := [\<lparr>current_streak = 10\<rparr>]\<rparr>]\<rparr>"

definition ten_o_clock :: time where
  "ten_o_clock = 10 * 60 * 60 * 1000"

definition half_past_eleven :: time where
  "half_past_eleven = ten_o_clock + 90 * 60 * 1000"

text \<open>The daily-goal scan: the users it looks at, who met the goal, and the row it stores.\<close>

definition has_goal :: "user \<Rightarrow> bool" where
  "has_goal u = (prefersNotifications u \<and> \<not> onVacation u \<and> dailyGoal u > 0)"





text \<open>The welcome notifications a user has, and a series of runs of the welcome job.\<close>

definition welcome_count :: "db \<Rightarrow> nat \<Rightarrow> nat" where
  "welcome_count d uid = length (filter (\<lambda>n. n_user_id n = uid \<and> is_welcome n) (notifications d))"

fun welcome_runs :: "(env \<times> time \<times> time) list \<Rightarrow> db \<Rightarrow> db" where
  "welcome_runs [] d = d"
| "welcome_runs ((e, now, finish) # rs) d = welcome_runs rs (snd (new_user_welcome e now finish d))"

text \<open>The sample user, just registered.\<close>

definition new_user_db :: db where
  "new_user_db = sample_db\<lparr>users := [sample_user\<lparr>registeredAt := 1000\<rparr>]\<rparr>"

text \<open>The weekly digest: who gets one, and what it counts over the last seven days.\<close>

definition opted_in :: "user \<Rightarrow> bool" where
  "opted_in u = (prefersNotifications u \<and> \<not> onVacation u)"

definition week_count :: "habit_log list \<Rightarrow> nat \<Rightarrow> time \<Rightarrow> nat \<Rightarrow> nat" where
  "week_count logs uid now hid =
     length (filter (\<lambda>l. log_user_id l = uid \<and> log_completed l \<and> log_habit_id l = hid
                        \<and> now - 7 * 86400000 \<le> completed_at l \<and> completed_at l \<le> now) logs)"

definition week_total :: "habit_log list \<Rightarrow> nat \<Rightarrow> time \<Rightarrow> nat" where
  "week_total logs uid now =
     length (filter (\<lambda>l. log_user_id l = uid \<and> log_completed l
                        \<and> now - 7 * 86400000 \<le> completed_at l \<and> completed_at l \<le> now) logs)"

text \<open>
  The list that the handler computes from these counts and the row it stores for it, as
  the proofs meet them.
\<close>

definition week_top :: "habit_log list \<Rightarrow> habit list \<Rightarrow> nat \<Rightarrow> time \<Rightarrow> (string \<times> nat) list" where
  "week_top logs hs uid now =
     sort_key (\<lambda>a. - int (snd a))
       (map (\<lambda>h. (name h, week_count logs uid now (habit_id h)))
          (filter (\<lambda>h. week_count logs uid now (habit_id h) > 0) hs))"

definition weekly_row :: "habit_log list \<Rightarrow> habit list \<Rightarrow> time \<Rightarrow> notification \<Rightarrow> user \<Rightarrow> bool" where
  "weekly_row logs hs now n u =
     (\<exists>i. n = notification_row i
                 (weekly_summary_notification (user_id u) (week_total logs (user_id u) now)
                    (week_top logs hs (user_id u) now)))"

text \<open>
  The weekly digest in the words of the specification. The entries of a user are the habits
  with at least one completed log of that user in the last seven days, each with its count.
  A ranking of them holds the same entries, ordered by count from high to low. The summary
  names the total and the first three of the ranking.
\<close>

definition week_entries :: "habit_log list \<Rightarrow> habit list \<Rightarrow> nat \<Rightarrow> time \<Rightarrow> (string \<times> nat) list" where
  "week_entries logs hs uid now =
     map (\<lambda>h. (name h, week_count logs uid now (habit_id h)))
       (filter (\<lambda>h. week_count logs uid now (habit_id h) > 0) hs)"

definition ranked :: "(string \<times> nat) list \<Rightarrow> (string \<times> nat) list \<Rightarrow> bool" where
  "ranked entries tops =
     ((\<forall>a \<in> set entries \<union> set tops. count_list tops a = count_list entries a)
      \<and> sorted_wrt (\<lambda>a b. snd a \<ge> snd b) tops)"

fun comma_separated :: "string list \<Rightarrow> string" where
  "comma_separated [] = []"
| "comma_separated (x # xs) = x @ concat (map (\<lambda>y. '', '' @ y) xs)"

definition habit_line :: "string \<times> nat \<Rightarrow> string" where
  "habit_line a = fst a @ '' ('' @ show_nat (snd a) @ '' times)''"

definition summary_emoji :: "nat \<Rightarrow> string" where
  "summary_emoji n =
     (if n = 0 then emoji_seedling else if n < 5 then emoji_thumbs_up
      else if n < 15 then emoji_target else if n < 30 then emoji_fire else emoji_trophy)"

definition encouragement :: "nat \<Rightarrow> string" where
  "encouragement n =
     (if n = 0 then '' Let's set some goals for next week!''
      else if n < 5 then '' You're making progress!''
      else if n < 15 then '' Great consistency!''
      else if n < 30 then '' You're on fire!''
      else '' Incredible dedication!'')"

definition summary_text :: "nat \<Rightarrow> (string \<times> nat) list \<Rightarrow> string" where
  "summary_text n tops =
     ''You completed '' @ show_nat n @ '' habits this week! ''
     @ (if tops = [] then ''No habits completed this week.''
        else ''Top habits: '' @ comma_separated (map habit_line (take 3 tops)))
     @ encouragement n"

definition weekly_summary_row :: "habit_log list \<Rightarrow> habit list \<Rightarrow> time \<Rightarrow> notification \<Rightarrow> user \<Rightarrow> bool" where
  "weekly_summary_row logs hs now n u =
     (n_user_id n = user_id u \<and> n_type n = SYSTEM_MESSAGE
      \<and> title n = ''Weekly Summary '' @ summary_emoji (week_total logs (user_id u) now)
      \<and> action_url n = Some ''/stats'' \<and> related_id n = None \<and> is_read n = False
      \<and> (\<exists>tops. ranked (week_entries logs hs (user_id u) now) tops
                \<and> content n = summary_text (week_total logs (user_id u) now) tops))"

definition is_report_error :: "string \<Rightarrow> bool" where
  "is_report_error line =
     (take (length ''Error generating weekly report for user '') line
        = ''Error generating weekly report for user '')"

definition report_errors :: "db \<Rightarrow> nat" where
  "report_errors d = length (filter is_report_error (console_errors d))"

text \<open>Two users; the first completed Run once and Read twice in the last week.\<close>

definition digest_db :: db where
  "digest_db = sample_db
     \<lparr>users := [sample_user, sample_user\<lparr>user_id := 2, user_name := ''bob''\<rparr>],
      habits := [sample_habit, sample_habit\<lparr>habit_id := 2, name := ''Read''\<rparr>],
      habitLogs :=
        [\<lparr>log_habit_id = 1, log_user_id = 1, log_completed = True, completed_at = 100\<rparr>,
         \<lparr>log_habit_id = 2, log_user_id = 1, log_completed = True, completed_at = 200\<rparr>,
         \<lparr>log_habit_id = 2, log_user_id = 1, log_completed = True, completed_at = 300\<rparr>]\<rparr>"

section \<open>Basic facts\<close>

lemma await_ok: "faults e (ticks d) = None \<Longrightarrow> await e f d = (Inr (fst (f d)), tick (snd (f d)))"
  by (simp add: await_def split: prod.splits)

lemma await_fail: "faults e (ticks d) = Some err \<Longrightarrow> await e f d = (Inl err, tick d)"
  by (simp add: await_def)

lemma ticks_tick [simp]: "ticks (tick d) = Suc (ticks d)"
  by (simp add: tick_def)

lemma tick_fields [simp]:
  "users (tick d) = users d" "habits (tick d) = habits d" "habitLogs (tick d) = habitLogs d"
  "scheduledReminders (tick d) = scheduledReminders d" "notifications (tick d) = notifications d"
  "pushes (tick d) = pushes d" "console_errors (tick d) = console_errors d"
  by (simp_all add: tick_def)

lemma console_error_fields [simp]:
  "users (console_error l d) = users d" "habits (console_error l d) = habits d"
  "habitLogs (console_error l d) = habitLogs d"
  "scheduledReminders (console_error l d) = scheduledReminders d"
  "notifications (console_error l d) = notifications d"
  "pushes (console_error l d) = pushes d" "console_errors (console_error l d) = console_errors d @ [l]"
  "ticks (console_error l d) = ticks d"
  by (simp_all add: console_error_def)

lemma createNotification_create_fails:
  assumes "faults e (ticks d) = Some err"
  shows "createNotification e dat d =
           (None, console_error (''Error creating notification: '' @ message err) (tick d))"
  using assms
  by (simp add: createNotification_def createNotification_try_def and_then_def
      notification_create_def await_fail)

lemma createNotification_push_fails:
  assumes "faults e (ticks d) = None" "faults e (Suc (ticks d)) = Some err"
  shows "createNotification e dat d =
           (None, console_error (''Error creating notification: '' @ message err)
                    (tick (tick (d\<lparr>notifications := notifications d @ [next_row d dat]\<rparr>))))"
  using assms
  by (simp add: createNotification_def createNotification_try_def and_then_def
      notification_create_def sendToUser_def await_ok await_fail Let_def next_row_def)

lemma createNotification_ok:
  assumes "faults e (ticks d) = None" "faults e (Suc (ticks d)) = None"
  shows "createNotification e dat d =
           (Some (next_row d dat),
            tick ((tick (d\<lparr>notifications := notifications d @ [next_row d dat]\<rparr>))
                   \<lparr>pushes := pushes d @ [push_of dat (next_row d dat)]\<rparr>))"
  using assms
  by (simp add: createNotification_def createNotification_try_def and_then_def
      notification_create_def sendToUser_def await_ok await_fail Let_def next_row_def)

section \<open>createNotification\<close>

text \<open>
  C9. \<open>createNotification\<close> returns to its caller on every input; its result type has no
  error. When the row cannot be written it returns \<open>undefined\<close>, logs the error, and nothing
  is stored or pushed. When the row is written and the push is rejected it returns
  \<open>undefined\<close> and logs the error, and the row stays in the table. When both calls succeed
  it returns the row.
\<close>

theorem createNotification_never_throws:
  "(faults e (ticks d) = Some err \<longrightarrow>
      fst (createNotification e dat d) = None
      \<and> notifications (snd (createNotification e dat d)) = notifications d
      \<and> pushes (snd (createNotification e dat d)) = pushes d
      \<and> console_errors (snd (createNotification e dat d))
          = console_errors d @ [''Error creating notification: '' @ message err])
   \<and> (faults e (ticks d) = None \<and> faults e (Suc (ticks d)) = Some err \<longrightarrow>
      fst (createNotification e dat d) = None
      \<and> notifications (snd (createNotification e dat d)) = notifications d @ [next_row d dat]
      \<and> pushes (snd (createNotification e dat d)) = pushes d
      \<and> console_errors (snd (createNotification e dat d))
          = console_errors d @ [''Error creating notification: '' @ message err])
   \<and> (faults e (ticks d) = None \<and> faults e (Suc (ticks d)) = None \<longrightarrow>
      fst (createNotification e dat d) = Some (next_row d dat)
      \<and> notifications (snd (createNotification e dat d)) = notifications d @ [next_row d dat]
      \<and> pushes (snd (createNotification e dat d)) = pushes d @ [push_of dat (next_row d dat)]
      \<and> console_errors (snd (createNotification e dat d)) = console_errors d)"
proof (intro conjI impI)
  assume "faults e (ticks d) = Some err"
  from createNotification_create_fails [OF this, of dat]
  show "fst (createNotification e dat d) = None"
    and "notifications (snd (createNotification e dat d)) = notifications d"
    and "pushes (snd (createNotification e dat d)) = pushes d"
    and "console_errors (snd (createNotification e dat d))
          = console_errors d @ [''Error creating notification: '' @ message err]"
    by simp_all
next
  assume a: "faults e (ticks d) = None \<and> faults e (Suc (ticks d)) = Some err"
  then have "createNotification e dat d =
           (None, console_error (''Error creating notification: '' @ message err)
                    (tick (tick (d\<lparr>notifications := notifications d @ [next_row d dat]\<rparr>))))"
    by (simp add: createNotification_push_fails)
  then show "fst (createNotification e dat d) = None"
    and "notifications (snd (createNotification e dat d)) = notifications d @ [next_row d dat]"
    and "pushes (snd (createNotification e dat d)) = pushes d"
    and "console_errors (snd (createNotification e dat d))
          = console_errors d @ [''Error creating notification: '' @ message err]"
    by simp_all
next
  assume a: "faults e (ticks d) = None \<and> faults e (Suc (ticks d)) = None"
  then have "createNotification e dat d =
           (Some (next_row d dat),
            tick ((tick (d\<lparr>notifications := notifications d @ [next_row d dat]\<rparr>))
                   \<lparr>pushes := pushes d @ [push_of dat (next_row d dat)]\<rparr>))"
    by (simp add: createNotification_ok)
  then show "fst (createNotification e dat d) = Some (next_row d dat)"
    and "notifications (snd (createNotification e dat d)) = notifications d @ [next_row d dat]"
    and "pushes (snd (createNotification e dat d)) = pushes d @ [push_of dat (next_row d dat)]"
    and "console_errors (snd (createNotification e dat d)) = console_errors d"
    by simp_all
qed

theorem createNotification_never_throws_witness:
  "fst (createNotification (sample_env (fail_at 0)) (welcome_notification sample_user) sample_db) = None
   \<and> notifications (snd (createNotification (sample_env (fail_at 0)) (welcome_notification sample_user) sample_db)) = []
   \<and> fst (createNotification (sample_env (fail_at 1)) (welcome_notification sample_user) sample_db) = None
   \<and> notifications (snd (createNotification (sample_env (fail_at 1)) (welcome_notification sample_user) sample_db))
        = [notification_row 1 (welcome_notification sample_user)]
   \<and> pushes (snd (createNotification (sample_env (fail_at 1)) (welcome_notification sample_user) sample_db)) = []
   \<and> fst (createNotification (sample_env (fail_at 5)) (welcome_notification sample_user) sample_db)
        = Some (notification_row 1 (welcome_notification sample_user))"
  using createNotification_never_throws
          [of "sample_env (fail_at 0)" sample_db "Error ''connection lost'' ''Error: connection lost''"
              "welcome_notification sample_user"]
        createNotification_never_throws
          [of "sample_env (fail_at 1)" sample_db "Error ''connection lost'' ''Error: connection lost''"
              "welcome_notification sample_user"]
        createNotification_never_throws
          [of "sample_env (fail_at 5)" sample_db "Error ''connection lost'' ''Error: connection lost''"
              "welcome_notification sample_user"]
  by (simp add: sample_env_def fail_at_def sample_db_def next_row_def new_id_def)

section \<open>The job boundary\<close>

lemma cron_job_frame:
  "cron_job jobName body now finish d =
     (case body d of
        (Inr summary, d') \<Rightarrow>
          ([\<lparr>timestamp = now, job = jobName, status = started, details = []\<rparr>,
            \<lparr>timestamp = finish, job = jobName, status = completed,
             details = (''duration'', JStr (show_int (finish - now) @ ''ms'')) # summary\<rparr>], d')
      | (Inl err, d') \<Rightarrow>
          ([\<lparr>timestamp = now, job = jobName, status = started, details = []\<rparr>,
            \<lparr>timestamp = finish, job = jobName, status = failed,
             details = [(''error'', JStr (message err)), (''stack'', JStr (stack err))]\<rparr>], d'))"
  by (simp add: cron_job_def logJobStatus_def split: prod.splits sum.splits)

lemma schedule_entry:
  assumes "(expr, jobName, body, run) \<in> set (schedule e now finish)"
  shows "run = cron_job jobName body now finish"
  using assms
  unfolding schedule_def daily_streak_update_def streak_milestone_check_def
    streak_warning_check_def process_reminders_def streak_preservation_reminder_def
    prepare_next_day_reminders_def weekly_habit_review_def daily_goal_check_def
    new_user_welcome_def
  by auto

lemma handler_entry:
  assumes "run \<in> set (handlers e now finish)"
  shows "\<exists>jobName body. run = cron_job jobName body now finish"
proof -
  from assms obtain expr jobName body where "(expr, jobName, body, run) \<in> set (schedule e now finish)"
    by (auto simp add: handlers_def)
  from schedule_entry [OF this] show ?thesis by blast
qed

lemma cron_job_statuses:
  "map status (fst (cron_job jobName body now finish d))
     = [started, (case fst (body d) of Inr _ \<Rightarrow> completed | Inl _ \<Rightarrow> failed)]"
  by (simp add: cron_job_frame split: prod.splits sum.splits)

lemma invoke_all_statuses:
  assumes "set runs \<subseteq> set (handlers e now finish)"
  shows "length (fst (invoke_all runs d)) = length runs
         \<and> list_all (\<lambda>events. map status events = [started, completed]
                              \<or> map status events = [started, failed])
             (fst (invoke_all runs d))"
  using assms
proof (induction runs arbitrary: d)
  case Nil
  then show ?case by simp
next
  case (Cons run runs)
  from Cons.prems have "run \<in> set (handlers e now finish)" by simp
  from handler_entry [OF this] obtain jobName body where run: "run = cron_job jobName body now finish"
    by blast
  have one: "map status (fst (run d)) = [started, completed] \<or> map status (fst (run d)) = [started, failed]"
    unfolding run cron_job_statuses by (simp split: sum.splits)
  from Cons.prems have "set runs \<subseteq> set (handlers e now finish)" by simp
  from Cons.IH [OF this, of "snd (run d)"] one show ?case
    by (simp add: split_beta)
qed

section \<open>process-reminders\<close>

lemma reminder_update_ok:
  assumes "faults e (ticks d) = None" "rid \<in> set (map scheduled_reminder_id (scheduledReminders d))"
  shows "reminder_update e rid f d =
           (Inr (), tick (d\<lparr>scheduledReminders := update_row rid f (scheduledReminders d)\<rparr>))"
  using assms by (simp add: reminder_update_def)

lemma reminder_update_fail:
  assumes "faults e (ticks d) = Some err"
  shows "reminder_update e rid f d = (Inl err, tick d)"
  using assms by (simp add: reminder_update_def)

lemma ids_update_row [simp]:
  "(\<And>r. scheduled_reminder_id (f r) = scheduled_reminder_id r) \<Longrightarrow>
   map scheduled_reminder_id (update_row rid f rs) = map scheduled_reminder_id rs"
  by (induction rs) (simp_all add: update_row_def)

lemma mark_ids [simp]:
  "scheduled_reminder_id (mark_skipped now reason r) = scheduled_reminder_id r"
  "scheduled_reminder_id (mark_sent now r) = scheduled_reminder_id r"
  "scheduled_reminder_id (mark_failed reason r) = scheduled_reminder_id r"
  by (simp_all add: mark_skipped_def mark_sent_def mark_failed_def)

lemma call_completed_ok:
  "faults e (ticks d) = None \<Longrightarrow>
   call_isHabitCompletedForDate e hid uid t d = (Inr (isHabitCompletedForDate e hid uid t), tick d)"
  by (simp add: call_isHabitCompletedForDate_def await_ok)

lemma dispatch_skip_preferences:
  assumes "\<not> prefersNotifications u \<or> onVacation u"
    and "faults e (ticks d) = None"
    and "scheduled_reminder_id r \<in> set (map scheduled_reminder_id (scheduledReminders d))"
  shows "dispatch_one e now (r, rh, Some u) res d =
           (Inr (res\<lparr>skipped := skipped res + 1\<rparr>),
            tick (d\<lparr>scheduledReminders :=
                     update_row (scheduled_reminder_id r) (mark_skipped now ''User preferences or status'')
                       (scheduledReminders d)\<rparr>))"
  using assms
  by (auto simp add: dispatch_one_def dispatch_try_def and_then_def reminder_update_ok)

lemma dispatch_skip_completed:
  assumes "prefersNotifications u" "\<not> onVacation u"
    and "isHabitCompletedForDate e (r_habit_id r) (r_user_id r) now"
    and "faults e (ticks d) = None" "faults e (Suc (ticks d)) = None"
    and "scheduled_reminder_id r \<in> set (map scheduled_reminder_id (scheduledReminders d))"
  shows "dispatch_one e now (r, rh, Some u) res d =
           (Inr (res\<lparr>skipped := skipped res + 1\<rparr>),
            tick ((tick d)\<lparr>scheduledReminders :=
                     update_row (scheduled_reminder_id r) (mark_skipped now ''Already completed'')
                       (scheduledReminders d)\<rparr>))"
  using assms
  by (simp add: dispatch_one_def dispatch_try_def and_then_def reminder_update_ok call_completed_ok)

lemma dispatch_send:
  assumes "prefersNotifications u" "\<not> onVacation u"
    and "\<not> isHabitCompletedForDate e (r_habit_id r) (r_user_id r) now"
    and "faults e (ticks d) = None" "faults e (Suc (ticks d)) = None"
    and "faults e (Suc (Suc (ticks d))) = None" "faults e (Suc (Suc (Suc (ticks d)))) = None"
    and "scheduled_reminder_id r \<in> set (map scheduled_reminder_id (scheduledReminders d))"
  shows "fst (dispatch_one e now (r, rh, Some u) res d) = Inr (res\<lparr>sent := sent res + 1\<rparr>)"
    and "scheduledReminders (snd (dispatch_one e now (r, rh, Some u) res d)) =
           update_row (scheduled_reminder_id r)
             (mark_sent now) (scheduledReminders d)"
    and "notifications (snd (dispatch_one e now (r, rh, Some u) res d)) =
           notifications d @ [next_row d (reminder_notification r rh)]"
    and "pushes (snd (dispatch_one e now (r, rh, Some u) res d)) =
           pushes d @ [push_of (reminder_notification r rh) (next_row d (reminder_notification r rh))]"
  using assms
  by (simp_all add: dispatch_one_def dispatch_try_def and_then_def reminder_update_ok call_completed_ok
      createNotification_ok next_row_def)

lemma dispatch_catch_marks_failed:
  assumes "dispatch_try e now x res d = (Inl err, d1)"
    and "faults e (ticks d1) = None"
    and "scheduled_reminder_id (fst x) \<in> set (map scheduled_reminder_id (scheduledReminders d1))"
  shows "fst (dispatch_one e now x res d) = Inr (res\<lparr>failed_count := failed_count res + 1\<rparr>)"
    and "scheduledReminders (snd (dispatch_one e now x res d)) =
           update_row (scheduled_reminder_id (fst x)) (mark_failed (message err)) (scheduledReminders d1)"
  using assms
  by (simp_all add: dispatch_one_def and_then_def reminder_update_def console_error_def)

lemma dispatch_catch_rethrows:
  assumes "dispatch_try e now x res d = (Inl err, d1)"
    and "faults e (ticks d1) = Some err2"
  shows "fst (dispatch_one e now x res d) = Inl err2"
    and "scheduledReminders (snd (dispatch_one e now x res d)) = scheduledReminders d1"
    and "dispatch_loop e now (x # xs) res d = dispatch_one e now x res d"
  using assms
  by (simp_all add: dispatch_one_def and_then_def reminder_update_def console_error_def)

lemma dispatch_try_counts:
  assumes "dispatch_try e now x res d = (Inr res', d')"
  shows "handled res' = Suc (handled res) \<and> processed res' = processed res"
  using assms
  by (auto simp add: dispatch_try_def and_then_def handled_def
      split: prod.splits option.splits if_splits sum.splits)

lemma dispatch_one_counts:
  assumes "dispatch_one e now x res d = (Inr res', d')"
  shows "handled res' = Suc (handled res) \<and> processed res' = processed res"
  using assms dispatch_try_counts [of e now x res d]
  by (auto simp add: dispatch_one_def and_then_def handled_def
      split: prod.splits sum.splits)

lemma dispatch_loop_counts:
  "dispatch_loop e now xs res d = (Inr res', d') \<Longrightarrow>
   handled res' = handled res + length xs \<and> processed res' = processed res"
proof (induction xs arbitrary: res d)
  case Nil
  then show ?case by simp
next
  case (Cons x xs)
  then obtain res1 d1 where one: "dispatch_one e now x res d = (Inr res1, d1)"
    and rest: "dispatch_loop e now xs res1 d1 = (Inr res', d')"
    by (auto split: prod.splits sum.splits)
  from dispatch_one_counts [OF one] Cons.IH [OF rest] show ?case by simp
qed

lemma dispatch_counts:
  assumes "dispatch e now d = (Inr res, d')"
  shows "processed res = length (filter (is_due now) (scheduledReminders d))"
    and "processed res = sent res + skipped res + failed_count res"
proof -
  from assms obtain due d1 where q: "find_due_reminders e now d = (Inr due, d1)"
    and l: "dispatch_loop e now due
              \<lparr>processed = length due, sent = 0, skipped = 0, failed_count = 0\<rparr> d1 = (Inr res, d')"
    by (auto simp add: dispatch_def and_then_def split: prod.splits sum.splits)
  from q have len: "length due = length (filter (is_due now) (scheduledReminders d))"
    by (auto simp add: find_due_reminders_def await_def split: option.splits)
  from dispatch_loop_counts [OF l] have "handled res = length due" "processed res = length due"
    by (simp_all add: handled_def)
  with len show "processed res = length (filter (is_due now) (scheduledReminders d))"
    and "processed res = sent res + skipped res + failed_count res"
    by (simp_all add: handled_def)
qed

text \<open>
  C1. The \<open>catch\<close> block writes \<open>send_status = FAILED\<close> but leaves \<open>is_sent = false\<close>, so
  the row is still due. In the first run below the push is rejected and the reminder is
  marked FAILED; the next run selects the same row, sends it, overwrites the status with
  SENT and stores a second notification.
\<close>

theorem failed_reminder_is_dispatched_again:
  "map send_status (scheduledReminders (snd (process_reminders (sample_env (fail_at 3)) 200 205 sample_db)))
     = [Some FAILED]
   \<and> map (is_due 1000) (scheduledReminders (snd (process_reminders (sample_env (fail_at 3)) 200 205 sample_db)))
     = [True]
   \<and> map send_status (scheduledReminders (snd (process_reminders (sample_env (fail_at 3)) 1000 1005
        (snd (process_reminders (sample_env (fail_at 3)) 200 205 sample_db)))))
     = [Some SENT]
   \<and> length (notifications (snd (process_reminders (sample_env (fail_at 3)) 1000 1005
        (snd (process_reminders (sample_env (fail_at 3)) 200 205 sample_db))))) = 2"
  by code_simp

text \<open>
  C2, as stated, at a store that is lost after the query: the first reminder throws, the
  write that should mark it FAILED is rejected too, the run ends with \<open>failed\<close>, and
  neither reminder is marked.
\<close>

theorem failed_write_aborts_the_batch:
  "map status (fst (process_reminders (sample_env (fail_from 1)) 200 205 two_due_db)) = [started, failed]
   \<and> map send_status (scheduledReminders (snd (process_reminders (sample_env (fail_from 1)) 200 205 two_due_db)))
     = [None, None]
   \<and> map is_sent (scheduledReminders (snd (process_reminders (sample_env (fail_from 1)) 200 205 two_due_db)))
     = [False, False]"
  by code_simp

section \<open>Notifications added by a handler\<close>

lemma cron_job_db: "snd (cron_job jobName body now finish d) = snd (body d)"
  by (simp add: cron_job_def split: prod.splits sum.splits)

lemma createNotification_frame [simp]:
  "users (snd (createNotification e dat d)) = users d"
  "habits (snd (createNotification e dat d)) = habits d"
  "habitLogs (snd (createNotification e dat d)) = habitLogs d"
  "scheduledReminders (snd (createNotification e dat d)) = scheduledReminders d"
  by (cases "faults e (ticks d)"; cases "faults e (Suc (ticks d))";
      simp add: createNotification_create_fails createNotification_push_fails createNotification_ok)+

lemma createNotification_rows:
  "notifications (snd (createNotification e dat d)) = notifications d
   \<or> notifications (snd (createNotification e dat d)) = notifications d @ [next_row d dat]"
  by (cases "faults e (ticks d)"; cases "faults e (Suc (ticks d))";
      simp add: createNotification_create_fails createNotification_push_fails createNotification_ok)

lemma createNotification_no_faults:
  assumes "\<forall>n. faults e n = None"
  shows "notifications (snd (createNotification e dat d)) = notifications d @ [next_row d dat]"
  using assms by (simp add: createNotification_ok)

section \<open>streak-milestone-check\<close>

lemma milestones_set [simp]: "set milestones = milestone_set"
  by (auto simp add: milestones_def milestone_set_def)

lemma milestone_loop_count:
  "fst (milestone_loop e hs n d) =
     n + length (filter (\<lambda>h. prefersNotifications (habit_user h) \<and> streak h \<noteq> []
                    \<and> current_streak (hd (streak h)) > 0
                    \<and> current_streak (hd (streak h)) \<in> milestone_set) hs)"
  by (induction hs arbitrary: n d) (auto simp add: Let_def split: prod.splits)








section \<open>streak-warning-check\<close>

lemma await_no_faults:
  "\<forall>n. faults e n = None \<Longrightarrow> await e f d = (Inr (fst (f d)), tick (snd (f d)))"
  by (simp add: await_ok)

lemma await_db:
  "snd (await e f d) = (case faults e (ticks d) of Some err \<Rightarrow> tick d | None \<Rightarrow> tick (snd (f d)))"
  by (simp add: await_def split: option.splits prod.splits)

lemma createNotification_no_faults_eq:
  assumes "\<forall>n. faults e n = None"
  shows "createNotification e dat d =
           (Some (next_row d dat),
            tick ((tick (d\<lparr>notifications := notifications d @ [next_row d dat]\<rparr>))
                   \<lparr>pushes := pushes d @ [push_of dat (next_row d dat)]\<rparr>))"
  using assms by (simp add: createNotification_ok)

lemma reminder_create_db:
  "scheduledReminders (snd (reminder_create e hid uid t ty msg meta d)) = scheduledReminders d
   \<or> scheduledReminders (snd (reminder_create e hid uid t ty msg meta d)) =
        scheduledReminders d @ [reminder_row (new_id (map scheduled_reminder_id (scheduledReminders d)))
                                  hid uid t ty msg meta]"
  by (simp add: reminder_create_def await_def Let_def split: option.splits)

lemma reminder_create_frame [simp]:
  "notifications (snd (reminder_create e hid uid t ty msg meta d)) = notifications d"
  "users (snd (reminder_create e hid uid t ty msg meta d)) = users d"
  "habits (snd (reminder_create e hid uid t ty msg meta d)) = habits d"
  "habitLogs (snd (reminder_create e hid uid t ty msg meta d)) = habitLogs d"
  by (simp_all add: reminder_create_def await_def Let_def split: option.splits)

lemma reminder_create_no_faults:
  assumes "\<forall>n. faults e n = None"
  shows "reminder_create e hid uid t ty msg meta d =
           (Inr (reminder_row (new_id (map scheduled_reminder_id (scheduledReminders d))) hid uid t ty msg meta),
            tick (d\<lparr>scheduledReminders := scheduledReminders d @
                    [reminder_row (new_id (map scheduled_reminder_id (scheduledReminders d)))
                       hid uid t ty msg meta]\<rparr>))"
  using assms by (simp add: reminder_create_def await_no_faults Let_def)

lemma csw_notifications:
  "notifications (createStreakWarningNotification e now uid nm cs hid d) = notifications d
   \<or> notifications (createStreakWarningNotification e now uid nm cs hid d)
       = notifications d @ [next_row d (warning_notification uid nm cs hid)]"
proof -
  let ?c = "createNotification e (warning_notification uid nm cs hid) d"
  have "notifications (createStreakWarningNotification e now uid nm cs hid d) = notifications (snd ?c)"
    by (simp add: createStreakWarningNotification_def split: prod.splits sum.splits)
       (metis reminder_create_frame(1) snd_conv)
  with createNotification_rows [of e "warning_notification uid nm cs hid" d] show ?thesis
    by auto
qed

lemma csw_reminders:
  "scheduledReminders (createStreakWarningNotification e now uid nm cs hid d) = scheduledReminders d
   \<or> (now < at_20_hours e now
       \<and> scheduledReminders (createStreakWarningNotification e now uid nm cs hid d)
          = scheduledReminders d @
              [reminder_row (new_id (map scheduled_reminder_id (scheduledReminders d))) hid uid
                 (at_20_hours e now) ''STREAK_WARNING'' (warning_message nm cs) (warning_metadata nm cs)])"
proof -
  let ?c = "createNotification e (warning_notification uid nm cs hid) d"
  let ?rc = "reminder_create e hid uid (at_20_hours e now) ''STREAK_WARNING''
               (warning_message nm cs) (warning_metadata nm cs) (snd ?c)"
  have f: "scheduledReminders (snd ?c) = scheduledReminders d"
    by simp
  show ?thesis
  proof (cases "now < at_20_hours e now")
    case False
    then show ?thesis
      by (simp add: createStreakWarningNotification_def split: prod.splits)
         (metis f snd_conv)
  next
    case True
    then have "scheduledReminders (createStreakWarningNotification e now uid nm cs hid d)
                 = scheduledReminders (snd ?rc)"
      by (auto simp add: createStreakWarningNotification_def split: prod.splits sum.splits)
    with reminder_create_db [of e hid uid "at_20_hours e now" "''STREAK_WARNING''"
           "warning_message nm cs" "warning_metadata nm cs" "snd ?c"] f True
    show ?thesis by auto
  qed
qed

lemma call_scheduled_cases:
  "call_isHabitScheduledForDate e h t d = (Inr (isHabitScheduledForDate e h t), tick d)
   \<or> (\<exists>err. call_isHabitScheduledForDate e h t d = (Inl err, tick d))"
  by (simp add: call_isHabitScheduledForDate_def await_def split: option.splits)

lemma call_completed_cases:
  "call_isHabitCompletedForDate e hid uid t d = (Inr (isHabitCompletedForDate e hid uid t), tick d)
   \<or> (\<exists>err. call_isHabitCompletedForDate e hid uid t d = (Inl err, tick d))"
  by (simp add: call_isHabitCompletedForDate_def await_def split: option.splits)

lemma call_quiet_cases:
  "call_isInQuietHours e uid t d = (Inr (isInQuietHours e uid t), tick d)
   \<or> (\<exists>err. call_isInQuietHours e uid t d = (Inl err, tick d))"
  by (simp add: call_isInQuietHours_def await_def split: option.splits)

lemma warning_one_cases:
  "snd (warning_one e now h n d) = d
   \<or> snd (warning_one e now h n d) = tick d
   \<or> snd (warning_one e now h n d) = tick (tick d)
   \<or> (warning_due e now h
       \<and> warning_one e now h n d =
           (Inr (n + 1),
            createStreakWarningNotification e now (habit_user_id h) (name h)
              (current_streak (hd (streak h))) (habit_id h) (tick (tick d))))"
  by (simp add: warning_one_def and_then_def call_isHabitScheduledForDate_def
      call_isHabitCompletedForDate_def await_def warning_due_def split: option.splits)

lemma warning_one_rows:
  "\<exists>rows rs. notifications (snd (warning_one e now h n d)) = notifications d @ rows
      \<and> scheduledReminders (snd (warning_one e now h n d)) = scheduledReminders d @ rs
      \<and> (\<forall>row \<in> set rows. warning_due e now h \<and> warning_row_of row h)
      \<and> (\<forall>r \<in> set rs. warning_due e now h \<and> warning_reminder_of e now r h)"
proof -
  let ?d2 = "tick (tick d)"
  let ?c = "createStreakWarningNotification e now (habit_user_id h) (name h)
              (current_streak (hd (streak h))) (habit_id h) ?d2"
  from warning_one_cases [of e now h n d]
  consider (same) "notifications (snd (warning_one e now h n d)) = notifications d"
                  "scheduledReminders (snd (warning_one e now h n d)) = scheduledReminders d"
    | (warn) "warning_due e now h" "snd (warning_one e now h n d) = ?c"
    by (elim disjE conjE) simp_all
  then show ?thesis
  proof cases
    case same
    then show ?thesis by simp
  next
    case warn
    have "\<exists>rows. notifications ?c = notifications d @ rows \<and> (\<forall>row \<in> set rows. warning_row_of row h)"
      using csw_notifications [of e now "habit_user_id h" "name h" "current_streak (hd (streak h))" "habit_id h" ?d2]
    proof
      assume "notifications ?c = notifications ?d2"
      then show ?thesis by (intro exI [where x = "[]"]) simp
    next
      assume "notifications ?c = notifications ?d2 @
                [next_row ?d2 (warning_notification (habit_user_id h) (name h)
                                 (current_streak (hd (streak h))) (habit_id h))]"
      then show ?thesis
        by (intro exI [where x = "[next_row ?d2 (warning_notification (habit_user_id h) (name h)
                                 (current_streak (hd (streak h))) (habit_id h))]"])
           (auto simp add: warning_row_of_def next_row_def)
    qed
    then obtain rows where n: "notifications ?c = notifications d @ rows"
      and nr: "\<forall>row \<in> set rows. warning_row_of row h"
      by blast
    have "\<exists>rs. scheduledReminders ?c = scheduledReminders d @ rs
            \<and> (\<forall>r \<in> set rs. warning_reminder_of e now r h)"
      using csw_reminders [of e now "habit_user_id h" "name h" "current_streak (hd (streak h))" "habit_id h" ?d2]
    proof
      assume "scheduledReminders ?c = scheduledReminders ?d2"
      then show ?thesis by (intro exI [where x = "[]"]) simp
    next
      assume a: "now < at_20_hours e now \<and> scheduledReminders ?c = scheduledReminders ?d2 @
              [reminder_row (new_id (map scheduled_reminder_id (scheduledReminders ?d2))) (habit_id h)
                 (habit_user_id h) (at_20_hours e now) ''STREAK_WARNING''
                 (warning_message (name h) (current_streak (hd (streak h))))
                 (warning_metadata (name h) (current_streak (hd (streak h))))]"
      then show ?thesis
        by (intro exI [where x = "[reminder_row (new_id (map scheduled_reminder_id (scheduledReminders ?d2)))
                 (habit_id h) (habit_user_id h) (at_20_hours e now) ''STREAK_WARNING''
                 (warning_message (name h) (current_streak (hd (streak h))))
                 (warning_metadata (name h) (current_streak (hd (streak h))))]"])
           (auto simp add: warning_reminder_of_def)
    qed
    then obtain rs where r: "scheduledReminders ?c = scheduledReminders d @ rs"
      and rr: "\<forall>r \<in> set rs. warning_reminder_of e now r h"
      by blast
    from warn n nr r rr show ?thesis by auto
  qed
qed

lemma warning_loop_rows:
  "\<exists>rows rs. notifications (snd (warning_loop e now hs n d)) = notifications d @ rows
      \<and> scheduledReminders (snd (warning_loop e now hs n d)) = scheduledReminders d @ rs
      \<and> (\<forall>row \<in> set rows. \<exists>h \<in> set hs. warning_due e now h \<and> warning_row_of row h)
      \<and> (\<forall>r \<in> set rs. \<exists>h \<in> set hs. warning_due e now h \<and> warning_reminder_of e now r h)"
proof (induction hs arbitrary: n d)
  case Nil
  then show ?case by simp
next
  case (Cons h hs)
  from warning_one_rows [of e now h n d] obtain rows rs where
    one: "notifications (snd (warning_one e now h n d)) = notifications d @ rows"
         "scheduledReminders (snd (warning_one e now h n d)) = scheduledReminders d @ rs"
         "\<forall>row \<in> set rows. warning_due e now h \<and> warning_row_of row h"
         "\<forall>r \<in> set rs. warning_due e now h \<and> warning_reminder_of e now r h"
    by blast
  show ?case
  proof (cases "warning_one e now h n d")
    case (Pair res d1)
    show ?thesis
    proof (cases res)
      case (Inl err)
      with Pair have "warning_loop e now (h # hs) n d = (Inl err, d1)" by simp
      with one Pair show ?thesis
        by (intro exI [where x = rows] exI [where x = rs]) auto
    next
      case (Inr n1)
      with Pair have step: "warning_loop e now (h # hs) n d = warning_loop e now hs n1 d1" by simp
      from Cons.IH [of n1 d1] obtain rows' rs' where
        rest: "notifications (snd (warning_loop e now hs n1 d1)) = notifications d1 @ rows'"
              "scheduledReminders (snd (warning_loop e now hs n1 d1)) = scheduledReminders d1 @ rs'"
              "\<forall>row \<in> set rows'. \<exists>h \<in> set hs. warning_due e now h \<and> warning_row_of row h"
              "\<forall>r \<in> set rs'. \<exists>h \<in> set hs. warning_due e now h \<and> warning_reminder_of e now r h"
        by blast
      from one Pair rest step show ?thesis
        by (intro exI [where x = "rows @ rows'"] exI [where x = "rs @ rs'"]) auto
    qed
  qed
qed

lemma csw_no_faults:
  assumes nf: "\<forall>n. faults e n = None"
  shows "notifications (createStreakWarningNotification e now uid nm cs hid d)
           = notifications d @ [next_row d (warning_notification uid nm cs hid)]"
    and "scheduledReminders (createStreakWarningNotification e now uid nm cs hid d)
           = scheduledReminders d @
              (if now < at_20_hours e now
               then [reminder_row (new_id (map scheduled_reminder_id (scheduledReminders d))) hid uid
                       (at_20_hours e now) ''STREAK_WARNING'' (warning_message nm cs)
                       (warning_metadata nm cs)]
               else [])"
  by (simp_all add: createStreakWarningNotification_def createNotification_no_faults_eq [OF nf]
      reminder_create_no_faults [OF nf])

lemma warning_one_no_faults:
  assumes nf: "\<forall>n. faults e n = None"
  shows "\<exists>rows rs. fst (warning_one e now h n d) = Inr (n + length rows)
      \<and> notifications (snd (warning_one e now h n d)) = notifications d @ rows
      \<and> scheduledReminders (snd (warning_one e now h n d)) = scheduledReminders d @ rs
      \<and> list_all2 warning_row_of rows (filter (warning_due e now) [h])
      \<and> list_all2 (warning_reminder_of e now) rs
           (if now < at_20_hours e now then filter (warning_due e now) [h] else [])"
proof (cases "warning_due e now h")
  case False
  then have "warning_one e now h n d = (Inr n, d) \<or> warning_one e now h n d = (Inr n, tick d)
             \<or> warning_one e now h n d = (Inr n, tick (tick d))"
    using nf
    by (auto simp add: warning_one_def and_then_def call_isHabitScheduledForDate_def
        call_isHabitCompletedForDate_def await_no_faults warning_due_def)
  with False show ?thesis
    by (intro exI [where x = "[]"]) auto
next
  case True
  let ?d2 = "tick (tick d)"
  let ?dat = "warning_notification (habit_user_id h) (name h) (current_streak (hd (streak h))) (habit_id h)"
  let ?c = "createStreakWarningNotification e now (habit_user_id h) (name h)
              (current_streak (hd (streak h))) (habit_id h) ?d2"
  let ?r = "reminder_row (new_id (map scheduled_reminder_id (scheduledReminders ?d2))) (habit_id h)
              (habit_user_id h) (at_20_hours e now) ''STREAK_WARNING''
              (warning_message (name h) (current_streak (hd (streak h))))
              (warning_metadata (name h) (current_streak (hd (streak h))))"
  from True nf have w: "warning_one e now h n d = (Inr (n + 1), ?c)"
    by (simp add: warning_one_def and_then_def call_isHabitScheduledForDate_def
        call_isHabitCompletedForDate_def await_no_faults warning_due_def)
  have p: "warning_row_of (next_row ?d2 ?dat) h" "warning_reminder_of e now ?r h"
    by (auto simp add: warning_row_of_def warning_reminder_of_def next_row_def)
  from csw_no_faults [OF nf, of now "habit_user_id h" "name h" "current_streak (hd (streak h))"
                        "habit_id h" ?d2]
  have n: "notifications ?c = notifications d @ [next_row ?d2 ?dat]"
    and r: "scheduledReminders ?c = scheduledReminders d @ (if now < at_20_hours e now then [?r] else [])"
    by simp_all
  from True w n r p show ?thesis
    by (intro exI [where x = "[next_row ?d2 ?dat]"]
              exI [where x = "if now < at_20_hours e now then [?r] else []"]) simp
qed

lemma warning_loop_no_faults:
  assumes nf: "\<forall>n. faults e n = None"
  shows "\<exists>rows rs. fst (warning_loop e now hs n d) = Inr (n + length rows)
      \<and> notifications (snd (warning_loop e now hs n d)) = notifications d @ rows
      \<and> scheduledReminders (snd (warning_loop e now hs n d)) = scheduledReminders d @ rs
      \<and> list_all2 warning_row_of rows (filter (warning_due e now) hs)
      \<and> list_all2 (warning_reminder_of e now) rs
           (if now < at_20_hours e now then filter (warning_due e now) hs else [])"
proof (induction hs arbitrary: n d)
  case Nil
  then show ?case by simp
next
  case (Cons h hs)
  from warning_one_no_faults [OF nf, of now h n d] obtain rows rs where
    one: "fst (warning_one e now h n d) = Inr (n + length rows)"
         "notifications (snd (warning_one e now h n d)) = notifications d @ rows"
         "scheduledReminders (snd (warning_one e now h n d)) = scheduledReminders d @ rs"
         "list_all2 warning_row_of rows (filter (warning_due e now) [h])"
         "list_all2 (warning_reminder_of e now) rs
           (if now < at_20_hours e now then filter (warning_due e now) [h] else [])"
    by blast
  let ?d1 = "snd (warning_one e now h n d)"
  from one(1) obtain dn where dn: "warning_one e now h n d = (Inr (n + length rows), dn)"
    by (metis prod.collapse)
  then have step: "warning_loop e now (h # hs) n d = warning_loop e now hs (n + length rows) ?d1"
    by simp
  from Cons.IH [of "n + length rows" ?d1] obtain rows' rs' where
    rest: "fst (warning_loop e now hs (n + length rows) ?d1) = Inr (n + length rows + length rows')"
          "notifications (snd (warning_loop e now hs (n + length rows) ?d1)) = notifications ?d1 @ rows'"
          "scheduledReminders (snd (warning_loop e now hs (n + length rows) ?d1)) = scheduledReminders ?d1 @ rs'"
          "list_all2 warning_row_of rows' (filter (warning_due e now) hs)"
          "list_all2 (warning_reminder_of e now) rs'
             (if now < at_20_hours e now then filter (warning_due e now) hs else [])"
    by blast
  have f: "filter (warning_due e now) (h # hs) = filter (warning_due e now) [h] @ filter (warning_due e now) hs"
    by simp
  from one(4) rest(4) have a: "list_all2 warning_row_of (rows @ rows') (filter (warning_due e now) (h # hs))"
    unfolding f by (rule list_all2_appendI)
  have b: "list_all2 (warning_reminder_of e now) (rs @ rs')
           (if now < at_20_hours e now then filter (warning_due e now) (h # hs) else [])"
  proof (cases "now < at_20_hours e now")
    case True
    with one(5) rest(5) have "list_all2 (warning_reminder_of e now) rs (filter (warning_due e now) [h])"
      and "list_all2 (warning_reminder_of e now) rs' (filter (warning_due e now) hs)"
      by (simp_all only: if_True)
    then have "list_all2 (warning_reminder_of e now) (rs @ rs')
                 (filter (warning_due e now) [h] @ filter (warning_due e now) hs)"
      by (rule list_all2_appendI)
    with True show ?thesis by (simp only: f if_True)
  next
    case False
    with one(5) rest(5) show ?thesis by simp
  qed
  from step one rest a b show ?case
    by (intro exI [where x = "rows @ rows'"] exI [where x = "rs @ rs'"]) simp
qed

lemma habit_findMany_streaks_above_db:
  "habit_findMany_streaks_above e k d =
     (case faults e (ticks d) of
        Some err \<Rightarrow> (Inl err, tick d)
      | None \<Rightarrow> (Inr (map (streaks_above k) (filter is_active (habits d))), tick d))"
  by (simp add: habit_findMany_streaks_above_def await_def split: option.splits)

lemma warning_body_db:
  "snd (streak_warning_check_body e now d) =
     (case faults e (ticks d) of
        Some err \<Rightarrow> tick d
      | None \<Rightarrow> snd (warning_loop e now (map (streaks_above 2) (filter is_active (habits d))) 0 (tick d)))"
  by (simp add: streak_warning_check_body_def and_then_def habit_findMany_streaks_above_db
      split: option.splits prod.splits sum.splits)

lemma warning_due_at_risk:
  "is_active h \<Longrightarrow> warning_due e now (streaks_above 2 h) = at_risk e now h"
  by (auto simp add: warning_due_def at_risk_def streaks_above_def filter_empty_conv)

lemma warning_row_of_streaks_above:
  "warning_row_of row (streaks_above 2 h) = warning_row row h"
  "warning_reminder_of e now r (streaks_above 2 h) = warning_reminder e now r h"
  by (simp_all add: warning_row_of_def warning_row_def warning_reminder_of_def warning_reminder_def
      streaks_above_def warned_streak_def)

lemma filter_warning_due:
  "filter (warning_due e now) (map (streaks_above 2) (filter is_active hs))
     = map (streaks_above 2) (filter (at_risk e now) hs)"
proof -
  have "filter (warning_due e now \<circ> streaks_above 2) (filter is_active hs) = filter (at_risk e now) hs"
    by (induction hs) (auto simp add: warning_due_at_risk at_risk_def)
  then show ?thesis by (simp add: filter_map)
qed

text \<open>
  C3, as stated, at a habit with a seven-day streak whose owner is in quiet hours: the
  warning scan does not ask for quiet hours, and the warning is stored.
\<close>

theorem warning_scan_ignores_quiet_hours:
  "isInQuietHours quiet_env (habit_user_id sample_habit) 200
   \<and> map title (notifications (snd (streak_warning_check quiet_env 200 205 sample_db)))
        = [''Streak at Risk!'']
   \<and> map reminder_type (scheduledReminders (snd (streak_warning_check quiet_env 200 205 sample_db)))
        = [''REMINDER'', ''STREAK_WARNING'']"
  by code_simp

text \<open>
  C3, amended. The warning scan stores a warning only for an active habit that has a
  streak row above 2, is scheduled today, is not completed today, and whose owner is not
  on vacation; quiet hours play no part. When no call is rejected it stores exactly one
  \<open>Streak at Risk!\<close> notification for each such habit and, when the scan runs before
  20:00 local time, one STREAK_WARNING reminder for 20:00 for each; other habits get
  nothing.
\<close>

theorem warning_scan_selection:
  "(\<forall>row \<in> set (drop (length (notifications d))
                   (notifications (snd (streak_warning_check e now finish d)))).
      \<exists>h \<in> set (habits d). at_risk e now h \<and> warning_row row h)
   \<and> (\<forall>r \<in> set (drop (length (scheduledReminders d))
                   (scheduledReminders (snd (streak_warning_check e now finish d)))).
      \<exists>h \<in> set (habits d). at_risk e now h \<and> warning_reminder e now r h)
   \<and> ((\<forall>n. faults e n = None) \<longrightarrow>
        list_all2 warning_row
          (drop (length (notifications d)) (notifications (snd (streak_warning_check e now finish d))))
          (filter (at_risk e now) (habits d))
        \<and> list_all2 (warning_reminder e now)
          (drop (length (scheduledReminders d))
             (scheduledReminders (snd (streak_warning_check e now finish d))))
          (if now < at_20_hours e now then filter (at_risk e now) (habits d) else []))"
proof -
  let ?hs = "map (streaks_above 2) (filter is_active (habits d))"
  let ?run = "snd (streak_warning_check e now finish d)"
  have db: "?run = snd (streak_warning_check_body e now d)"
    by (simp add: streak_warning_check_def cron_job_db)
  have any: "(\<forall>row \<in> set (drop (length (notifications d)) (notifications ?run)).
                \<exists>h \<in> set (habits d). at_risk e now h \<and> warning_row row h)
             \<and> (\<forall>r \<in> set (drop (length (scheduledReminders d)) (scheduledReminders ?run)).
                \<exists>h \<in> set (habits d). at_risk e now h \<and> warning_reminder e now r h)"
  proof (cases "faults e (ticks d)")
    case (Some err)
    then show ?thesis by (simp add: db warning_body_db)
  next
    case None
    from warning_loop_rows [of e now ?hs 0 "tick d"] obtain rows rs where
      r: "notifications (snd (warning_loop e now ?hs 0 (tick d))) = notifications d @ rows"
         "scheduledReminders (snd (warning_loop e now ?hs 0 (tick d))) = scheduledReminders d @ rs"
      and p: "\<forall>row \<in> set rows. \<exists>h \<in> set ?hs. warning_due e now h \<and> warning_row_of row h"
             "\<forall>r \<in> set rs. \<exists>h \<in> set ?hs. warning_due e now h \<and> warning_reminder_of e now r h"
      by auto
    from p have "\<forall>row \<in> set rows. \<exists>h \<in> set (habits d). at_risk e now h \<and> warning_row row h"
      and "\<forall>r \<in> set rs. \<exists>h \<in> set (habits d). at_risk e now h \<and> warning_reminder e now r h"
      by (auto simp add: warning_due_at_risk warning_row_of_streaks_above)
    with r None show ?thesis by (simp add: db warning_body_db)
  qed
  have exact: "list_all2 warning_row (drop (length (notifications d)) (notifications ?run))
                 (filter (at_risk e now) (habits d))
               \<and> list_all2 (warning_reminder e now)
                 (drop (length (scheduledReminders d)) (scheduledReminders ?run))
                 (if now < at_20_hours e now then filter (at_risk e now) (habits d) else [])"
    if nf: "\<forall>n. faults e n = None"
  proof -
    from warning_loop_no_faults [OF nf, of now ?hs 0 "tick d"] obtain rows rs where
      r: "notifications (snd (warning_loop e now ?hs 0 (tick d))) = notifications d @ rows"
         "scheduledReminders (snd (warning_loop e now ?hs 0 (tick d))) = scheduledReminders d @ rs"
      and p: "list_all2 warning_row_of rows (filter (warning_due e now) ?hs)"
             "list_all2 (warning_reminder_of e now) rs
                (if now < at_20_hours e now then filter (warning_due e now) ?hs else [])"
      by auto
    from p have "list_all2 warning_row rows (filter (at_risk e now) (habits d))"
      and "list_all2 (warning_reminder e now) rs
             (if now < at_20_hours e now then filter (at_risk e now) (habits d) else [])"
      by (simp_all add: filter_warning_due list_all2_map2 warning_row_of_streaks_above
          split: if_splits)
    with r nf show ?thesis by (simp add: db warning_body_db)
  qed
  from any exact show ?thesis by blast
qed

theorem warning_scan_selection_witness:
  "(\<forall>n. faults quiet_env n = None)
   \<and> filter (at_risk quiet_env 200) (habits sample_db) = [sample_habit]
   \<and> list_all2 warning_row
        (drop (length (notifications sample_db))
           (notifications (snd (streak_warning_check quiet_env 200 205 sample_db))))
        (filter (at_risk quiet_env 200) (habits sample_db))"
proof -
  have nf: "\<forall>n. faults quiet_env n = None"
    by (simp add: quiet_env_def sample_env_def no_faults_def)
  have one: "filter (at_risk quiet_env 200) (habits sample_db) = [sample_habit]"
    by (simp add: sample_db_def at_risk_def sample_habit_def sample_user_def quiet_env_def
        sample_env_def)
  from warning_scan_selection [of sample_db quiet_env 200 205] nf
  have "list_all2 warning_row
        (drop (length (notifications sample_db))
           (notifications (snd (streak_warning_check quiet_env 200 205 sample_db))))
        (filter (at_risk quiet_env 200) (habits sample_db))"
    by blast
  with nf one show ?thesis by blast
qed

section \<open>streak-preservation-reminder\<close>

lemma createNotification_times [simp]:
  "preservation_times (snd (createNotification e dat d)) hid uid = preservation_times d hid uid"
  by (simp add: preservation_times_def)

lemma tick_times [simp]: "preservation_times (tick d) hid uid = preservation_times d hid uid"
  by (simp add: preservation_times_def)

lemma recent_blocks:
  assumes "find (is_recent_preservation now hid uid) (scheduledReminders d) = None"
  shows "\<forall>t \<in> set (preservation_times d hid uid). t < now - two_hours"
  using assms
  by (auto simp add: find_None_iff preservation_times_def is_preservation_for_def
      is_recent_preservation_def)

lemma reminder_create_times:
  "preservation_times (snd (reminder_create e h u now ''STREAK_PRESERVATION'' msg meta d)) hid uid
     = preservation_times d hid uid
   \<or> (h = hid \<and> u = uid
       \<and> preservation_times (snd (reminder_create e h u now ''STREAK_PRESERVATION'' msg meta d)) hid uid
          = preservation_times d hid uid @ [now])"
  by (auto simp add: reminder_create_def await_def Let_def preservation_times_def
      is_preservation_for_def reminder_row_def split: option.splits)

lemma preservation_create_times:
  "preservation_times (snd (preservation_create e now h n d)) hid uid = preservation_times d hid uid
   \<or> (preservation_times (snd (preservation_create e now h n d)) hid uid
         = preservation_times d hid uid @ [now]
       \<and> (\<forall>t \<in> set (preservation_times d hid uid). t < now - two_hours))"
proof (cases "faults e (ticks d)")
  case (Some err)
  then show ?thesis
    by (simp add: preservation_create_def and_then_def find_recent_preservation_def await_def)
next
  case None
  show ?thesis
  proof (cases "find (is_recent_preservation now (habit_id h) (habit_user_id h)) (scheduledReminders d)")
    case (Some r)
    with None show ?thesis
      by (simp add: preservation_create_def and_then_def find_recent_preservation_def await_def)
  next
    case none: None
    let ?rc = "reminder_create e (habit_id h) (habit_user_id h) now ''STREAK_PRESERVATION''
                 (preservation_message h (hd (streak h))) (preservation_metadata h (hd (streak h)))
                 (tick d)"
    from None none have
      "preservation_times (snd (preservation_create e now h n d)) hid uid
         = preservation_times (snd ?rc) hid uid"
      by (cases ?rc)
         (auto simp add: preservation_create_def and_then_def find_recent_preservation_def await_def
          split: sum.splits prod.splits, metis createNotification_times snd_conv)
    with reminder_create_times [of e "habit_id h" "habit_user_id h" now
           "preservation_message h (hd (streak h))" "preservation_metadata h (hd (streak h))"
           "tick d" hid uid]
         recent_blocks [OF none]
    show ?thesis by auto
  qed
qed

lemma preservation_one_times:
  "preservation_times (snd (preservation_one e now h n d)) hid uid = preservation_times d hid uid
   \<or> (preservation_times (snd (preservation_one e now h n d)) hid uid
         = preservation_times d hid uid @ [now]
       \<and> (\<forall>t \<in> set (preservation_times d hid uid). t < now - two_hours))"
proof -
  let ?d3 = "tick (tick (tick d))"
  have "snd (preservation_one e now h n d) = d \<or> snd (preservation_one e now h n d) = tick d
        \<or> snd (preservation_one e now h n d) = tick (tick d)
        \<or> snd (preservation_one e now h n d) = ?d3
        \<or> snd (preservation_one e now h n d) = snd (preservation_create e now h n ?d3)"
    by (simp add: preservation_one_def and_then_def call_isHabitScheduledForDate_def
        call_isHabitCompletedForDate_def call_isInQuietHours_def await_def split: option.splits)
  with preservation_create_times [of e now h n ?d3 hid uid] show ?thesis
    by (elim disjE) simp_all
qed

lemma preservation_loop_times:
  "preservation_times (snd (preservation_loop e now hs n d)) hid uid = preservation_times d hid uid
   \<or> (preservation_times (snd (preservation_loop e now hs n d)) hid uid
         = preservation_times d hid uid @ [now]
       \<and> (\<forall>t \<in> set (preservation_times d hid uid). t < now - two_hours))"
proof (induction hs arbitrary: n d)
  case Nil
  then show ?case by simp
next
  case (Cons h hs)
  obtain res da where one: "preservation_one e now h n d = (res, da)"
    by (cases "preservation_one e now h n d")
  from preservation_one_times [of e now h n d hid uid] one
  have first: "preservation_times da hid uid = preservation_times d hid uid
     \<or> (preservation_times da hid uid = preservation_times d hid uid @ [now]
       \<and> (\<forall>t \<in> set (preservation_times d hid uid). t < now - two_hours))"
    by simp
  show ?case
  proof (cases res)
    case (Inl err)
    with one first show ?thesis by simp
  next
    case (Inr n')
    with one have step: "preservation_loop e now (h # hs) n d = preservation_loop e now hs n' da"
      by simp
    have pos: "\<not> now < now - two_hours"
      by (simp add: two_hours_def)
    from Cons.IH [of n' da] first pos show ?thesis
      unfolding step by auto
  qed
qed

lemma preservation_scan_times:
  "preservation_times (snd (streak_preservation_reminder e now finish d)) hid uid
     = preservation_times d hid uid
   \<or> (preservation_times (snd (streak_preservation_reminder e now finish d)) hid uid
         = preservation_times d hid uid @ [now]
       \<and> (\<forall>t \<in> set (preservation_times d hid uid). t < now - two_hours))"
proof -
  let ?hs = "map (streaks_above 7) (filter is_active (habits d))"
  have "snd (streak_preservation_reminder e now finish d) = tick d
        \<or> snd (streak_preservation_reminder e now finish d) = snd (preservation_loop e now ?hs 0 (tick d))"
    by (simp add: streak_preservation_reminder_def cron_job_db streak_preservation_body_def
        and_then_def habit_findMany_streaks_above_db split: option.splits prod.splits sum.splits)
  with preservation_loop_times [of e now ?hs 0 "tick d" hid uid] show ?thesis
    by (elim disjE) simp_all
qed

lemma spaced_snoc:
  assumes "spaced ts" "\<forall>t \<in> set ts. t < now - two_hours"
  shows "spaced (ts @ [now])"
  using assms by (auto simp add: spaced_def sorted_wrt_append)

text \<open>
  C5. The preservation scan adds a STREAK_PRESERVATION row for a habit and user only when
  no such row with \<open>scheduled_time\<close> within the last two hours exists, and at most one per
  run. So rows that are pairwise more than two hours apart stay so after a scan; a scan
  that finds a recent row adds none; and a second scan at most two hours after the first
  (90 minutes, say) leaves at most one new row.
\<close>

theorem preservation_rate_limit:
  "(spaced (preservation_times d hid uid) \<longrightarrow>
      spaced (preservation_times (snd (streak_preservation_reminder e now finish d)) hid uid))
   \<and> ((\<exists>r \<in> set (scheduledReminders d). is_recent_preservation now hid uid r) \<longrightarrow>
      preservation_times (snd (streak_preservation_reminder e now finish d)) hid uid
        = preservation_times d hid uid)
   \<and> (later - two_hours \<le> now \<longrightarrow>
      length (preservation_times
                (snd (streak_preservation_reminder e' later finish'
                        (snd (streak_preservation_reminder e now finish d)))) hid uid)
        \<le> length (preservation_times d hid uid) + 1)"
proof (intro conjI impI)
  assume "spaced (preservation_times d hid uid)"
  with preservation_scan_times [of e now finish d hid uid]
  show "spaced (preservation_times (snd (streak_preservation_reminder e now finish d)) hid uid)"
    by (auto simp add: spaced_snoc)
next
  assume "\<exists>r \<in> set (scheduledReminders d). is_recent_preservation now hid uid r"
  then obtain r where "r \<in> set (scheduledReminders d)" "is_recent_preservation now hid uid r"
    by blast
  then have "scheduled_time r \<in> set (preservation_times d hid uid)" "\<not> scheduled_time r < now - two_hours"
    by (auto simp add: preservation_times_def is_recent_preservation_def is_preservation_for_def)
  with preservation_scan_times [of e now finish d hid uid]
  show "preservation_times (snd (streak_preservation_reminder e now finish d)) hid uid
          = preservation_times d hid uid"
    by auto
next
  assume near: "later - two_hours \<le> now"
  let ?d1 = "snd (streak_preservation_reminder e now finish d)"
  from preservation_scan_times [of e now finish d hid uid]
       preservation_scan_times [of e' later finish' ?d1 hid uid] near
  show "length (preservation_times (snd (streak_preservation_reminder e' later finish' ?d1)) hid uid)
          \<le> length (preservation_times d hid uid) + 1"
    by (elim disjE conjE) auto
qed

theorem preservation_rate_limit_witness:
  "half_past_eleven - two_hours \<le> ten_o_clock
   \<and> preservation_times (snd (streak_preservation_reminder (sample_env no_faults) ten_o_clock 36000010
                                long_streak_db)) 1 1 = [ten_o_clock]
   \<and> length (preservation_times
               (snd (streak_preservation_reminder (sample_env no_faults) half_past_eleven 41400010
                       (snd (streak_preservation_reminder (sample_env no_faults) ten_o_clock 36000010
                               long_streak_db)))) 1 1)
        \<le> length (preservation_times long_streak_db 1 1) + 1
   \<and> spaced (preservation_times (snd (streak_preservation_reminder (sample_env no_faults) ten_o_clock
                                        36000010 long_streak_db)) 1 1)"
proof -
  have near: "half_past_eleven - two_hours \<le> ten_o_clock"
    by (simp add: half_past_eleven_def ten_o_clock_def two_hours_def)
  have first: "preservation_times (snd (streak_preservation_reminder (sample_env no_faults) ten_o_clock
                 36000010 long_streak_db)) 1 1 = [ten_o_clock]"
    by code_simp
  have start: "spaced (preservation_times long_streak_db 1 1)"
    by code_simp
  from preservation_rate_limit
         [of long_streak_db 1 1 "sample_env no_faults" ten_o_clock 36000010 half_past_eleven
             "sample_env no_faults" 41400010]
       near start first
  show ?thesis by blast
qed

section \<open>daily-goal-check\<close>


lemma goal_one_cases:
  "(\<exists>err. goal_one e t0 t1 u n d = (Inl err, tick d))
   \<or> (\<not> int (completed_between (habitLogs d) (user_id u) t0 t1) \<ge> dailyGoal u
       \<and> goal_one e t0 t1 u n d = (Inr n, tick d))
   \<or> (int (completed_between (habitLogs d) (user_id u) t0 t1) \<ge> dailyGoal u
       \<and> goal_one e t0 t1 u n d =
           (Inr (n + 1),
            snd (createNotification e
                   (goal_notification u (completed_between (habitLogs d) (user_id u) t0 t1)) (tick d))))"
  by (simp add: goal_one_def and_then_def habitLog_count_def await_def split: option.splits)

lemma goal_one_no_faults:
  assumes "\<forall>n. faults e n = None"
  shows "goal_one e t0 t1 u n d =
     (if int (completed_between (habitLogs d) (user_id u) t0 t1) \<ge> dailyGoal u
      then (Inr (n + 1),
            snd (createNotification e
                   (goal_notification u (completed_between (habitLogs d) (user_id u) t0 t1)) (tick d)))
      else (Inr n, tick d))"
  using assms by (simp add: goal_one_def and_then_def habitLog_count_def await_no_faults)

lemma goal_one_frame [simp]:
  "users (snd (goal_one e t0 t1 u n d)) = users d"
  "habitLogs (snd (goal_one e t0 t1 u n d)) = habitLogs d"
  using goal_one_cases [of e t0 t1 u n d] by auto

lemma goal_loop_frame [simp]:
  "users (snd (goal_loop e t0 t1 us n d)) = users d"
  "habitLogs (snd (goal_loop e t0 t1 us n d)) = habitLogs d"
proof (induction us arbitrary: n d)
  case Nil
  { case 1 show ?case by simp }
  { case 2 show ?case by simp }
next
  case (Cons u us)
  { case 1
    show ?case
      using Cons.IH(1) goal_one_frame(1) [of e t0 t1 u n d]
      by (cases "goal_one e t0 t1 u n d") (auto split: sum.splits) }
  { case 2
    show ?case
      using Cons.IH(2) goal_one_frame(2) [of e t0 t1 u n d]
      by (cases "goal_one e t0 t1 u n d") (auto split: sum.splits) }
qed




lemma daily_goal_db:
  "snd (daily_goal_check e now finish d) =
     (case faults e (ticks d) of
        Some err \<Rightarrow> tick d
      | None \<Rightarrow> snd (goal_loop e (local_midnight e now) (local_midnight e now + 86400000)
                       (filter has_goal (users d)) 0 (tick d)))"
proof -
  have "(\<lambda>u. prefersNotifications u = True \<and> onVacation u = False \<and> dailyGoal u > 0) = has_goal"
    by (auto simp add: has_goal_def)
  then show ?thesis
    by (simp add: daily_goal_check_def cron_job_db daily_goal_check_body_def Let_def and_then_def
        user_findMany_with_goal_def await_def split: option.splits prod.splits sum.splits)
qed

lemma daily_goal_frame [simp]:
  "users (snd (daily_goal_check e now finish d)) = users d"
  "habitLogs (snd (daily_goal_check e now finish d)) = habitLogs d"
  by (simp_all add: daily_goal_db split: option.splits)




section \<open>new-user-welcome\<close>

lemma welcome_row_is_welcome: "is_welcome (notification_row i (welcome_notification u))"
  by (simp add: is_welcome_def notification_row_def welcome_notification_def)

lemma createNotification_user_rows:
  "filter (\<lambda>n. n_user_id n = uid) (notifications (snd (createNotification e dat d)))
     = filter (\<lambda>n. n_user_id n = uid) (notifications d)
   \<or> (d_user_id dat = uid
       \<and> notifications (snd (createNotification e dat d)) = notifications d @ [next_row d dat])"
  using createNotification_rows [of e dat d]
  by (auto simp add: next_row_def notification_row_def split: if_splits)

lemma welcome_loop_other_users:
  "uid \<notin> set (map user_id us) \<Longrightarrow>
   filter (\<lambda>n. n_user_id n = uid) (notifications (snd (welcome_loop e us n d)))
     = filter (\<lambda>n. n_user_id n = uid) (notifications d)"
proof (induction us arbitrary: n d)
  case Nil
  then show ?case by simp
next
  case (Cons u us)
  from Cons.prems have "user_id u \<noteq> uid" "uid \<notin> set (map user_id us)" by auto
  with Cons.IH [of "n + 1" "snd (createNotification e (welcome_notification u) d)"]
       createNotification_user_rows [of uid e "welcome_notification u" d]
  show ?case by (auto simp add: welcome_notification_def)
qed

lemma welcome_loop_count:
  "distinct (map user_id us) \<Longrightarrow>
   welcome_count (snd (welcome_loop e us n d)) uid \<le> welcome_count d uid + 1"
proof (induction us arbitrary: n d)
  case Nil
  then show ?case by simp
next
  case (Cons u us)
  let ?d1 = "snd (createNotification e (welcome_notification u) d)"
  from Cons.prems have dist: "distinct (map user_id us)" and fresh: "user_id u \<notin> set (map user_id us)"
    by auto
  show ?case
  proof (cases "user_id u = uid")
    case False
    with createNotification_user_rows [of uid e "welcome_notification u" d]
    have "filter (\<lambda>n. n_user_id n = uid) (notifications ?d1)
            = filter (\<lambda>n. n_user_id n = uid) (notifications d)"
      by (auto simp add: welcome_notification_def)
    then have "filter (\<lambda>n. n_user_id n = uid \<and> is_welcome n) (notifications ?d1)
            = filter (\<lambda>n. n_user_id n = uid \<and> is_welcome n) (notifications d)"
      by (metis filter_filter)
    then have "welcome_count ?d1 uid = welcome_count d uid"
      by (simp add: welcome_count_def)
    with Cons.IH [OF dist, of "n + 1" ?d1] show ?thesis by simp
  next
    case True
    with fresh have "uid \<notin> set (map user_id us)" by simp
    from welcome_loop_other_users [OF this, of e "n + 1" ?d1]
    have "filter (\<lambda>n. n_user_id n = uid \<and> is_welcome n) (notifications (snd (welcome_loop e us (n + 1) ?d1)))
            = filter (\<lambda>n. n_user_id n = uid \<and> is_welcome n) (notifications ?d1)"
      by (metis filter_filter)
    then have rest: "welcome_count (snd (welcome_loop e us (n + 1) ?d1)) uid = welcome_count ?d1 uid"
      by (simp add: welcome_count_def)
    from createNotification_rows [of e "welcome_notification u" d]
    have "welcome_count ?d1 uid \<le> welcome_count d uid + 1"
      by (auto simp add: welcome_count_def)
    with rest show ?thesis by simp
  qed
qed

lemma createNotification_count_mono:
  "welcome_count d uid \<le> welcome_count (snd (createNotification e dat d)) uid"
  using createNotification_rows [of e dat d] by (auto simp add: welcome_count_def)

lemma welcome_loop_mono:
  "welcome_count d uid \<le> welcome_count (snd (welcome_loop e us n d)) uid"
proof (induction us arbitrary: n d)
  case Nil
  then show ?case by simp
next
  case (Cons u us)
  from createNotification_count_mono [of d uid e "welcome_notification u"]
       Cons.IH [of "snd (createNotification e (welcome_notification u) d)" "n + 1"]
  show ?case by simp
qed

lemma welcome_loop_sends:
  assumes nf: "\<forall>n. faults e n = None"
  shows "u \<in> set us \<Longrightarrow>
         welcome_count d (user_id u) + 1 \<le> welcome_count (snd (welcome_loop e us n d)) (user_id u)"
proof (induction us arbitrary: n d)
  case Nil
  then show ?case by simp
next
  case (Cons v us)
  let ?d1 = "snd (createNotification e (welcome_notification v) d)"
  show ?case
  proof (cases "v = u")
    case True
    have "notifications ?d1 = notifications d @ [next_row d (welcome_notification u)]"
      using createNotification_no_faults [OF nf, of "welcome_notification u" d] True by simp
    then have "welcome_count ?d1 (user_id u) = welcome_count d (user_id u) + 1"
      by (simp add: welcome_count_def next_row_def welcome_row_is_welcome)
         (simp add: notification_row_def welcome_notification_def)
    with welcome_loop_mono [of ?d1 "user_id u" e us "n + 1"] show ?thesis by simp
  next
    case False
    with Cons.prems have "u \<in> set us" by simp
    from Cons.IH [OF this, of ?d1 "n + 1"]
         createNotification_count_mono [of d "user_id u" e "welcome_notification v"]
    show ?thesis by simp
  qed
qed

lemma new_user_welcome_db:
  "snd (new_user_welcome e now finish d) =
     (case faults e (ticks d) of
        Some err \<Rightarrow> tick d
      | None \<Rightarrow> snd (welcome_loop e (filter (needs_welcome d (now - 30 * 60 * 1000)) (users d)) 0 (tick d)))"
  by (simp add: new_user_welcome_def cron_job_db new_user_welcome_body_def and_then_def
      user_findMany_new_def await_def split: option.splits prod.splits)

lemma welcome_loop_users [simp]: "users (snd (welcome_loop e us n d)) = users d"
  by (induction us arbitrary: n d) simp_all

lemma new_user_welcome_users [simp]: "users (snd (new_user_welcome e now finish d)) = users d"
  by (simp add: new_user_welcome_db split: option.splits)

lemma needs_welcome_count: "needs_welcome d t u \<Longrightarrow> welcome_count d (user_id u) = 0"
  by (simp add: needs_welcome_def welcome_count_def)

lemma welcomed_user_gets_nothing:
  assumes "welcome_count d uid \<ge> 1"
  shows "filter (\<lambda>n. n_user_id n = uid) (notifications (snd (new_user_welcome e now finish d)))
           = filter (\<lambda>n. n_user_id n = uid) (notifications d)"
proof (cases "faults e (ticks d)")
  case (Some err)
  then show ?thesis by (simp add: new_user_welcome_db)
next
  case None
  let ?us = "filter (needs_welcome d (now - 30 * 60 * 1000)) (users d)"
  from assms have "uid \<notin> set (map user_id ?us)"
    using needs_welcome_count by fastforce
  from welcome_loop_other_users [OF this, of e 0 "tick d"] None show ?thesis
    by (simp add: new_user_welcome_db)
qed

lemma welcome_at_most_once:
  assumes dist: "distinct (map user_id (users d))" and le: "welcome_count d uid \<le> 1"
  shows "welcome_count (snd (new_user_welcome e now finish d)) uid \<le> 1"
proof (cases "welcome_count d uid = 0")
  case False
  with le have "welcome_count d uid \<ge> 1" by simp
  from welcomed_user_gets_nothing [OF this, of e now finish]
  have "filter (\<lambda>n. n_user_id n = uid \<and> is_welcome n) (notifications (snd (new_user_welcome e now finish d)))
          = filter (\<lambda>n. n_user_id n = uid \<and> is_welcome n) (notifications d)"
    by (metis filter_filter)
  with le show ?thesis by (simp add: welcome_count_def)
next
  case True
  show ?thesis
  proof (cases "faults e (ticks d)")
    case (Some err)
    with le show ?thesis by (simp add: new_user_welcome_db welcome_count_def)
  next
    case None
    let ?us = "filter (needs_welcome d (now - 30 * 60 * 1000)) (users d)"
    from dist have "distinct (map user_id ?us)"
      by (rule distinct_map_filter)
    from welcome_loop_count [OF this, of e 0 "tick d" uid] True None show ?thesis
      by (simp add: new_user_welcome_db welcome_count_def)
  qed
qed

lemma welcome_runs_at_most_once:
  "distinct (map user_id (users d)) \<Longrightarrow> welcome_count d uid \<le> 1 \<Longrightarrow>
   welcome_count (welcome_runs rs d) uid \<le> 1"
proof (induction rs arbitrary: d)
  case Nil
  then show ?case by simp
next
  case (Cons r rs)
  obtain e now finish where r: "r = (e, now, finish)" by (cases r)
  let ?d1 = "snd (new_user_welcome e now finish d)"
  from Cons.prems have a: "distinct (map user_id (users ?d1))"
    by simp
  from Cons.prems have b: "welcome_count ?d1 uid \<le> 1"
    by (rule welcome_at_most_once)
  from Cons.IH [OF a b] r show ?case by simp
qed

text \<open>
  C10. With user keys distinct, a user who has at most one welcome notification has at most
  one after any run, and after any series of runs, of the welcome job, whatever calls are
  rejected. A run adds nothing for a user who already has one. When no call is rejected, a
  user registered in the last 30 minutes without a welcome notification has one afterwards.
\<close>

theorem welcome_sent_at_most_once:
  "(distinct (map user_id (users d)) \<and> welcome_count d uid \<le> 1 \<longrightarrow>
      welcome_count (snd (new_user_welcome e now finish d)) uid \<le> 1
      \<and> welcome_count (welcome_runs rs d) uid \<le> 1)
   \<and> (welcome_count d uid \<ge> 1 \<longrightarrow>
      filter (\<lambda>n. n_user_id n = uid) (notifications (snd (new_user_welcome e now finish d)))
        = filter (\<lambda>n. n_user_id n = uid) (notifications d))
   \<and> ((\<forall>n. faults e n = None) \<and> u \<in> set (users d) \<and> registeredAt u \<ge> now - 30 * 60 * 1000
        \<and> welcome_count d (user_id u) = 0 \<longrightarrow>
      welcome_count (snd (new_user_welcome e now finish d)) (user_id u) \<ge> 1)"
proof (intro conjI impI)
  assume a: "distinct (map user_id (users d)) \<and> welcome_count d uid \<le> 1"
  then show "welcome_count (snd (new_user_welcome e now finish d)) uid \<le> 1"
    by (blast intro: welcome_at_most_once)
  from a show "welcome_count (welcome_runs rs d) uid \<le> 1"
    by (blast intro: welcome_runs_at_most_once)
next
  assume "welcome_count d uid \<ge> 1"
  then show "filter (\<lambda>n. n_user_id n = uid) (notifications (snd (new_user_welcome e now finish d)))
        = filter (\<lambda>n. n_user_id n = uid) (notifications d)"
    by (rule welcomed_user_gets_nothing)
next
  assume a: "(\<forall>n. faults e n = None) \<and> u \<in> set (users d) \<and> registeredAt u \<ge> now - 30 * 60 * 1000
        \<and> welcome_count d (user_id u) = 0"
  let ?us = "filter (needs_welcome d (now - 30 * 60 * 1000)) (users d)"
  from a have nf: "\<forall>n. faults e n = None" by simp
  from a have "u \<in> set ?us"
    by (simp add: needs_welcome_def welcome_count_def)
  from welcome_loop_sends [OF nf this, of "tick d" 0] nf
  show "welcome_count (snd (new_user_welcome e now finish d)) (user_id u) \<ge> 1"
    by (simp add: new_user_welcome_db welcome_count_def)
qed

theorem welcome_sent_at_most_once_witness:
  "distinct (map user_id (users new_user_db)) \<and> welcome_count new_user_db 1 = 0
   \<and> welcome_count (snd (new_user_welcome (sample_env no_faults) 2000 2005 new_user_db)) 1 = 1
   \<and> welcome_count (welcome_runs [(sample_env no_faults, 2000, 2005), (sample_env no_faults, 3000, 3005)]
                       new_user_db) 1 = 1"
proof -
  let ?u = "sample_user\<lparr>registeredAt := 1000\<rparr>"
  have nf: "\<forall>n. faults (sample_env no_faults) n = None"
    by (simp add: sample_env_def no_faults_def)
  have dist: "distinct (map user_id (users new_user_db))"
    by (simp add: new_user_db_def)
  have zero: "welcome_count new_user_db 1 = 0"
    by (simp add: new_user_db_def sample_db_def welcome_count_def)
  have u: "?u \<in> set (users new_user_db)" "registeredAt ?u \<ge> 2000 - 30 * 60 * 1000" "user_id ?u = 1"
    by (simp_all add: new_user_db_def sample_user_def)
  from welcome_sent_at_most_once
         [of new_user_db 1 "sample_env no_faults" 2000 2005
             "[(sample_env no_faults, 2000, 2005), (sample_env no_faults, 3000, 3005)]" ?u]
       nf dist zero u
  have le: "welcome_count (snd (new_user_welcome (sample_env no_faults) 2000 2005 new_user_db)) 1 \<le> 1"
    and runs: "welcome_count (welcome_runs [(sample_env no_faults, 2000, 2005), (sample_env no_faults, 3000, 3005)]
                       new_user_db) 1 \<le> 1"
    and ge: "welcome_count (snd (new_user_welcome (sample_env no_faults) 2000 2005 new_user_db)) 1 \<ge> 1"
    by simp_all
  have mono: "welcome_count (snd (new_user_welcome (sample_env no_faults) 2000 2005 new_user_db)) 1
        \<le> welcome_count (welcome_runs [(sample_env no_faults, 2000, 2005), (sample_env no_faults, 3000, 3005)]
                       new_user_db) 1"
    by code_simp
  from dist zero le runs ge mono show ?thesis by simp
qed

section \<open>weekly-habit-review\<close>

lemma foldl_plus: "foldl (\<lambda>s h. s + f h) (a::nat) xs = a + sum_list (map f xs)"
  by (induction xs arbitrary: a) simp_all

lemma filter_count_list: "length (filter (\<lambda>l. f l = k) ls) = count_list (map f ls) k"
  by (induction ls) auto

lemma totalCompletions_length: "totalCompletions (group_counts ls) = length ls"
proof -
  let ?ids = "map log_habit_id ls"
  have "totalCompletions (group_counts ls) = sum_list (map (count_list ?ids) (remdups ?ids))"
    by (simp add: totalCompletions_def group_counts_def foldl_plus comp_def filter_count_list)
  also have "\<dots> = sum (count_list ?ids) (set ?ids)"
    by (simp add: sum_list_distinct_conv_sum_set)
  also have "\<dots> = length ?ids"
    by (rule sum_count_set) simp_all
  finally show ?thesis by simp
qed

lemma map_of_group_counts:
  "map_of (group_counts ls) hid =
     (if hid \<in> set (map log_habit_id ls) then Some (length (filter (\<lambda>l. log_habit_id l = hid) ls))
      else None)"
  by (simp add: group_counts_def map_of_map_restrict restrict_map_def)

lemma fst_group_counts [simp]: "set (map fst (group_counts ls)) = set (map log_habit_id ls)"
  by (simp add: group_counts_def comp_def)

lemma week_logs_count:
  "length (filter (\<lambda>l. log_habit_id l = hid) (week_logs logs uid now)) = week_count logs uid now hid"
  by (simp add: week_logs_def week_count_def one_week_ago_def conj_commute conj_left_commute
      cong: conj_cong)

lemma week_logs_total: "length (week_logs logs uid now) = week_total logs uid now"
  by (simp add: week_logs_def week_total_def one_week_ago_def)

lemma in_week_logs_iff:
  "hid \<in> set (map log_habit_id (week_logs logs uid now)) \<longleftrightarrow> week_count logs uid now hid > 0"
  unfolding week_logs_count [symmetric]
  by (auto simp add: length_greater_0_conv filter_empty_conv simp del: length_0_conv)

lemma topHabits_week_top:
  "topHabits (group_counts (week_logs logs uid now))
     (filter (\<lambda>h. habit_id h \<in> set (map log_habit_id (week_logs logs uid now))) hs)
   = week_top logs hs uid now"
proof -
  let ?ls = "week_logs logs uid now"
  have f: "filter (\<lambda>h. habit_id h \<in> set (map log_habit_id ?ls)) hs
             = filter (\<lambda>h. week_count logs uid now (habit_id h) > 0) hs"
    by (simp add: in_week_logs_iff del: set_map)
  have m: "map (\<lambda>h. (name h, (case map_of (group_counts ?ls) (habit_id h) of Some c \<Rightarrow> c | None \<Rightarrow> 0)))
             (filter (\<lambda>h. week_count logs uid now (habit_id h) > 0) hs)
           = map (\<lambda>h. (name h, week_count logs uid now (habit_id h)))
               (filter (\<lambda>h. week_count logs uid now (habit_id h) > 0) hs)"
    by (rule map_cong) (auto simp add: map_of_group_counts week_logs_count in_week_logs_iff simp del: set_map)
  show ?thesis
    unfolding topHabits_def week_top_def f m ..
qed

lemma week_top_sorted: "sorted_wrt (\<lambda>a b. snd a \<ge> snd b) (week_top logs hs uid now)"
proof -
  have "sorted (map (\<lambda>a. - int (snd a)) (week_top logs hs uid now))"
    unfolding week_top_def by (rule sorted_sort_key)
  then show ?thesis
    by (simp add: sorted_map sorted_wrt_iff_nth_less)
qed

lemma report_line_is_report_error:
  "is_report_error (''Error generating weekly report for user '' @ rest)"
  by (simp add: is_report_error_def)

lemma notification_line_not_report_error:
  "\<not> is_report_error (''Error creating notification: '' @ rest)"
  by (simp add: is_report_error_def)

lemmas line_facts =
  report_line_is_report_error [simplified] notification_line_not_report_error [simplified]

lemma createNotification_report_errors [simp]:
  "report_errors (snd (createNotification e dat d)) = report_errors d"
  by (cases "faults e (ticks d)"; cases "faults e (Suc (ticks d))";
      simp add: createNotification_create_fails createNotification_push_fails createNotification_ok
        report_errors_def line_facts)

lemma tick_report_errors [simp]: "report_errors (tick d) = report_errors d"
  by (simp add: report_errors_def)

lemma weekly_try_cases:
  "(\<exists>err. weekly_try e now u d = (Inl err, tick d))
   \<or> (\<exists>err. weekly_try e now u d = (Inl err, tick (tick d)))
   \<or> weekly_try e now u d =
        (Inr (),
         snd (createNotification e
                (weekly_summary_notification (user_id u) (week_total (habitLogs d) (user_id u) now)
                   (week_top (habitLogs d) (habits d) (user_id u) now)) (tick (tick d))))"
proof (cases "faults e (ticks d)")
  case (Some err)
  then show ?thesis
    by (simp add: weekly_try_def and_then_def habitLog_groupBy_def await_def)
next
  case None
  show ?thesis
  proof (cases "faults e (Suc (ticks d))")
    case (Some err)
    with None show ?thesis
      by (simp add: weekly_try_def and_then_def habitLog_groupBy_def habit_findMany_in_def await_def)
  next
    case none: None
    with None show ?thesis
      by (simp add: weekly_try_def and_then_def habitLog_groupBy_def habit_findMany_in_def await_def
          createWeeklySummaryNotification_def totalCompletions_length week_logs_total
          topHabits_week_top del: set_map)
  qed
qed

lemma weekly_one_cases:
  "(\<exists>err. weekly_one e now u n d =
           (n, console_error (''Error generating weekly report for user '' @ show_nat (user_id u)
                              @ '': '' @ message err) (tick d)))
   \<or> (\<exists>err. weekly_one e now u n d =
           (n, console_error (''Error generating weekly report for user '' @ show_nat (user_id u)
                              @ '': '' @ message err) (tick (tick d))))
   \<or> weekly_one e now u n d =
        (n + 1,
         snd (createNotification e
                (weekly_summary_notification (user_id u) (week_total (habitLogs d) (user_id u) now)
                   (week_top (habitLogs d) (habits d) (user_id u) now)) (tick (tick d))))"
  using weekly_try_cases [of e now u d]
  by (elim disjE exE) (auto simp add: weekly_one_def)

lemma weekly_one_no_faults:
  assumes "\<forall>n. faults e n = None"
  shows "weekly_one e now u n d =
        (n + 1,
         snd (createNotification e
                (weekly_summary_notification (user_id u) (week_total (habitLogs d) (user_id u) now)
                   (week_top (habitLogs d) (habits d) (user_id u) now)) (tick (tick d))))"
  using assms weekly_try_cases [of e now u d]
  by (auto simp add: weekly_one_def weekly_try_def and_then_def habitLog_groupBy_def
      habit_findMany_in_def await_no_faults)

lemma weekly_one_frame [simp]:
  "users (snd (weekly_one e now u n d)) = users d"
  "habits (snd (weekly_one e now u n d)) = habits d"
  "habitLogs (snd (weekly_one e now u n d)) = habitLogs d"
  using weekly_one_cases [of e now u n d] by auto

lemma weekly_one_counts:
  "fst (weekly_one e now u n d) + report_errors (snd (weekly_one e now u n d))
     = Suc (n + report_errors d)"
proof -
  have line: "report_errors (console_error (''Error generating weekly report for user '' @ rest) dt)
                = Suc (report_errors dt)" for rest dt
    using report_line_is_report_error [of rest]
    by (simp only: report_errors_def console_error_fields filter_append filter.simps if_True
        length_append list.size)
  from weekly_one_cases [of e now u n d]
  consider (group) err where
      "weekly_one e now u n d =
         (n, console_error (''Error generating weekly report for user '' @ show_nat (user_id u)
                            @ '': '' @ message err) (tick d))"
    | (names) err where
      "weekly_one e now u n d =
         (n, console_error (''Error generating weekly report for user '' @ show_nat (user_id u)
                            @ '': '' @ message err) (tick (tick d)))"
    | (reported) "weekly_one e now u n d =
        (n + 1,
         snd (createNotification e
                (weekly_summary_notification (user_id u) (week_total (habitLogs d) (user_id u) now)
                   (week_top (habitLogs d) (habits d) (user_id u) now)) (tick (tick d))))"
    by blast
  then show ?thesis
  proof cases
    case group
    show ?thesis
      unfolding group fst_conv snd_conv line by simp
  next
    case names
    show ?thesis
      unfolding names fst_conv snd_conv line by simp
  next
    case reported
    show ?thesis
      unfolding reported fst_conv snd_conv by simp
  qed
qed

lemma weekly_loop_frame [simp]:
  "users (snd (weekly_loop e now us n d)) = users d"
  "habits (snd (weekly_loop e now us n d)) = habits d"
  "habitLogs (snd (weekly_loop e now us n d)) = habitLogs d"
  by (induction us arbitrary: n d; simp split: prod.splits; metis weekly_one_frame snd_conv)+

lemma weekly_loop_counts:
  "fst (weekly_loop e now us n d) + report_errors (snd (weekly_loop e now us n d))
     = n + report_errors d + length us"
proof (induction us arbitrary: n d)
  case Nil
  then show ?case by simp
next
  case (Cons u us)
  obtain n1 da where one: "weekly_one e now u n d = (n1, da)"
    by (cases "weekly_one e now u n d")
  with weekly_one_counts [of e now u n d] have "n1 + report_errors da = Suc (n + report_errors d)"
    by simp
  with Cons.IH [of n1 da] one show ?case by simp
qed

lemma weekly_one_rows:
  "\<exists>part. notifications (snd (weekly_one e now u n d)) = notifications d @ part
     \<and> (part = [] \<or> (\<exists>row. part = [row] \<and> weekly_row (habitLogs d) (habits d) now row u))"
proof -
  let ?dat = "weekly_summary_notification (user_id u) (week_total (habitLogs d) (user_id u) now)
                (week_top (habitLogs d) (habits d) (user_id u) now)"
  from weekly_one_cases [of e now u n d]
  consider (same) "notifications (snd (weekly_one e now u n d)) = notifications d"
    | (reported) "snd (weekly_one e now u n d) = snd (createNotification e ?dat (tick (tick d)))"
    by (elim disjE exE) simp_all
  then show ?thesis
  proof cases
    case same
    then show ?thesis by simp
  next
    case reported
    from createNotification_rows [of e ?dat "tick (tick d)"] show ?thesis
    proof
      assume "notifications (snd (createNotification e ?dat (tick (tick d)))) = notifications (tick (tick d))"
      with reported show ?thesis by simp
    next
      assume "notifications (snd (createNotification e ?dat (tick (tick d))))
                = notifications (tick (tick d)) @ [next_row (tick (tick d)) ?dat]"
      with reported show ?thesis
        by (intro exI [where x = "[next_row (tick (tick d)) ?dat]"])
           (auto simp add: weekly_row_def next_row_def)
    qed
  qed
qed

lemma weekly_loop_rows:
  "\<exists>parts. notifications (snd (weekly_loop e now us n d)) = notifications d @ concat parts
     \<and> list_all2 (\<lambda>part u. part = [] \<or> (\<exists>row. part = [row]
                      \<and> weekly_row (habitLogs d) (habits d) now row u)) parts us"
proof (induction us arbitrary: n d)
  case Nil
  then show ?case by simp
next
  case (Cons u us)
  obtain n1 da where one: "weekly_one e now u n d = (n1, da)"
    by (cases "weekly_one e now u n d")
  from weekly_one_rows [of e now u n d] one obtain part where
    first: "notifications da = notifications d @ part"
           "part = [] \<or> (\<exists>row. part = [row] \<and> weekly_row (habitLogs d) (habits d) now row u)"
    by auto
  from weekly_one_frame [of e now u n d] one
  have same: "habitLogs da = habitLogs d" "habits da = habits d"
    by simp_all
  from Cons.IH [of n1 da] same obtain parts where
    rest: "notifications (snd (weekly_loop e now us n1 da)) = notifications da @ concat parts"
          "list_all2 (\<lambda>part u. part = [] \<or> (\<exists>row. part = [row]
                      \<and> weekly_row (habitLogs d) (habits d) now row u)) parts us"
    by auto
  from one first rest show ?case
    by (intro exI [where x = "part # parts"]) simp
qed

lemma weekly_loop_no_faults:
  assumes nf: "\<forall>n. faults e n = None"
  shows "\<exists>rows. notifications (snd (weekly_loop e now us n d)) = notifications d @ rows
     \<and> list_all2 (weekly_row (habitLogs d) (habits d) now) rows us"
proof (induction us arbitrary: n d)
  case Nil
  then show ?case by simp
next
  case (Cons u us)
  let ?dat = "weekly_summary_notification (user_id u) (week_total (habitLogs d) (user_id u) now)
                (week_top (habitLogs d) (habits d) (user_id u) now)"
  let ?da = "snd (createNotification e ?dat (tick (tick d)))"
  from weekly_one_no_faults [OF nf, of now u n d]
  have step: "weekly_loop e now (u # us) n d = weekly_loop e now us (n + 1) ?da"
    by simp
  have row: "notifications ?da = notifications d @ [next_row (tick (tick d)) ?dat]"
    using createNotification_no_faults [OF nf, of ?dat "tick (tick d)"] by simp
  have is_row: "weekly_row (habitLogs d) (habits d) now (next_row (tick (tick d)) ?dat) u"
    by (auto simp add: weekly_row_def next_row_def)
  have same: "habitLogs ?da = habitLogs d" "habits ?da = habits d"
    by simp_all
  from Cons.IH [of "n + 1" ?da] same obtain rows where
    rest: "notifications (snd (weekly_loop e now us (n + 1) ?da)) = notifications ?da @ rows"
          "list_all2 (weekly_row (habitLogs d) (habits d) now) rows us"
    by auto
  from row is_row rest show ?case
    unfolding step by (intro exI [where x = "next_row (tick (tick d)) ?dat # rows"]) simp
qed

lemma weekly_body_ok:
  assumes "faults e (ticks d) = None"
  shows "weekly_habit_review_body e now d =
           (Inr [(''usersProcessed'', JNum (int (length (filter opted_in (users d))))),
                 (''reportsGenerated'',
                    JNum (int (fst (weekly_loop e now (filter opted_in (users d)) 0 (tick d)))))],
            snd (weekly_loop e now (filter opted_in (users d)) 0 (tick d)))"
proof -
  have "(\<lambda>u. prefersNotifications u = True \<and> onVacation u = False) = opted_in"
    by (auto simp add: opted_in_def)
  with assms show ?thesis
    by (simp add: weekly_habit_review_body_def and_then_def user_findMany_active_def await_def
        split: prod.splits)
qed

lemma count_list_insort_key: "count_list (insort_key f x xs) a = count_list (x # xs) a"
  by (induction xs) auto

lemma count_list_sort_key: "count_list (sort_key f xs) a = count_list xs a"
  by (induction xs) (simp_all add: count_list_insort_key)

lemma week_top_ranked: "ranked (week_entries logs hs uid now) (week_top logs hs uid now)"
  unfolding ranked_def
proof (intro conjI ballI)
  fix a
  show "count_list (week_top logs hs uid now) a = count_list (week_entries logs hs uid now) a"
    by (simp add: week_top_def week_entries_def count_list_sort_key)
  show "sorted_wrt (\<lambda>a b. snd a \<ge> snd b) (week_top logs hs uid now)"
    by (rule week_top_sorted)
qed

lemma join_comma_comma_separated: "join_comma xs = comma_separated xs"
  by (induction xs rule: join_comma.induct) simp_all

lemma weekly_summary_fields:
  "d_user_id (weekly_summary_notification uid c tops) = uid"
  "d_type (weekly_summary_notification uid c tops) = SYSTEM_MESSAGE"
  "d_related_id (weekly_summary_notification uid c tops) = None"
  "d_action_url (weekly_summary_notification uid c tops) = Some ''/stats''"
  by (simp_all add: weekly_summary_notification_def Let_def split: prod.splits)

lemma weekly_summary_title:
  "d_title (weekly_summary_notification uid c tops) = ''Weekly Summary '' @ summary_emoji c"
  unfolding weekly_summary_notification_def summary_emoji_def Let_def
  by (simp split: prod.splits)

lemma topHabitsText_spec:
  "topHabitsText tops =
     (if tops = [] then ''No habits completed this week.''
      else ''Top habits: '' @ comma_separated (map habit_line (take 3 tops)))"
proof -
  have "(\<lambda>h. fst h @ '' ('' @ show_nat (snd h) @ '' times)'') = habit_line"
    by (rule ext) (simp add: habit_line_def)
  then show ?thesis
    by (simp add: topHabitsText_def join_comma_comma_separated)
qed

lemma weekly_summary_content:
  "d_content (weekly_summary_notification uid c tops) = summary_text c tops"
  unfolding weekly_summary_notification_def summary_text_def encouragement_def Let_def
    topHabitsText_spec
  by (simp split: prod.splits)

lemma weekly_row_summary:
  assumes "weekly_row logs hs now n u"
  shows "weekly_summary_row logs hs now n u"
proof -
  let ?dat = "weekly_summary_notification (user_id u) (week_total logs (user_id u) now)
                (week_top logs hs (user_id u) now)"
  from assms obtain i where n: "n = notification_row i ?dat"
    by (auto simp add: weekly_row_def)
  have fields: "n_user_id n = user_id u" "n_type n = SYSTEM_MESSAGE" "action_url n = Some ''/stats''"
    "related_id n = None" "is_read n = False"
    unfolding n
    by (simp_all add: notification_row_def weekly_summary_fields id_or_null_def url_or_null_def)
  have t: "title n = ''Weekly Summary '' @ summary_emoji (week_total logs (user_id u) now)"
    unfolding n by (simp add: notification_row_def weekly_summary_title)
  have c: "content n = summary_text (week_total logs (user_id u) now) (week_top logs hs (user_id u) now)"
    unfolding n by (simp add: notification_row_def weekly_summary_content)
  from week_top_ranked [of logs hs "user_id u" now] c
  have "\<exists>tops. ranked (week_entries logs hs (user_id u) now) tops
                \<and> content n = summary_text (week_total logs (user_id u) now) tops"
    by blast
  with fields t show ?thesis
    unfolding weekly_summary_row_def by blast
qed


lemma weekly_part_summary:
  assumes "list_all2 (\<lambda>part u. part = [] \<or> (\<exists>row. part = [row] \<and> weekly_row logs hs now row u)) parts us"
  shows "list_all2 (\<lambda>part u. part = [] \<or> (\<exists>row. part = [row] \<and> weekly_summary_row logs hs now row u))
           parts us"
  using assms by (rule list_all2_mono) (auto intro: weekly_row_summary)

text \<open>
  C7. When no call is rejected the weekly digest stores exactly one summary for each user
  who has notifications enabled and is not on vacation, in the order of the user query. The
  summary of a user is a SYSTEM_MESSAGE titled \<open>Weekly Summary\<close> whose text names the number
  of that user's completed logs of the last seven days and the first three habits of a
  ranking of that user's entries: the habits with such a log, each with its count, ordered by
  count from high to low. When a user's report throws, the error is logged and the loop goes
  on: once the user query has succeeded the job completes for every fault plan, each such
  user has either a counted report or a logged error, and no user gets more than one summary.
\<close>

theorem weekly_digest:
  "((\<forall>n. faults e n = None) \<longrightarrow>
      list_all2 (weekly_summary_row (habitLogs d) (habits d) now)
        (drop (length (notifications d)) (notifications (snd (weekly_habit_review e now finish d))))
        (filter opted_in (users d)))
   \<and> (faults e (ticks d) = None \<longrightarrow>
      (\<exists>k parts.
         fst (weekly_habit_review e now finish d) =
           [\<lparr>timestamp = now, job = ''weekly-habit-review'', status = started, details = []\<rparr>,
            \<lparr>timestamp = finish, job = ''weekly-habit-review'', status = completed,
             details = [(''duration'', JStr (show_int (finish - now) @ ''ms'')),
                        (''usersProcessed'', JNum (int (length (filter opted_in (users d))))),
                        (''reportsGenerated'', JNum (int k))]\<rparr>]
         \<and> k + report_errors (snd (weekly_habit_review e now finish d))
             = report_errors d + length (filter opted_in (users d))
         \<and> drop (length (notifications d)) (notifications (snd (weekly_habit_review e now finish d)))
             = concat parts
         \<and> list_all2 (\<lambda>part u. part = [] \<or> (\<exists>row. part = [row]
                          \<and> weekly_summary_row (habitLogs d) (habits d) now row u))
             parts (filter opted_in (users d))))"
proof (intro conjI impI)
  let ?us = "filter opted_in (users d)"
  let ?loop = "weekly_loop e now ?us 0 (tick d)"
  {
    assume ok: "faults e (ticks d) = None"
    have run: "weekly_habit_review e now finish d =
                 ([\<lparr>timestamp = now, job = ''weekly-habit-review'', status = started, details = []\<rparr>,
                   \<lparr>timestamp = finish, job = ''weekly-habit-review'', status = completed,
                    details = [(''duration'', JStr (show_int (finish - now) @ ''ms'')),
                               (''usersProcessed'', JNum (int (length ?us))),
                               (''reportsGenerated'', JNum (int (fst ?loop)))]\<rparr>],
                  snd ?loop)"
      by (simp add: weekly_habit_review_def cron_job_def logJobStatus_def weekly_body_ok [OF ok])
    from weekly_loop_rows [of e now ?us 0 "tick d"] obtain parts where
      parts: "notifications (snd ?loop) = notifications d @ concat parts"
             "list_all2 (\<lambda>part u. part = [] \<or> (\<exists>row. part = [row]
                          \<and> weekly_row (habitLogs d) (habits d) now row u)) parts ?us"
      by auto
    note spec = weekly_part_summary [OF parts(2)]
    from weekly_loop_counts [of e now ?us 0 "tick d"]
    have counts: "fst ?loop + report_errors (snd ?loop) = report_errors d + length ?us"
      by simp
    from run parts(1) spec counts
    show "\<exists>k parts.
         fst (weekly_habit_review e now finish d) =
           [\<lparr>timestamp = now, job = ''weekly-habit-review'', status = started, details = []\<rparr>,
            \<lparr>timestamp = finish, job = ''weekly-habit-review'', status = completed,
             details = [(''duration'', JStr (show_int (finish - now) @ ''ms'')),
                        (''usersProcessed'', JNum (int (length (filter opted_in (users d))))),
                        (''reportsGenerated'', JNum (int k))]\<rparr>]
         \<and> k + report_errors (snd (weekly_habit_review e now finish d))
             = report_errors d + length (filter opted_in (users d))
         \<and> drop (length (notifications d)) (notifications (snd (weekly_habit_review e now finish d)))
             = concat parts
         \<and> list_all2 (\<lambda>part u. part = [] \<or> (\<exists>row. part = [row]
                          \<and> weekly_summary_row (habitLogs d) (habits d) now row u))
             parts (filter opted_in (users d))"
      by (intro exI [where x = "fst ?loop"] exI [where x = parts]) simp
  }
  {
    assume nf: "\<forall>n. faults e n = None"
    then have ok: "faults e (ticks d) = None" by simp
    have db: "snd (weekly_habit_review e now finish d) = snd ?loop"
      by (simp add: weekly_habit_review_def cron_job_db weekly_body_ok [OF ok])
    from weekly_loop_no_faults [OF nf, of now ?us 0 "tick d"] obtain rows where
      rows: "notifications (snd ?loop) = notifications d @ rows"
            "list_all2 (weekly_row (habitLogs d) (habits d) now) rows ?us"
      by auto
    from rows(2) have "list_all2 (weekly_summary_row (habitLogs d) (habits d) now) rows ?us"
      by (rule list_all2_mono) (rule weekly_row_summary)
    with rows(1)
    show "list_all2 (weekly_summary_row (habitLogs d) (habits d) now)
        (drop (length (notifications d)) (notifications (snd (weekly_habit_review e now finish d))))
        (filter opted_in (users d))"
      by (simp add: db)
  }
qed


lemma weekly_no_faults_contents:
  assumes nf: "\<forall>n. faults e n = None"
  shows "map content (drop (length (notifications d))
                        (notifications (snd (weekly_habit_review e now finish d))))
         = map (\<lambda>u. summary_text (week_total (habitLogs d) (user_id u) now)
                       (week_top (habitLogs d) (habits d) (user_id u) now))
             (filter opted_in (users d))"
proof -
  let ?us = "filter opted_in (users d)"
  let ?loop = "weekly_loop e now ?us 0 (tick d)"
  from nf have ok: "faults e (ticks d) = None" by simp
  have db: "snd (weekly_habit_review e now finish d) = snd ?loop"
    by (simp add: weekly_habit_review_def cron_job_db weekly_body_ok [OF ok])
  from weekly_loop_no_faults [OF nf, of now ?us 0 "tick d"] obtain rows where
    rows: "notifications (snd ?loop) = notifications d @ rows"
          "list_all2 (weekly_row (habitLogs d) (habits d) now) rows ?us"
    by auto
  from rows(2) have "list_all2 (\<lambda>n u. content n = summary_text (week_total (habitLogs d) (user_id u) now)
                       (week_top (habitLogs d) (habits d) (user_id u) now)) rows ?us"
    by (rule list_all2_mono)
       (auto simp add: weekly_row_def notification_row_def weekly_summary_content)
  then have "map content rows = map (\<lambda>u. summary_text (week_total (habitLogs d) (user_id u) now)
                       (week_top (habitLogs d) (habits d) (user_id u) now)) ?us"
    by (induction rule: list_all2_induct) simp_all
  with rows(1) show ?thesis by (simp add: db)
qed

text \<open>
  Two users; the first completed Run once and Read twice. With no rejected call both get a
  summary, and the first names Read before Run. When the first user's query is rejected,
  the error is logged and the second user still gets a summary.
\<close>

theorem weekly_digest_witness:
  "(\<forall>n. faults (sample_env no_faults) n = None)
   \<and> length (filter opted_in (users digest_db)) = 2
   \<and> list_all2 (weekly_summary_row (habitLogs digest_db) (habits digest_db) 1000)
        (drop (length (notifications digest_db))
           (notifications (snd (weekly_habit_review (sample_env no_faults) 1000 1005 digest_db))))
        (filter opted_in (users digest_db))
   \<and> map content (drop (length (notifications digest_db))
          (notifications (snd (weekly_habit_review (sample_env no_faults) 1000 1005 digest_db))))
        = [''You completed 3 habits this week! Top habits: Read (2 times), Run (1 times) You're making progress!'',
           ''You completed 0 habits this week! No habits completed this week. Let's set some goals for next week!'']
   \<and> week_entries (habitLogs digest_db) (habits digest_db) 1 1000 = [(''Run'', 1), (''Read'', 2)]
   \<and> ranked [(''Run'', 1), (''Read'', 2)] [(''Read'', 2), (''Run'', 1)]
   \<and> faults (sample_env (fail_at 1)) (ticks digest_db) = None
   \<and> map n_user_id (notifications (snd (weekly_habit_review (sample_env (fail_at 1)) 1000 1005 digest_db)))
        = [2]
   \<and> report_errors (snd (weekly_habit_review (sample_env (fail_at 1)) 1000 1005 digest_db)) = 1
   \<and> (\<exists>k. k + report_errors (snd (weekly_habit_review (sample_env (fail_at 1)) 1000 1005 digest_db))
           = report_errors digest_db + length (filter opted_in (users digest_db)))"
proof -
  have nf: "\<forall>n. faults (sample_env no_faults) n = None"
    by (simp add: sample_env_def no_faults_def)
  have two: "length (filter opted_in (users digest_db)) = 2"
    by (simp add: digest_db_def sample_db_def opted_in_def sample_user_def)
  have us: "filter opted_in (users digest_db) = [sample_user, sample_user\<lparr>user_id := 2, user_name := ''bob''\<rparr>]"
    by (simp add: digest_db_def sample_db_def opted_in_def sample_user_def)
  have t1: "summary_text (week_total (habitLogs digest_db) 1 1000)
              (week_top (habitLogs digest_db) (habits digest_db) 1 1000)
            = ''You completed 3 habits this week! Top habits: Read (2 times), Run (1 times) You're making progress!''"
    by code_simp
  have t2: "summary_text (week_total (habitLogs digest_db) 2 1000)
              (week_top (habitLogs digest_db) (habits digest_db) 2 1000)
            = ''You completed 0 habits this week! No habits completed this week. Let's set some goals for next week!''"
    by code_simp
  have texts: "map content (drop (length (notifications digest_db))
          (notifications (snd (weekly_habit_review (sample_env no_faults) 1000 1005 digest_db))))
        = [''You completed 3 habits this week! Top habits: Read (2 times), Run (1 times) You're making progress!'',
           ''You completed 0 habits this week! No habits completed this week. Let's set some goals for next week!'']"
    unfolding weekly_no_faults_contents [OF nf] us
    using t1 t2 by (simp add: sample_user_def)
  have entries: "week_entries (habitLogs digest_db) (habits digest_db) 1 1000 = [(''Run'', 1), (''Read'', 2)]"
    by code_simp
  have ranking: "ranked [(''Run'', 1), (''Read'', 2)] [(''Read'', 2), (''Run'', 1)]"
    by (simp add: ranked_def)
  have ok: "faults (sample_env (fail_at 1)) (ticks digest_db) = None"
    by (simp add: sample_env_def fail_at_def digest_db_def sample_db_def)
  have second: "map n_user_id (notifications (snd (weekly_habit_review (sample_env (fail_at 1)) 1000 1005
                  digest_db))) = [2]"
    by code_simp
  have zero: "report_errors digest_db = 0"
    by (simp add: report_errors_def digest_db_def sample_db_def)
  from weekly_digest [of "sample_env no_faults" digest_db 1000 1005] nf
  have all: "list_all2 (weekly_summary_row (habitLogs digest_db) (habits digest_db) 1000)
        (drop (length (notifications digest_db))
           (notifications (snd (weekly_habit_review (sample_env no_faults) 1000 1005 digest_db))))
        (filter opted_in (users digest_db))"
    by blast
  have errs: "report_errors (snd (weekly_habit_review (sample_env (fail_at 1)) 1000 1005 digest_db)) = 1"
    by code_simp
  from weekly_digest [of "sample_env (fail_at 1)" digest_db 1000 1005] ok
  have caught: "\<exists>k. k + report_errors (snd (weekly_habit_review (sample_env (fail_at 1)) 1000 1005 digest_db))
           = report_errors digest_db + length (filter opted_in (users digest_db))"
    by blast
  from nf two all texts entries ranking ok second errs caught show ?thesis by blast
qed

section \<open>Rows that a dispatch pass leaves alone\<close>

lemma reminder_update_rows:
  "scheduledReminders (snd (reminder_update e rid f d)) = scheduledReminders d
   \<or> scheduledReminders (snd (reminder_update e rid f d)) = update_row rid f (scheduledReminders d)"
  by (simp add: reminder_update_def split: option.splits)

lemma reminder_update_result:
  "fst (reminder_update e rid f d) = Inr () \<or> scheduledReminders (snd (reminder_update e rid f d)) = scheduledReminders d"
  by (simp add: reminder_update_def split: option.splits)

lemma update_row_other:
  "r \<in> set rs \<Longrightarrow> scheduled_reminder_id r \<noteq> rid \<Longrightarrow> r \<in> set (update_row rid f rs)"
  by (auto simp add: update_row_def)

lemma snd_and_then:
  "snd (and_then m k d) = (case fst (m d) of Inl err \<Rightarrow> snd (m d) | Inr x \<Rightarrow> snd (k x (snd (m d))))"
  by (simp add: and_then_def split: prod.splits sum.splits)

lemma reminder_update_keeps:
  assumes "r \<in> set (scheduledReminders d)" "scheduled_reminder_id r \<noteq> rid"
  shows "r \<in> set (scheduledReminders (snd (reminder_update e rid f d)))"
  using assms reminder_update_rows [of e rid f d]
  by (auto simp add: update_row_other)

lemma update_then_count_keeps:
  assumes "r \<in> set (scheduledReminders d)" "scheduled_reminder_id r \<noteq> rid"
  shows "r \<in> set (scheduledReminders (snd (and_then (reminder_update e rid f) (\<lambda>_ d. (Inr res, d)) d)))"
  using reminder_update_keeps [OF assms, of e f]
  by (simp add: snd_and_then split: sum.splits)

lemma dispatch_try_keeps:
  assumes "r \<in> set (scheduledReminders d)" "scheduled_reminder_id r \<noteq> scheduled_reminder_id (fst x)"
  shows "r \<in> set (scheduledReminders (snd (dispatch_try e now x res d)))"
proof -
  obtain reminder rhabit ruser where x: "x = (reminder, rhabit, ruser)"
    by (cases x)
  let ?rid = "scheduled_reminder_id reminder"
  from assms(2) x have other: "scheduled_reminder_id r \<noteq> ?rid" by simp
  show ?thesis
  proof (cases ruser)
    case None
    with x assms show ?thesis by (simp add: dispatch_try_def)
  next
    case (Some u)
    show ?thesis
    proof (cases "\<not> prefersNotifications u \<or> onVacation u")
      case True
      then have "dispatch_try e now x res d =
                   and_then (reminder_update e ?rid (mark_skipped now ''User preferences or status''))
                     (\<lambda>_ d. (Inr (res\<lparr>skipped := skipped res + 1\<rparr>), d)) d"
        using x Some by (simp add: dispatch_try_def)
      with update_then_count_keeps [OF assms(1) other] show ?thesis by simp
    next
      case False
      let ?c = "call_isHabitCompletedForDate e (r_habit_id reminder) (r_user_id reminder) now"
      from call_completed_cases [of e "r_habit_id reminder" "r_user_id reminder" now d]
      consider (rejected) err where "?c d = (Inl err, tick d)"
        | (answered) "?c d = (Inr (isHabitCompletedForDate e (r_habit_id reminder) (r_user_id reminder) now), tick d)"
        by blast
      then show ?thesis
      proof cases
        case rejected
        with False x Some assms(1) show ?thesis
          by (simp add: dispatch_try_def and_then_def)
      next
        case answered
        have in_tick: "r \<in> set (scheduledReminders (tick d))"
          using assms(1) by simp
        show ?thesis
        proof (cases "isHabitCompletedForDate e (r_habit_id reminder) (r_user_id reminder) now")
          case True
          with False x Some answered
          have "dispatch_try e now x res d =
                  and_then (reminder_update e ?rid (mark_skipped now ''Already completed''))
                    (\<lambda>_ d. (Inr (res\<lparr>skipped := skipped res + 1\<rparr>), d)) (tick d)"
            by (simp add: dispatch_try_def and_then_def)
          with update_then_count_keeps [OF in_tick other] show ?thesis by simp
        next
          case not_completed: False
          obtain out dn where n: "createNotification e (reminder_notification reminder rhabit) (tick d)
                                    = (out, dn)"
            by (cases "createNotification e (reminder_notification reminder rhabit) (tick d)")
          from createNotification_frame(4) [of e "reminder_notification reminder rhabit" "tick d"] n
          have in_n: "r \<in> set (scheduledReminders dn)"
            using assms(1) by simp
          show ?thesis
          proof (cases out)
            case None
            with n False x Some answered not_completed
            have "snd (dispatch_try e now x res d) = dn"
              by (simp add: dispatch_try_def and_then_def)
            with in_n show ?thesis by simp
          next
            case (Some n')
            with n False x \<open>ruser = Some u\<close> answered not_completed
            have "dispatch_try e now x res d =
                    and_then (reminder_update e ?rid (mark_sent now))
                      (\<lambda>_ d. (Inr (res\<lparr>sent := sent res + 1\<rparr>), d)) dn"
              by (simp add: dispatch_try_def and_then_def)
            with update_then_count_keeps [OF in_n other] show ?thesis by simp
          qed
        qed
      qed
    qed
  qed
qed

lemma dispatch_one_keeps:
  assumes "r \<in> set (scheduledReminders d)" "scheduled_reminder_id r \<noteq> scheduled_reminder_id (fst x)"
  shows "r \<in> set (scheduledReminders (snd (dispatch_one e now x res d)))"
proof -
  obtain out dt where t: "dispatch_try e now x res d = (out, dt)"
    by (cases "dispatch_try e now x res d")
  with dispatch_try_keeps [OF assms, of e now res] have in_dt: "r \<in> set (scheduledReminders dt)"
    by simp
  show ?thesis
  proof (cases out)
    case (Inr res')
    with t in_dt show ?thesis by (simp add: dispatch_one_def)
  next
    case (Inl err)
    let ?dc = "console_error (''Error processing reminder '' @ show_nat (scheduled_reminder_id (fst x))
                            @ '':'' @ '' '' @ stack err) dt"
    from in_dt have "r \<in> set (scheduledReminders ?dc)" by simp
    from update_then_count_keeps [OF this assms(2)] t Inl show ?thesis
      by (simp add: dispatch_one_def)
  qed
qed

lemma dispatch_loop_keeps:
  assumes "r \<in> set (scheduledReminders d)"
    and "\<forall>x \<in> set xs. scheduled_reminder_id r \<noteq> scheduled_reminder_id (fst x)"
  shows "r \<in> set (scheduledReminders (snd (dispatch_loop e now xs res d)))"
  using assms
proof (induction xs arbitrary: res d)
  case Nil
  then show ?case by simp
next
  case (Cons x xs)
  obtain out da where one: "dispatch_one e now x res d = (out, da)"
    by (cases "dispatch_one e now x res d")
  from Cons.prems dispatch_one_keeps [of r d x e now res] one
  have "r \<in> set (scheduledReminders da)" by simp
  with Cons.IH [of da] Cons.prems(2) one show ?case
    by (cases out) simp_all
qed

text \<open>
  The SENT and SKIPPED branches set \<open>is_sent\<close>, which takes the row out of the due set:
  with distinct keys, a later pass leaves such a row as it is, whatever calls are rejected.
\<close>

lemma settled_rows_are_left_alone:
  assumes "distinct (map scheduled_reminder_id (scheduledReminders d))"
    and "r \<in> set (scheduledReminders d)" and "is_sent r"
  shows "r \<in> set (scheduledReminders (snd (process_reminders e now finish d)))"
proof -
  let ?due = "map (join_reminder d) (filter (is_due now) (scheduledReminders d))"
  have other: "\<forall>x \<in> set ?due. scheduled_reminder_id r \<noteq> scheduled_reminder_id (fst x)"
  proof
    fix x assume "x \<in> set ?due"
    then obtain r' where r': "r' \<in> set (scheduledReminders d)" "is_due now r'" "fst x = r'"
      by (auto simp add: join_reminder_def)
    with assms(3) have "r' \<noteq> r" by (auto simp add: is_due_def)
    with assms(1,2) r'(1) have "scheduled_reminder_id r' \<noteq> scheduled_reminder_id r"
      by (auto simp add: distinct_map inj_on_def)
    with r'(3) show "scheduled_reminder_id r \<noteq> scheduled_reminder_id (fst x)" by simp
  qed
  have "snd (process_reminders e now finish d) = tick d
        \<or> (\<exists>res. snd (process_reminders e now finish d) = snd (dispatch_loop e now ?due res (tick d)))"
    by (cases "faults e (ticks d)")
       (simp_all add: process_reminders_def process_reminders_body_def cron_job_db snd_and_then dispatch_def
          find_due_reminders_def await_def split: sum.splits, blast)
  with dispatch_loop_keeps [of r "tick d" ?due e now] other assms(2) show ?thesis
    by auto
qed

section \<open>The dispatch pass as a whole\<close>

lemma join_reminder_parts: "join_reminder d r = (r, habit_of d r, owner_of d r)"
  by (simp add: join_reminder_def habit_of_def owner_of_def)

lemma is_due_in_due_set: "is_due now = in_due_set now"
  by (rule ext) (simp add: is_due_def in_due_set_def)

lemma settled_as_id [simp]: "scheduled_reminder_id (settled_as now v r) = scheduled_reminder_id r"
  by (cases v) (simp_all add: settled_as_def)

lemma mark_is_settled_as:
  "mark_skipped now ''User preferences or status'' = settled_as now Skip_preferences"
  "mark_skipped now ''Already completed'' = settled_as now Skip_completed"
  "mark_sent now = settled_as now Send"
  "mark_failed (message (null_property ''prefersNotifications'')) = settled_as now Fail_no_owner"
  by (rule ext, simp add: mark_skipped_def mark_sent_def mark_failed_def settled_as_def)+

lemma mark_failed_marked: "marked_failed r (mark_failed reason r)"
  by (simp add: marked_failed_def mark_failed_def)

lemma reminder_update_cases:
  "(\<exists>err. reminder_update e rid f d = (Inl err, tick d))
   \<or> reminder_update e rid f d =
        (Inr (), tick (d\<lparr>scheduledReminders := update_row rid f (scheduledReminders d)\<rparr>))"
  by (simp add: reminder_update_def split: option.splits)

lemma update_then_count_cases:
  "(\<exists>err. and_then (reminder_update e rid f) (\<lambda>_ d. (Inr res', d)) d = (Inl err, tick d))
   \<or> and_then (reminder_update e rid f) (\<lambda>_ d. (Inr res', d)) d =
        (Inr res', tick (d\<lparr>scheduledReminders := update_row rid f (scheduledReminders d)\<rparr>))"
  using reminder_update_cases [of e rid f d] by (auto simp add: and_then_def)

lemma update_then_count_rows:
  assumes "and_then (reminder_update e rid f) (\<lambda>_ d. (Inr res', d)) d = (out, dt)"
  shows "case out of
           Inl err \<Rightarrow> scheduledReminders dt = scheduledReminders d
         | Inr res'' \<Rightarrow> scheduledReminders dt = update_row rid f (scheduledReminders d)"
  using assms update_then_count_cases [of e rid f res' d] by auto

lemma dispatch_try_outcome:
  assumes "dispatch_try e now (join_reminder d0 r) res d = (out, dt)"
  shows "case out of
           Inl err \<Rightarrow> scheduledReminders dt = scheduledReminders d
         | Inr res' \<Rightarrow>
             scheduledReminders dt =
               update_row (scheduled_reminder_id r) (settled_as now (verdict_of e now d0 r))
                 (scheduledReminders d)"
proof -
  let ?rid = "scheduled_reminder_id r"
  let ?x = "(r, habit_of d0 r, owner_of d0 r)"
  from assms have t: "dispatch_try e now ?x res d = (out, dt)"
    by (simp add: join_reminder_parts)
  show ?thesis
  proof (cases "owner_of d0 r")
    case None
    with t show ?thesis by (auto simp add: dispatch_try_def)
  next
    case (Some u)
    show ?thesis
    proof (cases "\<not> prefersNotifications u \<or> onVacation u")
      case True
      with Some have v: "verdict_of e now d0 r = Skip_preferences"
        by (simp add: verdict_of_def)
      from True Some t
      have "and_then (reminder_update e ?rid (mark_skipped now ''User preferences or status''))
              (\<lambda>_ d. (Inr (res\<lparr>skipped := skipped res + 1\<rparr>), d)) d = (out, dt)"
        by (simp add: dispatch_try_def)
      from update_then_count_rows [OF this] show ?thesis
        unfolding v mark_is_settled_as .
    next
      case False
      let ?c = "call_isHabitCompletedForDate e (r_habit_id r) (r_user_id r) now"
      from call_completed_cases [of e "r_habit_id r" "r_user_id r" now d]
      consider (rejected) err where "?c d = (Inl err, tick d)"
        | (answered) "?c d = (Inr (isHabitCompletedForDate e (r_habit_id r) (r_user_id r) now), tick d)"
        by blast
      then show ?thesis
      proof cases
        case rejected
        with False Some t show ?thesis
          by (auto simp add: dispatch_try_def and_then_def)
      next
        case answered
        show ?thesis
        proof (cases "isHabitCompletedForDate e (r_habit_id r) (r_user_id r) now")
          case True
          with False Some have v: "verdict_of e now d0 r = Skip_completed"
            by (simp add: verdict_of_def)
          from True False Some answered t
          have "and_then (reminder_update e ?rid (mark_skipped now ''Already completed''))
                  (\<lambda>_ d. (Inr (res\<lparr>skipped := skipped res + 1\<rparr>), d)) (tick d) = (out, dt)"
            by (simp add: dispatch_try_def and_then_def)
          from update_then_count_rows [OF this] show ?thesis
            unfolding v mark_is_settled_as by (cases out) simp_all
        next
          case not_completed: False
          with False Some have v: "verdict_of e now d0 r = Send"
            by (simp add: verdict_of_def)
          obtain made dn where n: "createNotification e (reminder_notification r (habit_of d0 r)) (tick d)
                                  = (made, dn)"
            by (cases "createNotification e (reminder_notification r (habit_of d0 r)) (tick d)")
          from createNotification_frame(4) [of e "reminder_notification r (habit_of d0 r)" "tick d"] n
          have rows: "scheduledReminders dn = scheduledReminders d"
            by simp
          show ?thesis
          proof (cases made)
            case None
            with n False Some answered not_completed t
            have "out = Inl (undefined_property ''id'')" "dt = dn"
              by (simp_all add: dispatch_try_def and_then_def)
            with rows show ?thesis by simp
          next
            case (Some n')
            with n False \<open>owner_of d0 r = Some u\<close> answered not_completed t
            have "and_then (reminder_update e ?rid (mark_sent now))
                    (\<lambda>_ d. (Inr (res\<lparr>sent := sent res + 1\<rparr>), d)) dn = (out, dt)"
              by (simp add: dispatch_try_def and_then_def)
            from update_then_count_rows [OF this] rows show ?thesis
              unfolding v mark_is_settled_as by (cases out) simp_all
          qed
        qed
      qed
    qed
  qed
qed

lemma dispatch_one_outcome:
  assumes "dispatch_one e now (join_reminder d0 r) res d = (out, d')"
  shows "case out of
           Inl err \<Rightarrow> scheduledReminders d' = scheduledReminders d
         | Inr res' \<Rightarrow>
             scheduledReminders d' =
               update_row (scheduled_reminder_id r) (settled_as now (verdict_of e now d0 r))
                 (scheduledReminders d)
             \<or> (\<exists>reason. scheduledReminders d' =
                   update_row (scheduled_reminder_id r) (mark_failed reason) (scheduledReminders d))"
proof -
  let ?x = "join_reminder d0 r"
  have fx: "fst ?x = r" by (simp add: join_reminder_def)
  obtain tried dt where t: "dispatch_try e now ?x res d = (tried, dt)"
    by (cases "dispatch_try e now ?x res d")
  note tr = dispatch_try_outcome [OF t]
  show ?thesis
  proof (cases tried)
    case (Inr res')
    with t assms have "out = Inr res'" "d' = dt"
      by (simp_all add: dispatch_one_def)
    with tr Inr show ?thesis by simp
  next
    case (Inl err)
    let ?dc = "console_error (''Error processing reminder '' @ show_nat (scheduled_reminder_id r)
                            @ '':'' @ '' '' @ stack err) dt"
    from Inl t assms fx
    have "and_then (reminder_update e (scheduled_reminder_id r) (mark_failed (message err)))
            (\<lambda>_ d. (Inr (res\<lparr>failed_count := failed_count res + 1\<rparr>), d)) ?dc = (out, d')"
      by (simp add: dispatch_one_def)
    from update_then_count_rows [OF this] tr Inl show ?thesis
      by (cases out) auto
  qed
qed

lemma same_key_same_row:
  assumes "distinct (map scheduled_reminder_id rows)" "x \<in> set rows" "y \<in> set rows"
    and "scheduled_reminder_id x = scheduled_reminder_id y"
  shows "x = y"
  using assms by (auto simp add: distinct_map dest: inj_onD)

lemma update_row_map:
  "update_row rid f rows = map (\<lambda>x. if scheduled_reminder_id x = rid then f x else x) rows"
  by (simp add: update_row_def)

lemma dispatch_loop_settles:
  assumes "distinct (map scheduled_reminder_id (scheduledReminders d))"
    and "distinct (map scheduled_reminder_id rs)"
    and "set rs \<subseteq> set (scheduledReminders d)"
    and "dispatch_loop e now (map (join_reminder d0) rs) res d = (out, d')"
  shows "\<exists>k\<le>length rs.
           (case out of Inl err \<Rightarrow> k < length rs | Inr res' \<Rightarrow> k = length rs)
           \<and> list_all2 (\<lambda>r r'. if scheduled_reminder_id r \<in> scheduled_reminder_id ` set (take k rs)
                                then settled e now d0 r r' else r' = r)
               (scheduledReminders d) (scheduledReminders d')"
  using assms
proof (induction rs arbitrary: res d)
  case Nil
  then show ?case by (auto simp add: list_all2_same)
next
  case (Cons r rs)
  let ?rid = "scheduled_reminder_id r"
  obtain first da where one: "dispatch_one e now (join_reminder d0 r) res d = (first, da)"
    by (cases "dispatch_one e now (join_reminder d0 r) res d")
  note step = dispatch_one_outcome [OF one]
  show ?case
  proof (cases first)
    case (Inl err)
    with one Cons.prems(4) have "out = Inl err" "d' = da" by simp_all
    with step Inl have "scheduledReminders d' = scheduledReminders d" by simp
    with \<open>out = Inl err\<close> show ?thesis
      by (intro exI [where x = 0]) (simp add: list_all2_same)
  next
    case (Inr res1)
    with one Cons.prems(4)
    have rest: "dispatch_loop e now (map (join_reminder d0) rs) res1 da = (out, d')" by simp
    from step Inr obtain f where
      rows: "scheduledReminders da = update_row ?rid f (scheduledReminders d)"
      and keeps: "\<And>x. scheduled_reminder_id (f x) = scheduled_reminder_id x"
      and done_r: "settled e now d0 r (f r)"
    proof -
      from step Inr
      consider (verdict) "scheduledReminders da =
                   update_row ?rid (settled_as now (verdict_of e now d0 r)) (scheduledReminders d)"
        | (failed) reason where "scheduledReminders da =
                   update_row ?rid (mark_failed reason) (scheduledReminders d)"
        by auto
      then show ?thesis
      proof cases
        case verdict
        show ?thesis
          by (rule that [of "settled_as now (verdict_of e now d0 r)"])
             (simp_all add: verdict settled_def)
      next
        case failed
        show ?thesis
          by (rule that [of "mark_failed reason"])
             (simp_all add: failed settled_def mark_failed_marked)
      qed
    qed
    from Cons.prems(1) keeps have d1: "distinct (map scheduled_reminder_id (scheduledReminders da))"
      by (simp add: rows)
    from Cons.prems(2) have d2: "distinct (map scheduled_reminder_id rs)"
      and fresh: "?rid \<notin> scheduled_reminder_id ` set rs"
      by simp_all
    have sub: "set rs \<subseteq> set (scheduledReminders da)"
    proof
      fix x assume x: "x \<in> set rs"
      with fresh have "scheduled_reminder_id x \<noteq> ?rid" by (metis imageI)
      moreover from x Cons.prems(3) have "x \<in> set (scheduledReminders d)" by auto
      ultimately show "x \<in> set (scheduledReminders da)"
        unfolding rows by (simp add: update_row_other)
    qed
    from Cons.IH [OF d1 d2 sub rest] obtain k where
      k: "k \<le> length rs" "case out of Inl err \<Rightarrow> k < length rs | Inr res' \<Rightarrow> k = length rs"
      and rel: "list_all2 (\<lambda>r r'. if scheduled_reminder_id r \<in> scheduled_reminder_id ` set (take k rs)
                                then settled e now d0 r r' else r' = r)
               (scheduledReminders da) (scheduledReminders d')"
      by blast
    from Cons.prems(3) have r_in: "r \<in> set (scheduledReminders d)" by simp
    have "list_all2 (\<lambda>x r'. if scheduled_reminder_id x \<in> scheduled_reminder_id ` set (take (Suc k) (r # rs))
                                then settled e now d0 x r' else r' = x)
               (scheduledReminders d) (scheduledReminders d')"
    proof -
      let ?g = "\<lambda>x. if scheduled_reminder_id x = ?rid then f x else x"
      from rel have "list_all2 (\<lambda>x r'. if scheduled_reminder_id (?g x)
                                              \<in> scheduled_reminder_id ` set (take k rs)
                                then settled e now d0 (?g x) r' else r' = ?g x)
               (scheduledReminders d) (scheduledReminders d')"
        unfolding rows update_row_map list_all2_map1 .
      then show ?thesis
      proof (rule list.rel_mono_strong)
        fix x r'
        assume x: "x \<in> set (scheduledReminders d)"
          and g: "if scheduled_reminder_id (?g x) \<in> scheduled_reminder_id ` set (take k rs)
                  then settled e now d0 (?g x) r' else r' = ?g x"
        show "if scheduled_reminder_id x \<in> scheduled_reminder_id ` set (take (Suc k) (r # rs))
              then settled e now d0 x r' else r' = x"
        proof (cases "scheduled_reminder_id x = ?rid")
          case True
          with same_key_same_row [OF Cons.prems(1) x r_in] have xr: "x = r" by simp
          from fresh have "?rid \<notin> scheduled_reminder_id ` set (take k rs)"
            using set_take_subset [of k rs] by blast
          with g True keeps have "r' = f r" by (simp add: xr)
          with done_r show ?thesis by (simp add: xr)
        next
          case False
          with g show ?thesis by auto
        qed
      qed
    qed
    with k show ?thesis
      by (intro exI [where x = "Suc k"]) (cases out; simp)
  qed
qed

lemma due_keys:
  assumes "distinct (map scheduled_reminder_id rows)" "x \<in> set rows"
  shows "scheduled_reminder_id x \<in> scheduled_reminder_id ` set (filter (in_due_set now) rows)
         \<longleftrightarrow> in_due_set now x"
proof
  assume "scheduled_reminder_id x \<in> scheduled_reminder_id ` set (filter (in_due_set now) rows)"
  then obtain y where y: "y \<in> set rows" "in_due_set now y"
    "scheduled_reminder_id x = scheduled_reminder_id y"
    by auto
  with same_key_same_row [OF assms(1) assms(2) y(1)] show "in_due_set now x" by simp
next
  assume "in_due_set now x"
  with assms(2) show "scheduled_reminder_id x \<in> scheduled_reminder_id ` set (filter (in_due_set now) rows)"
    by auto
qed

lemma dispatch_cases:
  "(\<exists>err. faults e (ticks d) = Some err \<and> dispatch e now d = (Inl err, tick d))
   \<or> (faults e (ticks d) = None
      \<and> dispatch e now d =
          dispatch_loop e now (map (join_reminder d) (filter (in_due_set now) (scheduledReminders d)))
            \<lparr>processed = length (filter (in_due_set now) (scheduledReminders d)),
             sent = 0, skipped = 0, failed_count = 0\<rparr> (tick d))"
  by (cases "faults e (ticks d)")
     (simp_all add: dispatch_def and_then_def find_due_reminders_def await_def is_due_in_due_set)

lemma dispatch_settles:
  assumes dist: "distinct (map scheduled_reminder_id (scheduledReminders d))"
    and run: "dispatch e now d = (out, d')"
  shows "\<exists>k\<le>length (filter (in_due_set now) (scheduledReminders d)).
           (case out of
              Inl err \<Rightarrow> k < length (filter (in_due_set now) (scheduledReminders d))
                          \<or> faults e (ticks d) = Some err
            | Inr counts \<Rightarrow> k = length (filter (in_due_set now) (scheduledReminders d)))
           \<and> list_all2 (\<lambda>r r'. if scheduled_reminder_id r \<in> scheduled_reminder_id `
                                     set (take k (filter (in_due_set now) (scheduledReminders d)))
                                then settled e now d r r' else r' = r)
               (scheduledReminders d) (scheduledReminders d')"
proof -
  let ?dues = "filter (in_due_set now) (scheduledReminders d)"
  from dispatch_cases [of e d now]
  consider (query) err where "faults e (ticks d) = Some err" "dispatch e now d = (Inl err, tick d)"
    | (loop) "dispatch e now d =
          dispatch_loop e now (map (join_reminder d) ?dues)
            \<lparr>processed = length ?dues, sent = 0, skipped = 0, failed_count = 0\<rparr> (tick d)"
    by blast
  then show ?thesis
  proof cases
    case query
    with run have "out = Inl err" "d' = tick d" by simp_all
    with query(1) show ?thesis
      by (intro exI [where x = 0]) (simp add: list_all2_same)
  next
    case loop
    with run have l: "dispatch_loop e now (map (join_reminder d) ?dues)
            \<lparr>processed = length ?dues, sent = 0, skipped = 0, failed_count = 0\<rparr> (tick d) = (out, d')"
      by simp
    from dist have d1: "distinct (map scheduled_reminder_id (scheduledReminders (tick d)))" by simp
    from dist have d2: "distinct (map scheduled_reminder_id ?dues)"
      by (rule distinct_map_filter)
    have sub: "set ?dues \<subseteq> set (scheduledReminders (tick d))" by auto
    from dispatch_loop_settles [OF d1 d2 sub l] obtain k where
      "k \<le> length ?dues" "case out of Inl err \<Rightarrow> k < length ?dues | Inr res' \<Rightarrow> k = length ?dues"
      "list_all2 (\<lambda>r r'. if scheduled_reminder_id r \<in> scheduled_reminder_id ` set (take k ?dues)
                                then settled e now d r r' else r' = r)
               (scheduledReminders d) (scheduledReminders d')"
      by auto
    then show ?thesis
      by (intro exI [where x = k]) (cases out; simp)
  qed
qed

lemma dispatch_returns_settled:
  assumes dist: "distinct (map scheduled_reminder_id (scheduledReminders d))"
    and run: "dispatch e now d = (Inr counts, d')"
  shows "list_all2 (\<lambda>r r'. if in_due_set now r then settled e now d r r' else r' = r)
           (scheduledReminders d) (scheduledReminders d')"
proof -
  let ?dues = "filter (in_due_set now) (scheduledReminders d)"
  from dispatch_settles [OF dist run]
  have "list_all2 (\<lambda>r r'. if scheduled_reminder_id r \<in> scheduled_reminder_id ` set ?dues
                                then settled e now d r r' else r' = r)
               (scheduledReminders d) (scheduledReminders d')"
    by auto
  then show ?thesis
  proof (rule list.rel_mono_strong)
    fix r r'
    assume r: "r \<in> set (scheduledReminders d)"
      and "if scheduled_reminder_id r \<in> scheduled_reminder_id ` set ?dues
           then settled e now d r r' else r' = r"
    with due_keys [OF dist r, of now]
    show "if in_due_set now r then settled e now d r r' else r' = r"
      by (simp split: if_splits)
  qed
qed

lemma reminder_note_row:
  "reminder_note d0 (notification_row i (reminder_notification r (habit_of d0 r))) r"
  by (simp add: reminder_note_def notification_row_def reminder_notification_def reminder_title_def
      id_or_null_def url_or_null_def)

lemma reminder_push_row:
  "reminder_push d0 (push_of (reminder_notification r (habit_of d0 r)) n) r"
  by (simp add: reminder_push_def push_of_def reminder_notification_def reminder_title_def)

lemma dispatch_one_no_faults:
  assumes nf: "\<forall>n. faults e n = None"
    and present: "scheduled_reminder_id r \<in> set (map scheduled_reminder_id (scheduledReminders d))"
  shows "fst (dispatch_one e now (join_reminder d0 r) res d) =
           Inr (case verdict_of e now d0 r of
                  Send \<Rightarrow> res\<lparr>sent := sent res + 1\<rparr>
                | Fail_no_owner \<Rightarrow> res\<lparr>failed_count := failed_count res + 1\<rparr>
                | Skip_preferences \<Rightarrow> res\<lparr>skipped := skipped res + 1\<rparr>
                | Skip_completed \<Rightarrow> res\<lparr>skipped := skipped res + 1\<rparr>)"
    and "scheduledReminders (snd (dispatch_one e now (join_reminder d0 r) res d)) =
           update_row (scheduled_reminder_id r) (settled_as now (verdict_of e now d0 r))
             (scheduledReminders d)"
    and "notifications (snd (dispatch_one e now (join_reminder d0 r) res d)) =
           notifications d @
             (if verdict_of e now d0 r = Send
              then [next_row d (reminder_notification r (habit_of d0 r))] else [])"
    and "pushes (snd (dispatch_one e now (join_reminder d0 r) res d)) =
           pushes d @
             (if verdict_of e now d0 r = Send
              then [push_of (reminder_notification r (habit_of d0 r))
                      (next_row d (reminder_notification r (habit_of d0 r)))] else [])"
proof -
  let ?x = "join_reminder d0 r"
  let ?rid = "scheduled_reminder_id r"
  let ?P = "fst (dispatch_one e now ?x res d) =
           Inr (case verdict_of e now d0 r of
                  Send \<Rightarrow> res\<lparr>sent := sent res + 1\<rparr>
                | Fail_no_owner \<Rightarrow> res\<lparr>failed_count := failed_count res + 1\<rparr>
                | Skip_preferences \<Rightarrow> res\<lparr>skipped := skipped res + 1\<rparr>
                | Skip_completed \<Rightarrow> res\<lparr>skipped := skipped res + 1\<rparr>)
     \<and> scheduledReminders (snd (dispatch_one e now ?x res d)) =
           update_row ?rid (settled_as now (verdict_of e now d0 r)) (scheduledReminders d)
     \<and> notifications (snd (dispatch_one e now ?x res d)) =
           notifications d @
             (if verdict_of e now d0 r = Send
              then [next_row d (reminder_notification r (habit_of d0 r))] else [])
     \<and> pushes (snd (dispatch_one e now ?x res d)) =
           pushes d @
             (if verdict_of e now d0 r = Send
              then [push_of (reminder_notification r (habit_of d0 r))
                      (next_row d (reminder_notification r (habit_of d0 r)))] else [])"
  from nf have f0: "faults e (ticks d) = None" "faults e (Suc (ticks d)) = None"
    "faults e (Suc (Suc (ticks d))) = None" "faults e (Suc (Suc (Suc (ticks d)))) = None"
    by simp_all
  have x: "?x = (r, habit_of d0 r, owner_of d0 r)"
    by (rule join_reminder_parts)
  have ?P
  proof (cases "owner_of d0 r")
    case None
    then have v: "verdict_of e now d0 r = Fail_no_owner"
      by (simp add: verdict_of_def)
    from None have t: "dispatch_try e now ?x res d = (Inl (null_property ''prefersNotifications''), d)"
      by (simp add: x dispatch_try_def)
    have fx: "fst ?x = r" by (simp add: x)
    define dc where "dc = console_error (''Error processing reminder '' @ show_nat ?rid @ '':'' @ '' ''
                 @ stack (null_property ''prefersNotifications'')) d"
    have one: "dispatch_one e now ?x res d =
                 and_then (reminder_update e ?rid
                             (mark_failed (message (null_property ''prefersNotifications''))))
                   (\<lambda>_ d. (Inr (res\<lparr>failed_count := failed_count res + 1\<rparr>), d)) dc"
      by (simp add: dispatch_one_def t fx dc_def)
    have dc: "scheduledReminders dc = scheduledReminders d" "notifications dc = notifications d"
      "pushes dc = pushes d"
      by (simp_all add: dc_def)
    from present have p: "?rid \<in> set (map scheduled_reminder_id (scheduledReminders dc))"
      by (simp add: dc)
    from nf have f1: "faults e (ticks dc) = None" by simp
    show ?thesis
      unfolding v one
      by (simp add: and_then_def reminder_update_ok [OF f1 p] mark_is_settled_as(4) [symmetric] dc
          del: set_map)
  next
    case (Some u)
    show ?thesis
    proof (cases "\<not> prefersNotifications u \<or> onVacation u")
      case True
      with Some have v: "verdict_of e now d0 r = Skip_preferences"
        by (simp add: verdict_of_def)
      from dispatch_skip_preferences [OF True f0(1) present, of now "habit_of d0 r" res]
      show ?thesis
        unfolding v x Some by (simp add: mark_is_settled_as)
    next
      case False
      then have ok: "prefersNotifications u" "\<not> onVacation u" by simp_all
      show ?thesis
      proof (cases "isHabitCompletedForDate e (r_habit_id r) (r_user_id r) now")
        case True
        with False Some have v: "verdict_of e now d0 r = Skip_completed"
          by (simp add: verdict_of_def)
        from dispatch_skip_completed [OF ok True f0(1,2) present, of "habit_of d0 r" res]
        show ?thesis
          unfolding v x Some by (simp add: mark_is_settled_as)
      next
        case not_completed: False
        with False Some have v: "verdict_of e now d0 r = Send"
          by (simp add: verdict_of_def)
        from dispatch_send [OF ok not_completed f0 present, of "habit_of d0 r" res]
        show ?thesis
          unfolding v x Some by (simp add: mark_is_settled_as)
      qed
    qed
  qed
  then show "fst (dispatch_one e now (join_reminder d0 r) res d) =
           Inr (case verdict_of e now d0 r of
                  Send \<Rightarrow> res\<lparr>sent := sent res + 1\<rparr>
                | Fail_no_owner \<Rightarrow> res\<lparr>failed_count := failed_count res + 1\<rparr>
                | Skip_preferences \<Rightarrow> res\<lparr>skipped := skipped res + 1\<rparr>
                | Skip_completed \<Rightarrow> res\<lparr>skipped := skipped res + 1\<rparr>)"
    and "scheduledReminders (snd (dispatch_one e now (join_reminder d0 r) res d)) =
           update_row (scheduled_reminder_id r) (settled_as now (verdict_of e now d0 r))
             (scheduledReminders d)"
    and "notifications (snd (dispatch_one e now (join_reminder d0 r) res d)) =
           notifications d @
             (if verdict_of e now d0 r = Send
              then [next_row d (reminder_notification r (habit_of d0 r))] else [])"
    and "pushes (snd (dispatch_one e now (join_reminder d0 r) res d)) =
           pushes d @
             (if verdict_of e now d0 r = Send
              then [push_of (reminder_notification r (habit_of d0 r))
                      (next_row d (reminder_notification r (habit_of d0 r)))] else [])"
    by simp_all
qed

lemma dispatch_loop_no_faults:
  assumes nf: "\<forall>n. faults e n = None"
    and "distinct (map scheduled_reminder_id (scheduledReminders d))"
    and "distinct (map scheduled_reminder_id rs)"
    and "set rs \<subseteq> set (scheduledReminders d)"
  shows "\<exists>res' ns ps.
           fst (dispatch_loop e now (map (join_reminder d0) rs) res d) = Inr res'
           \<and> processed res' = processed res
           \<and> sent res' = sent res + length (filter (\<lambda>r. verdict_of e now d0 r = Send) rs)
           \<and> skipped res' = skipped res
                + length (filter (\<lambda>r. verdict_of e now d0 r = Skip_preferences
                                       \<or> verdict_of e now d0 r = Skip_completed) rs)
           \<and> failed_count res' = failed_count res
                + length (filter (\<lambda>r. verdict_of e now d0 r = Fail_no_owner) rs)
           \<and> scheduledReminders (snd (dispatch_loop e now (map (join_reminder d0) rs) res d)) =
                map (\<lambda>x. if scheduled_reminder_id x \<in> scheduled_reminder_id ` set rs
                         then settled_as now (verdict_of e now d0 x) x else x) (scheduledReminders d)
           \<and> notifications (snd (dispatch_loop e now (map (join_reminder d0) rs) res d))
                = notifications d @ ns
           \<and> list_all2 (reminder_note d0) ns (filter (\<lambda>r. verdict_of e now d0 r = Send) rs)
           \<and> pushes (snd (dispatch_loop e now (map (join_reminder d0) rs) res d)) = pushes d @ ps
           \<and> list_all2 (reminder_push d0) ps (filter (\<lambda>r. verdict_of e now d0 r = Send) rs)"
  using assms(2-4)
proof (induction rs arbitrary: res d)
  case Nil
  then show ?case by simp
next
  case (Cons r rs)
  let ?rid = "scheduled_reminder_id r"
  let ?S = "\<lambda>x. settled_as now (verdict_of e now d0 x) x"
  define v where "v = verdict_of e now d0 r"
  define res1 where "res1 = (case v of
                  Send \<Rightarrow> res\<lparr>sent := sent res + 1\<rparr>
                | Fail_no_owner \<Rightarrow> res\<lparr>failed_count := failed_count res + 1\<rparr>
                | Skip_preferences \<Rightarrow> res\<lparr>skipped := skipped res + 1\<rparr>
                | Skip_completed \<Rightarrow> res\<lparr>skipped := skipped res + 1\<rparr>)"
  define da where "da = snd (dispatch_one e now (join_reminder d0 r) res d)"
  define row where "row = next_row d (reminder_notification r (habit_of d0 r))"
  define note_part where "note_part = (if v = Send then [row] else [])"
  define push_part where
    "push_part = (if v = Send then [push_of (reminder_notification r (habit_of d0 r)) row] else [])"
  from Cons.prems(3) have r_in: "r \<in> set (scheduledReminders d)" by simp
  then have present: "?rid \<in> set (map scheduled_reminder_id (scheduledReminders d))" by simp
  note step = dispatch_one_no_faults [OF nf present, of now d0 res]
  from step(1) have one: "dispatch_one e now (join_reminder d0 r) res d = (Inr res1, da)"
    unfolding res1_def v_def da_def by (metis prod.collapse)
  have rows: "scheduledReminders da = update_row ?rid (settled_as now v) (scheduledReminders d)"
    unfolding da_def v_def by (rule step(2))
  have stored: "notifications da = notifications d @ note_part"
    unfolding da_def note_part_def row_def v_def by (rule step(3))
  have pushed: "pushes da = pushes d @ push_part"
    unfolding da_def push_part_def row_def v_def by (rule step(4))
  have loop: "dispatch_loop e now (map (join_reminder d0) (r # rs)) res d
                = dispatch_loop e now (map (join_reminder d0) rs) res1 da"
    by (simp add: one)
  from Cons.prems(1) have d1: "distinct (map scheduled_reminder_id (scheduledReminders da))"
    by (simp add: rows)
  from Cons.prems(2) have d2: "distinct (map scheduled_reminder_id rs)"
    and fresh: "?rid \<notin> scheduled_reminder_id ` set rs"
    by simp_all
  have sub: "set rs \<subseteq> set (scheduledReminders da)"
  proof
    fix x assume x: "x \<in> set rs"
    with fresh have "scheduled_reminder_id x \<noteq> ?rid" by (metis imageI)
    moreover from x Cons.prems(3) have "x \<in> set (scheduledReminders d)" by auto
    ultimately show "x \<in> set (scheduledReminders da)"
      unfolding rows by (simp add: update_row_other)
  qed
  from Cons.IH [OF d1 d2 sub, of res1] obtain res' ns ps where
    ih: "fst (dispatch_loop e now (map (join_reminder d0) rs) res1 da) = Inr res'"
      "processed res' = processed res1"
      "sent res' = sent res1 + length (filter (\<lambda>r. verdict_of e now d0 r = Send) rs)"
      "skipped res' = skipped res1
                + length (filter (\<lambda>r. verdict_of e now d0 r = Skip_preferences
                                       \<or> verdict_of e now d0 r = Skip_completed) rs)"
      "failed_count res' = failed_count res1
                + length (filter (\<lambda>r. verdict_of e now d0 r = Fail_no_owner) rs)"
      "scheduledReminders (snd (dispatch_loop e now (map (join_reminder d0) rs) res1 da)) =
                map (\<lambda>x. if scheduled_reminder_id x \<in> scheduled_reminder_id ` set rs
                         then ?S x else x) (scheduledReminders da)"
      "notifications (snd (dispatch_loop e now (map (join_reminder d0) rs) res1 da))
                = notifications da @ ns"
      "list_all2 (reminder_note d0) ns (filter (\<lambda>r. verdict_of e now d0 r = Send) rs)"
      "pushes (snd (dispatch_loop e now (map (join_reminder d0) rs) res1 da)) = pushes da @ ps"
      "list_all2 (reminder_push d0) ps (filter (\<lambda>r. verdict_of e now d0 r = Send) rs)"
    by blast
  have c1: "processed res' = processed res"
    using ih(2) by (cases v) (simp_all add: res1_def)
  have c2: "sent res' = sent res + length (filter (\<lambda>r. verdict_of e now d0 r = Send) (r # rs))"
    using ih(3) by (cases v) (simp_all add: res1_def v_def [symmetric])
  have c3: "skipped res' = skipped res
                + length (filter (\<lambda>r. verdict_of e now d0 r = Skip_preferences
                                       \<or> verdict_of e now d0 r = Skip_completed) (r # rs))"
    using ih(4) by (cases v) (simp_all add: res1_def v_def [symmetric])
  have c4: "failed_count res' = failed_count res
                + length (filter (\<lambda>r. verdict_of e now d0 r = Fail_no_owner) (r # rs))"
    using ih(5) by (cases v) (simp_all add: res1_def v_def [symmetric])
  have table: "map (\<lambda>x. if scheduled_reminder_id x \<in> scheduled_reminder_id ` set rs
                         then ?S x else x) (scheduledReminders da)
             = map (\<lambda>x. if scheduled_reminder_id x \<in> scheduled_reminder_id ` set (r # rs)
                         then ?S x else x) (scheduledReminders d)"
    unfolding rows update_row_map map_map
  proof (rule map_cong [OF refl])
    fix x assume x: "x \<in> set (scheduledReminders d)"
    show "((\<lambda>x. if scheduled_reminder_id x \<in> scheduled_reminder_id ` set rs then ?S x else x)
            \<circ> (\<lambda>x. if scheduled_reminder_id x = ?rid then settled_as now v x else x)) x
          = (if scheduled_reminder_id x \<in> scheduled_reminder_id ` set (r # rs) then ?S x else x)"
    proof (cases "scheduled_reminder_id x = ?rid")
      case True
      with same_key_same_row [OF Cons.prems(1) x r_in] have xr: "x = r" by simp
      from fresh show ?thesis
        by (simp add: xr v_def)
    next
      case False
      then show ?thesis by simp
    qed
  qed
  have n_rel: "list_all2 (reminder_note d0) (note_part @ ns)
                 (filter (\<lambda>r. verdict_of e now d0 r = Send) (r # rs))"
    using ih(8)
    by (simp add: note_part_def v_def [symmetric] row_def next_row_def reminder_note_row)
  have p_rel: "list_all2 (reminder_push d0) (push_part @ ps)
                 (filter (\<lambda>r. verdict_of e now d0 r = Send) (r # rs))"
    using ih(10)
    by (simp add: push_part_def v_def [symmetric] reminder_push_row)
  show ?case
    unfolding loop
    apply (intro exI [where x = res'] exI [where x = "note_part @ ns"] exI [where x = "push_part @ ps"]
        conjI)
             apply (rule ih(1))
            apply (rule c1)
           apply (rule c2)
          apply (rule c3)
         apply (rule c4)
        apply (simp only: ih(6) table)
       apply (simp only: ih(7) stored append_assoc)
      apply (rule n_rel)
     apply (simp only: ih(9) pushed append_assoc)
    apply (rule p_rel)
    done
qed

lemma dispatch_no_faults:
  assumes nf: "\<forall>n. faults e n = None"
    and dist: "distinct (map scheduled_reminder_id (scheduledReminders d))"
  shows "fst (dispatch e now d) = Inr (tally e now d (filter (in_due_set now) (scheduledReminders d)))"
    and "scheduledReminders (snd (dispatch e now d)) =
           map (\<lambda>r. if in_due_set now r then settled_as now (verdict_of e now d r) r else r)
             (scheduledReminders d)"
    and "list_all2 (reminder_note d)
           (drop (length (notifications d)) (notifications (snd (dispatch e now d))))
           (filter (\<lambda>r. verdict_of e now d r = Send) (filter (in_due_set now) (scheduledReminders d)))"
    and "list_all2 (reminder_push d)
           (drop (length (pushes d)) (pushes (snd (dispatch e now d))))
           (filter (\<lambda>r. verdict_of e now d r = Send) (filter (in_due_set now) (scheduledReminders d)))"
proof -
  let ?dues = "filter (in_due_set now) (scheduledReminders d)"
  let ?res = "\<lparr>processed = length ?dues, sent = 0, skipped = 0, failed_count = 0\<rparr>"
  let ?loop = "dispatch_loop e now (map (join_reminder d) ?dues) ?res (tick d)"
  from nf dispatch_cases [of e d now] have run: "dispatch e now d = ?loop"
    by auto
  from dist have d1: "distinct (map scheduled_reminder_id (scheduledReminders (tick d)))" by simp
  from dist have d2: "distinct (map scheduled_reminder_id ?dues)"
    by (rule distinct_map_filter)
  have sub: "set ?dues \<subseteq> set (scheduledReminders (tick d))" by auto
  from dispatch_loop_no_faults [OF nf d1 d2 sub, of now d ?res] obtain res' ns ps where
    l: "fst ?loop = Inr res'"
      "processed res' = processed ?res"
      "sent res' = sent ?res + length (filter (\<lambda>r. verdict_of e now d r = Send) ?dues)"
      "skipped res' = skipped ?res
                + length (filter (\<lambda>r. verdict_of e now d r = Skip_preferences
                                       \<or> verdict_of e now d r = Skip_completed) ?dues)"
      "failed_count res' = failed_count ?res
                + length (filter (\<lambda>r. verdict_of e now d r = Fail_no_owner) ?dues)"
      "scheduledReminders (snd ?loop) =
                map (\<lambda>x. if scheduled_reminder_id x \<in> scheduled_reminder_id ` set ?dues
                         then settled_as now (verdict_of e now d x) x else x)
                  (scheduledReminders (tick d))"
      "notifications (snd ?loop) = notifications (tick d) @ ns"
      "list_all2 (reminder_note d) ns (filter (\<lambda>r. verdict_of e now d r = Send) ?dues)"
      "pushes (snd ?loop) = pushes (tick d) @ ps"
      "list_all2 (reminder_push d) ps (filter (\<lambda>r. verdict_of e now d r = Send) ?dues)"
    by blast
  from l(2-5) have "res' = tally e now d ?dues"
    by (cases res') (simp add: tally_def)
  with l(1) show "fst (dispatch e now d) = Inr (tally e now d ?dues)"
    by (simp add: run)
  have "map (\<lambda>x. if scheduled_reminder_id x \<in> scheduled_reminder_id ` set ?dues
                         then settled_as now (verdict_of e now d x) x else x) (scheduledReminders d)
        = map (\<lambda>r. if in_due_set now r then settled_as now (verdict_of e now d r) r else r)
            (scheduledReminders d)"
  proof (rule map_cong [OF refl])
    fix x assume "x \<in> set (scheduledReminders d)"
    from due_keys [OF dist this, of now]
    show "(if scheduled_reminder_id x \<in> scheduled_reminder_id ` set ?dues
           then settled_as now (verdict_of e now d x) x else x)
          = (if in_due_set now x then settled_as now (verdict_of e now d x) x else x)"
      by (simp del: set_filter)
  qed
  with l(6) show "scheduledReminders (snd (dispatch e now d)) =
           map (\<lambda>r. if in_due_set now r then settled_as now (verdict_of e now d r) r else r)
             (scheduledReminders d)"
    by (simp add: run)
  from l(7,8) show "list_all2 (reminder_note d)
           (drop (length (notifications d)) (notifications (snd (dispatch e now d))))
           (filter (\<lambda>r. verdict_of e now d r = Send) ?dues)"
    by (simp add: run)
  from l(9,10) show "list_all2 (reminder_push d)
           (drop (length (pushes d)) (pushes (snd (dispatch e now d))))
           (filter (\<lambda>r. verdict_of e now d r = Send) ?dues)"
    by (simp add: run)
qed

lemma process_reminders_completed:
  assumes "dispatch e now d = (Inr counts, d')"
  shows "process_reminders e now finish d =
           ([\<lparr>timestamp = now, job = ''process-reminders'', status = started, details = []\<rparr>,
             \<lparr>timestamp = finish, job = ''process-reminders'', status = completed,
              details = [(''duration'', JStr (show_int (finish - now) @ ''ms'')),
                         (''processed'', JNum (int (processed counts))),
                         (''sent'', JNum (int (sent counts))),
                         (''skipped'', JNum (int (skipped counts))),
                         (''failed'', JNum (int (failed_count counts)))]\<rparr>], d')"
  using assms
  by (simp add: process_reminders_def process_reminders_body_def cron_job_frame and_then_def
      dispatch_summary_def)

lemma process_reminders_failed:
  assumes "dispatch e now d = (Inl err, d')"
  shows "process_reminders e now finish d =
           ([\<lparr>timestamp = now, job = ''process-reminders'', status = started, details = []\<rparr>,
             \<lparr>timestamp = finish, job = ''process-reminders'', status = failed,
              details = [(''error'', JStr (message err)), (''stack'', JStr (stack err))]\<rparr>], d')"
  using assms
  by (simp add: process_reminders_def process_reminders_body_def cron_job_frame and_then_def)

text \<open>
  C2, amended. Let the reminder keys be distinct, and let the due set of a run at \<open>now\<close>
  be the rows with \<open>scheduled_time \<le> now\<close>, \<open>is_sent = false\<close> and \<open>is_prepared = true\<close>,
  each joined to its owner and its habit.

  When no call is rejected, the run completes, and every row of the table is left as
  follows. A row outside the due set is unchanged. A due row whose owner disabled
  notifications or is on vacation is marked SKIPPED with reason
  \<open>User preferences or status\<close>; else one whose habit is completed today is marked SKIPPED
  with reason \<open>Already completed\<close>; else it is marked SENT, and for each such row, in
  order, one notification is stored and pushed; a due row without an owner row is marked
  FAILED with the message of the TypeError, and the rows after it are processed all the
  same. The logged counts are the numbers of due rows, of rows sent, skipped and failed.

  For every fault plan: when the pass returns its counts, every due row is either left as
  its verdict says or marked FAILED with a reason, every other row is unchanged, and
  \<open>processed = number of due reminders = sent + skipped + failed\<close>. When the pass ends with
  an error, then either the query was rejected, or the write of the \<open>catch\<close> block was
  rejected at one due reminder: the due rows before it are settled, that row and all rows
  after it are unchanged, and the job logs \<open>failed\<close>.

  At any iteration of the loop, for a reminder with owner \<open>u\<close>: the three branches are taken
  in this order when their calls succeed; when the \<open>try\<close> block throws \<open>err\<close>, the
  \<open>catch\<close> block marks the row FAILED with the message of \<open>err\<close> and the loop goes on,
  provided that write succeeds; when that write is rejected the loop ends there with the
  error of the write.
\<close>

theorem dispatch_order_and_counts:
  "(distinct (map scheduled_reminder_id (scheduledReminders d)) \<and> (\<forall>n. faults e n = None) \<longrightarrow>
      fst (process_reminders e now finish d) =
        [\<lparr>timestamp = now, job = ''process-reminders'', status = started, details = []\<rparr>,
         \<lparr>timestamp = finish, job = ''process-reminders'', status = completed,
          details =
            [(''duration'', JStr (show_int (finish - now) @ ''ms'')),
             (''processed'', JNum (int (length (filter (in_due_set now) (scheduledReminders d))))),
             (''sent'', JNum (int (sent (tally e now d (filter (in_due_set now) (scheduledReminders d)))))),
             (''skipped'', JNum (int (skipped (tally e now d (filter (in_due_set now) (scheduledReminders d)))))),
             (''failed'', JNum (int (failed_count (tally e now d (filter (in_due_set now) (scheduledReminders d))))))]\<rparr>]
      \<and> scheduledReminders (snd (process_reminders e now finish d)) =
          map (\<lambda>r. if in_due_set now r then settled_as now (verdict_of e now d r) r else r)
            (scheduledReminders d)
      \<and> list_all2 (reminder_note d)
          (drop (length (notifications d)) (notifications (snd (process_reminders e now finish d))))
          (filter (\<lambda>r. verdict_of e now d r = Send) (filter (in_due_set now) (scheduledReminders d)))
      \<and> list_all2 (reminder_push d)
          (drop (length (pushes d)) (pushes (snd (process_reminders e now finish d))))
          (filter (\<lambda>r. verdict_of e now d r = Send) (filter (in_due_set now) (scheduledReminders d))))
   \<and> (distinct (map scheduled_reminder_id (scheduledReminders d))
        \<and> dispatch e now d = (Inr counts, d') \<longrightarrow>
      list_all2 (\<lambda>r r'. if in_due_set now r then settled e now d r r' else r' = r)
        (scheduledReminders d) (scheduledReminders d')
      \<and> processed counts = length (filter (in_due_set now) (scheduledReminders d))
      \<and> processed counts = sent counts + skipped counts + failed_count counts
      \<and> process_reminders e now finish d =
          ([\<lparr>timestamp = now, job = ''process-reminders'', status = started, details = []\<rparr>,
            \<lparr>timestamp = finish, job = ''process-reminders'', status = completed,
             details = [(''duration'', JStr (show_int (finish - now) @ ''ms'')),
                        (''processed'', JNum (int (processed counts))),
                        (''sent'', JNum (int (sent counts))),
                        (''skipped'', JNum (int (skipped counts))),
                        (''failed'', JNum (int (failed_count counts)))]\<rparr>], d'))
   \<and> (distinct (map scheduled_reminder_id (scheduledReminders d))
        \<and> dispatch e now d = (Inl err, d') \<longrightarrow>
      process_reminders e now finish d =
          ([\<lparr>timestamp = now, job = ''process-reminders'', status = started, details = []\<rparr>,
            \<lparr>timestamp = finish, job = ''process-reminders'', status = failed,
             details = [(''error'', JStr (message err)), (''stack'', JStr (stack err))]\<rparr>], d')
      \<and> (\<exists>k\<le>length (filter (in_due_set now) (scheduledReminders d)).
            (k < length (filter (in_due_set now) (scheduledReminders d))
             \<or> faults e (ticks d) = Some err)
            \<and> list_all2 (\<lambda>r r'. if scheduled_reminder_id r \<in> scheduled_reminder_id `
                                     set (take k (filter (in_due_set now) (scheduledReminders d)))
                                 then settled e now d r r' else r' = r)
                (scheduledReminders d) (scheduledReminders d')))
   \<and> (\<not> prefersNotifications u \<or> onVacation u \<longrightarrow>
      faults e (ticks d) = None \<longrightarrow>
      scheduled_reminder_id r \<in> set (map scheduled_reminder_id (scheduledReminders d)) \<longrightarrow>
        fst (dispatch_one e now (r, rh, Some u) res d) = Inr (res\<lparr>skipped := skipped res + 1\<rparr>)
        \<and> scheduledReminders (snd (dispatch_one e now (r, rh, Some u) res d)) =
            update_row (scheduled_reminder_id r) (mark_skipped now ''User preferences or status'')
              (scheduledReminders d)
        \<and> notifications (snd (dispatch_one e now (r, rh, Some u) res d)) = notifications d)
   \<and> (prefersNotifications u \<and> \<not> onVacation u
        \<and> isHabitCompletedForDate e (r_habit_id r) (r_user_id r) now \<longrightarrow>
      faults e (ticks d) = None \<and> faults e (Suc (ticks d)) = None \<longrightarrow>
      scheduled_reminder_id r \<in> set (map scheduled_reminder_id (scheduledReminders d)) \<longrightarrow>
        fst (dispatch_one e now (r, rh, Some u) res d) = Inr (res\<lparr>skipped := skipped res + 1\<rparr>)
        \<and> scheduledReminders (snd (dispatch_one e now (r, rh, Some u) res d)) =
            update_row (scheduled_reminder_id r) (mark_skipped now ''Already completed'')
              (scheduledReminders d)
        \<and> notifications (snd (dispatch_one e now (r, rh, Some u) res d)) = notifications d)
   \<and> (prefersNotifications u \<and> \<not> onVacation u
        \<and> \<not> isHabitCompletedForDate e (r_habit_id r) (r_user_id r) now \<longrightarrow>
      faults e (ticks d) = None \<and> faults e (Suc (ticks d)) = None
        \<and> faults e (Suc (Suc (ticks d))) = None \<and> faults e (Suc (Suc (Suc (ticks d)))) = None \<longrightarrow>
      scheduled_reminder_id r \<in> set (map scheduled_reminder_id (scheduledReminders d)) \<longrightarrow>
        fst (dispatch_one e now (r, rh, Some u) res d) = Inr (res\<lparr>sent := sent res + 1\<rparr>)
        \<and> scheduledReminders (snd (dispatch_one e now (r, rh, Some u) res d)) =
            update_row (scheduled_reminder_id r)
              (mark_sent now) (scheduledReminders d)
        \<and> notifications (snd (dispatch_one e now (r, rh, Some u) res d)) =
            notifications d @ [next_row d (reminder_notification r rh)]
        \<and> pushes (snd (dispatch_one e now (r, rh, Some u) res d)) =
            pushes d @ [push_of (reminder_notification r rh) (next_row d (reminder_notification r rh))])
   \<and> (dispatch_try e now x res d = (Inl err, dt) \<longrightarrow>
      faults e (ticks dt) = None \<longrightarrow>
      scheduled_reminder_id (fst x) \<in> set (map scheduled_reminder_id (scheduledReminders dt)) \<longrightarrow>
        fst (dispatch_one e now x res d) = Inr (res\<lparr>failed_count := failed_count res + 1\<rparr>)
        \<and> scheduledReminders (snd (dispatch_one e now x res d)) =
            update_row (scheduled_reminder_id (fst x)) (mark_failed (message err)) (scheduledReminders dt)
        \<and> dispatch_loop e now (x # xs) res d =
            dispatch_loop e now xs (res\<lparr>failed_count := failed_count res + 1\<rparr>)
              (snd (dispatch_one e now x res d)))
   \<and> (dispatch_try e now x res d = (Inl err, dt) \<longrightarrow>
      faults e (ticks dt) = Some werr \<longrightarrow>
        dispatch_loop e now (x # xs) res d = dispatch_one e now x res d
        \<and> fst (dispatch_one e now x res d) = Inl werr
        \<and> scheduledReminders (snd (dispatch_one e now x res d)) = scheduledReminders dt)"
proof (intro conjI impI)
  assume a: "distinct (map scheduled_reminder_id (scheduledReminders d)) \<and> (\<forall>n. faults e n = None)"
  then have dist: "distinct (map scheduled_reminder_id (scheduledReminders d))"
    and nf: "\<forall>n. faults e n = None"
    by simp_all
  let ?dues = "filter (in_due_set now) (scheduledReminders d)"
  note run = dispatch_no_faults [OF nf dist, of now]
  from run(1) have whole: "dispatch e now d = (Inr (tally e now d ?dues), snd (dispatch e now d))"
    by (metis prod.collapse)
  have p: "processed (tally e now d ?dues) = length ?dues"
    by (simp add: tally_def)
  from process_reminders_completed [OF whole, of finish] p
  show "fst (process_reminders e now finish d) =
        [\<lparr>timestamp = now, job = ''process-reminders'', status = started, details = []\<rparr>,
         \<lparr>timestamp = finish, job = ''process-reminders'', status = completed,
          details =
            [(''duration'', JStr (show_int (finish - now) @ ''ms'')),
             (''processed'', JNum (int (length (filter (in_due_set now) (scheduledReminders d))))),
             (''sent'', JNum (int (sent (tally e now d (filter (in_due_set now) (scheduledReminders d)))))),
             (''skipped'', JNum (int (skipped (tally e now d (filter (in_due_set now) (scheduledReminders d)))))),
             (''failed'', JNum (int (failed_count (tally e now d (filter (in_due_set now) (scheduledReminders d))))))]\<rparr>]"
    by simp
  from process_reminders_completed [OF whole, of finish]
  have db: "snd (process_reminders e now finish d) = snd (dispatch e now d)"
    by simp
  from run(2) show "scheduledReminders (snd (process_reminders e now finish d)) =
          map (\<lambda>r. if in_due_set now r then settled_as now (verdict_of e now d r) r else r)
            (scheduledReminders d)"
    by (simp only: db)
  from run(3) show "list_all2 (reminder_note d)
          (drop (length (notifications d)) (notifications (snd (process_reminders e now finish d))))
          (filter (\<lambda>r. verdict_of e now d r = Send) (filter (in_due_set now) (scheduledReminders d)))"
    by (simp only: db)
  from run(4) show "list_all2 (reminder_push d)
          (drop (length (pushes d)) (pushes (snd (process_reminders e now finish d))))
          (filter (\<lambda>r. verdict_of e now d r = Send) (filter (in_due_set now) (scheduledReminders d)))"
    by (simp only: db)
next
  assume a: "distinct (map scheduled_reminder_id (scheduledReminders d))
        \<and> dispatch e now d = (Inr counts, d')"
  then have dist: "distinct (map scheduled_reminder_id (scheduledReminders d))"
    and run: "dispatch e now d = (Inr counts, d')"
    by simp_all
  from dispatch_returns_settled [OF dist run]
  show "list_all2 (\<lambda>r r'. if in_due_set now r then settled e now d r r' else r' = r)
        (scheduledReminders d) (scheduledReminders d')" .
  from dispatch_counts [OF run]
  show "processed counts = length (filter (in_due_set now) (scheduledReminders d))"
    and "processed counts = sent counts + skipped counts + failed_count counts"
    by (simp_all add: is_due_in_due_set)
  from process_reminders_completed [OF run]
  show "process_reminders e now finish d =
          ([\<lparr>timestamp = now, job = ''process-reminders'', status = started, details = []\<rparr>,
            \<lparr>timestamp = finish, job = ''process-reminders'', status = completed,
             details = [(''duration'', JStr (show_int (finish - now) @ ''ms'')),
                        (''processed'', JNum (int (processed counts))),
                        (''sent'', JNum (int (sent counts))),
                        (''skipped'', JNum (int (skipped counts))),
                        (''failed'', JNum (int (failed_count counts)))]\<rparr>], d')" .
next
  assume a: "distinct (map scheduled_reminder_id (scheduledReminders d))
        \<and> dispatch e now d = (Inl err, d')"
  then have dist: "distinct (map scheduled_reminder_id (scheduledReminders d))"
    and run: "dispatch e now d = (Inl err, d')"
    by simp_all
  from process_reminders_failed [OF run]
  show "process_reminders e now finish d =
          ([\<lparr>timestamp = now, job = ''process-reminders'', status = started, details = []\<rparr>,
            \<lparr>timestamp = finish, job = ''process-reminders'', status = failed,
             details = [(''error'', JStr (message err)), (''stack'', JStr (stack err))]\<rparr>], d')" .
  from dispatch_settles [OF dist run]
  show "\<exists>k\<le>length (filter (in_due_set now) (scheduledReminders d)).
            (k < length (filter (in_due_set now) (scheduledReminders d))
             \<or> faults e (ticks d) = Some err)
            \<and> list_all2 (\<lambda>r r'. if scheduled_reminder_id r \<in> scheduled_reminder_id `
                                     set (take k (filter (in_due_set now) (scheduledReminders d)))
                                 then settled e now d r r' else r' = r)
                (scheduledReminders d) (scheduledReminders d')"
    by simp
next
  assume "\<not> prefersNotifications u \<or> onVacation u" "faults e (ticks d) = None"
    "scheduled_reminder_id r \<in> set (map scheduled_reminder_id (scheduledReminders d))"
  from dispatch_skip_preferences [OF this, of now rh res]
  show "fst (dispatch_one e now (r, rh, Some u) res d) = Inr (res\<lparr>skipped := skipped res + 1\<rparr>)"
    and "scheduledReminders (snd (dispatch_one e now (r, rh, Some u) res d)) =
            update_row (scheduled_reminder_id r) (mark_skipped now ''User preferences or status'')
              (scheduledReminders d)"
    and "notifications (snd (dispatch_one e now (r, rh, Some u) res d)) = notifications d"
    by simp_all
next
  assume a: "prefersNotifications u \<and> \<not> onVacation u
        \<and> isHabitCompletedForDate e (r_habit_id r) (r_user_id r) now"
    "faults e (ticks d) = None \<and> faults e (Suc (ticks d)) = None"
    "scheduled_reminder_id r \<in> set (map scheduled_reminder_id (scheduledReminders d))"
  then have "dispatch_one e now (r, rh, Some u) res d =
           (Inr (res\<lparr>skipped := skipped res + 1\<rparr>),
            tick ((tick d)\<lparr>scheduledReminders :=
                     update_row (scheduled_reminder_id r) (mark_skipped now ''Already completed'')
                       (scheduledReminders d)\<rparr>))"
    by (simp add: dispatch_skip_completed)
  then show "fst (dispatch_one e now (r, rh, Some u) res d) = Inr (res\<lparr>skipped := skipped res + 1\<rparr>)"
    and "scheduledReminders (snd (dispatch_one e now (r, rh, Some u) res d)) =
            update_row (scheduled_reminder_id r) (mark_skipped now ''Already completed'')
              (scheduledReminders d)"
    and "notifications (snd (dispatch_one e now (r, rh, Some u) res d)) = notifications d"
    by simp_all
next
  assume a: "prefersNotifications u \<and> \<not> onVacation u
        \<and> \<not> isHabitCompletedForDate e (r_habit_id r) (r_user_id r) now"
    "faults e (ticks d) = None \<and> faults e (Suc (ticks d)) = None
        \<and> faults e (Suc (Suc (ticks d))) = None \<and> faults e (Suc (Suc (Suc (ticks d)))) = None"
    "scheduled_reminder_id r \<in> set (map scheduled_reminder_id (scheduledReminders d))"
  then show "fst (dispatch_one e now (r, rh, Some u) res d) = Inr (res\<lparr>sent := sent res + 1\<rparr>)"
    and "scheduledReminders (snd (dispatch_one e now (r, rh, Some u) res d)) =
            update_row (scheduled_reminder_id r)
              (mark_sent now) (scheduledReminders d)"
    and "notifications (snd (dispatch_one e now (r, rh, Some u) res d)) =
            notifications d @ [next_row d (reminder_notification r rh)]"
    and "pushes (snd (dispatch_one e now (r, rh, Some u) res d)) =
            pushes d @ [push_of (reminder_notification r rh) (next_row d (reminder_notification r rh))]"
    by (simp_all add: dispatch_send)
next
  assume a: "dispatch_try e now x res d = (Inl err, dt)" "faults e (ticks dt) = None"
    "scheduled_reminder_id (fst x) \<in> set (map scheduled_reminder_id (scheduledReminders dt))"
  from dispatch_catch_marks_failed [OF a]
  show one: "fst (dispatch_one e now x res d) = Inr (res\<lparr>failed_count := failed_count res + 1\<rparr>)"
    and "scheduledReminders (snd (dispatch_one e now x res d)) =
            update_row (scheduled_reminder_id (fst x)) (mark_failed (message err)) (scheduledReminders dt)"
    by simp_all
  from one obtain da where
    "dispatch_one e now x res d = (Inr (res\<lparr>failed_count := failed_count res + 1\<rparr>), da)"
    by (cases "dispatch_one e now x res d") simp
  then show "dispatch_loop e now (x # xs) res d =
            dispatch_loop e now xs (res\<lparr>failed_count := failed_count res + 1\<rparr>)
              (snd (dispatch_one e now x res d))"
    by simp
next
  assume a: "dispatch_try e now x res d = (Inl err, dt)" "faults e (ticks dt) = Some werr"
  from dispatch_catch_rethrows [OF a]
  show "dispatch_loop e now (x # xs) res d = dispatch_one e now x res d"
    and "fst (dispatch_one e now x res d) = Inl werr"
    and "scheduledReminders (snd (dispatch_one e now x res d)) = scheduledReminders dt"
    by simp_all
qed

text \<open>
  With no rejected call the four reminders end as SENT, SKIPPED, untouched and FAILED, and
  the run logs the counts 3, 1, 1, 1. When the first push is rejected, the first of two
  due reminders is marked FAILED and the second is still sent. When the store is lost after
  the query, the run ends with the error.
\<close>

theorem dispatch_order_and_counts_witness:
  "distinct (map scheduled_reminder_id (scheduledReminders mixed_db))
   \<and> (\<forall>n. faults (sample_env no_faults) n = None)
   \<and> map send_status (scheduledReminders (snd (process_reminders (sample_env no_faults) 200 205 mixed_db)))
        = [Some SENT, Some SKIPPED, None, Some FAILED]
   \<and> map is_sent (scheduledReminders (snd (process_reminders (sample_env no_faults) 200 205 mixed_db)))
        = [True, True, False, False]
   \<and> fst (process_reminders (sample_env no_faults) 200 205 mixed_db) =
        [\<lparr>timestamp = 200, job = ''process-reminders'', status = started, details = []\<rparr>,
         \<lparr>timestamp = 205, job = ''process-reminders'', status = completed,
          details = [(''duration'', JStr ''5ms''), (''processed'', JNum 3), (''sent'', JNum 1),
                     (''skipped'', JNum 1), (''failed'', JNum 1)]\<rparr>]
   \<and> list_all2 (reminder_note mixed_db)
        (notifications (snd (process_reminders (sample_env no_faults) 200 205 mixed_db)))
        [sample_reminder]
   \<and> list_all2 (reminder_push mixed_db)
        (pushes (snd (process_reminders (sample_env no_faults) 200 205 mixed_db)))
        [sample_reminder]
   \<and> distinct (map scheduled_reminder_id (scheduledReminders two_due_db))
   \<and> fst (dispatch (sample_env (fail_at 3)) 200 two_due_db)
        = Inr \<lparr>processed = 2, sent = 1, skipped = 0, failed_count = 1\<rparr>
   \<and> map send_status (scheduledReminders (snd (dispatch (sample_env (fail_at 3)) 200 two_due_db)))
        = [Some FAILED, Some SENT]
   \<and> list_all2 (\<lambda>r r'. if in_due_set 200 r then settled (sample_env (fail_at 3)) 200 two_due_db r r'
                         else r' = r)
        (scheduledReminders two_due_db)
        (scheduledReminders (snd (dispatch (sample_env (fail_at 3)) 200 two_due_db)))
   \<and> fst (dispatch (sample_env (fail_from 1)) 200 two_due_db)
        = Inl (Error ''connection lost'' ''Error: connection lost'')
   \<and> map status (fst (process_reminders (sample_env (fail_from 1)) 200 205 two_due_db))
        = [started, failed]
   \<and> fst (dispatch_one (sample_env (fail_at 99)) 200 (sample_reminder, Some sample_habit, Some vacation_user)
          no_results sample_db) = Inr (no_results\<lparr>skipped := skipped no_results + 1\<rparr>)
   \<and> scheduledReminders (snd (dispatch_one completed_env 200
          (sample_reminder, Some sample_habit, Some sample_user) no_results sample_db)) =
        update_row (scheduled_reminder_id sample_reminder) (mark_skipped 200 ''Already completed'')
          (scheduledReminders sample_db)
   \<and> fst (dispatch_one (sample_env (fail_at 99)) 200 (sample_reminder, Some sample_habit, Some sample_user)
          no_results sample_db) = Inr (no_results\<lparr>sent := sent no_results + 1\<rparr>)
   \<and> fst (dispatch_one (sample_env (fail_at 0)) 200 (sample_reminder, Some sample_habit, Some sample_user)
          no_results sample_db) = Inr (no_results\<lparr>failed_count := failed_count no_results + 1\<rparr>)
   \<and> fst (dispatch_one (sample_env (fail_from 0)) 200 (sample_reminder, Some sample_habit, Some sample_user)
          no_results sample_db) = Inl (Error ''connection lost'' ''Error: connection lost'')"
proof -
  let ?e = "sample_env no_faults"
  have dist: "distinct (map scheduled_reminder_id (scheduledReminders mixed_db))"
    by (simp add: mixed_db_def sample_db_def sample_reminder_def reminder_row_def)
  have nf: "\<forall>n. faults ?e n = None"
    by (simp add: sample_env_def no_faults_def)
  from dispatch_order_and_counts
         [where d = mixed_db and e = ?e and now = 200 and finish = 205, THEN conjunct1] dist nf
  have ok: "fst (process_reminders ?e 200 205 mixed_db) =
        [\<lparr>timestamp = 200, job = ''process-reminders'', status = started, details = []\<rparr>,
         \<lparr>timestamp = 205, job = ''process-reminders'', status = completed,
          details =
            [(''duration'', JStr (show_int (205 - 200) @ ''ms'')),
             (''processed'', JNum (int (length (filter (in_due_set 200) (scheduledReminders mixed_db))))),
             (''sent'', JNum (int (sent (tally ?e 200 mixed_db (filter (in_due_set 200) (scheduledReminders mixed_db)))))),
             (''skipped'', JNum (int (skipped (tally ?e 200 mixed_db (filter (in_due_set 200) (scheduledReminders mixed_db)))))),
             (''failed'', JNum (int (failed_count (tally ?e 200 mixed_db (filter (in_due_set 200) (scheduledReminders mixed_db))))))]\<rparr>]"
    and rows: "scheduledReminders (snd (process_reminders ?e 200 205 mixed_db)) =
          map (\<lambda>r. if in_due_set 200 r then settled_as 200 (verdict_of ?e 200 mixed_db r) r else r)
            (scheduledReminders mixed_db)"
    and stored: "list_all2 (reminder_note mixed_db)
          (drop (length (notifications mixed_db)) (notifications (snd (process_reminders ?e 200 205 mixed_db))))
          (filter (\<lambda>r. verdict_of ?e 200 mixed_db r = Send) (filter (in_due_set 200) (scheduledReminders mixed_db)))"
    and pushed: "list_all2 (reminder_push mixed_db)
          (drop (length (pushes mixed_db)) (pushes (snd (process_reminders ?e 200 205 mixed_db))))
          (filter (\<lambda>r. verdict_of ?e 200 mixed_db r = Send) (filter (in_due_set 200) (scheduledReminders mixed_db)))"
    by blast+
  have t: "tally ?e 200 mixed_db (filter (in_due_set 200) (scheduledReminders mixed_db))
             = \<lparr>processed = 3, sent = 1, skipped = 1, failed_count = 1\<rparr>"
    by code_simp
  have n_due: "length (filter (in_due_set 200) (scheduledReminders mixed_db)) = 3"
    by code_simp
  have dur: "show_int (205 - 200) = ''5''"
    by code_simp
  have to_send: "filter (\<lambda>r. verdict_of ?e 200 mixed_db r = Send)
                   (filter (in_due_set 200) (scheduledReminders mixed_db)) = [sample_reminder]"
    by code_simp
  have none_yet: "length (notifications mixed_db) = 0" "length (pushes mixed_db) = 0"
    by (simp_all add: mixed_db_def sample_db_def)
  have statuses: "map send_status
            (map (\<lambda>r. if in_due_set 200 r then settled_as 200 (verdict_of ?e 200 mixed_db r) r else r)
               (scheduledReminders mixed_db)) = [Some SENT, Some SKIPPED, None, Some FAILED]"
    by code_simp
  have flags: "map is_sent
            (map (\<lambda>r. if in_due_set 200 r then settled_as 200 (verdict_of ?e 200 mixed_db r) r else r)
               (scheduledReminders mixed_db)) = [True, True, False, False]"
    by code_simp
  have c1: "map send_status (scheduledReminders (snd (process_reminders ?e 200 205 mixed_db)))
        = [Some SENT, Some SKIPPED, None, Some FAILED]"
    unfolding rows by (rule statuses)
  have c2: "map is_sent (scheduledReminders (snd (process_reminders ?e 200 205 mixed_db)))
        = [True, True, False, False]"
    unfolding rows by (rule flags)
  have c3: "fst (process_reminders ?e 200 205 mixed_db) =
        [\<lparr>timestamp = 200, job = ''process-reminders'', status = started, details = []\<rparr>,
         \<lparr>timestamp = 205, job = ''process-reminders'', status = completed,
          details = [(''duration'', JStr ''5ms''), (''processed'', JNum 3), (''sent'', JNum 1),
                     (''skipped'', JNum 1), (''failed'', JNum 1)]\<rparr>]"
    unfolding ok t n_due dur by simp
  from stored have c4: "list_all2 (reminder_note mixed_db)
        (notifications (snd (process_reminders ?e 200 205 mixed_db))) [sample_reminder]"
    unfolding to_send none_yet by simp
  from pushed have c5: "list_all2 (reminder_push mixed_db)
        (pushes (snd (process_reminders ?e 200 205 mixed_db))) [sample_reminder]"
    unfolding to_send none_yet by simp
  let ?f = "sample_env (fail_at 3)"
  have dist2: "distinct (map scheduled_reminder_id (scheduledReminders two_due_db))"
    by (simp add: two_due_db_def sample_db_def sample_reminder_def reminder_row_def)
  have r1: "fst (dispatch ?f 200 two_due_db)
              = Inr \<lparr>processed = 2, sent = 1, skipped = 0, failed_count = 1\<rparr>"
    by code_simp
  then have r2: "dispatch ?f 200 two_due_db
              = (Inr \<lparr>processed = 2, sent = 1, skipped = 0, failed_count = 1\<rparr>,
                 snd (dispatch ?f 200 two_due_db))"
    by (metis prod.collapse)
  have c6: "map send_status (scheduledReminders (snd (dispatch ?f 200 two_due_db)))
        = [Some FAILED, Some SENT]"
    by code_simp
  from dispatch_order_and_counts
         [where d = two_due_db and e = ?f and now = 200
            and counts = "\<lparr>processed = 2, sent = 1, skipped = 0, failed_count = 1\<rparr>"
            and d' = "snd (dispatch ?f 200 two_due_db)", THEN conjunct2, THEN conjunct1] dist2 r2
  have c7: "list_all2 (\<lambda>r r'. if in_due_set 200 r then settled ?f 200 two_due_db r r' else r' = r)
        (scheduledReminders two_due_db) (scheduledReminders (snd (dispatch ?f 200 two_due_db)))"
    by blast
  let ?g = "sample_env (fail_from 1)"
  have a1: "fst (dispatch ?g 200 two_due_db) = Inl (Error ''connection lost'' ''Error: connection lost'')"
    by code_simp
  then have a2: "dispatch ?g 200 two_due_db
              = (Inl (Error ''connection lost'' ''Error: connection lost''),
                 snd (dispatch ?g 200 two_due_db))"
    by (metis prod.collapse)
  from dispatch_order_and_counts
         [where d = two_due_db and e = ?g and now = 200 and finish = 205
            and err = "Error ''connection lost'' ''Error: connection lost''"
            and d' = "snd (dispatch ?g 200 two_due_db)",
          THEN conjunct2, THEN conjunct2, THEN conjunct1] dist2 a2
  have "process_reminders ?g 200 205 two_due_db =
          ([\<lparr>timestamp = 200, job = ''process-reminders'', status = started, details = []\<rparr>,
            \<lparr>timestamp = 205, job = ''process-reminders'', status = failed,
             details = [(''error'', JStr (message (Error ''connection lost'' ''Error: connection lost''))),
                        (''stack'', JStr (stack (Error ''connection lost'' ''Error: connection lost'')))]\<rparr>],
           snd (dispatch ?g 200 two_due_db))"
    by blast
  then have c8: "map status (fst (process_reminders ?g 200 205 two_due_db)) = [started, failed]"
    by simp
  have present: "scheduled_reminder_id sample_reminder
                   \<in> set (map scheduled_reminder_id (scheduledReminders sample_db))"
    by (simp add: sample_db_def)
  have w1: "fst (dispatch_one (sample_env (fail_at 99)) 200
                   (sample_reminder, Some sample_habit, Some vacation_user) no_results sample_db)
              = Inr (no_results\<lparr>skipped := skipped no_results + 1\<rparr>)"
    using dispatch_order_and_counts
            [where u = vacation_user and e = "sample_env (fail_at 99)" and d = sample_db
               and r = sample_reminder and rh = "Some sample_habit" and res = no_results and now = 200,
             THEN conjunct2, THEN conjunct2, THEN conjunct2, THEN conjunct1]
          present
    by (simp add: vacation_user_def sample_env_def fail_at_def sample_db_def)
  have w2: "scheduledReminders (snd (dispatch_one completed_env 200
                (sample_reminder, Some sample_habit, Some sample_user) no_results sample_db)) =
              update_row (scheduled_reminder_id sample_reminder) (mark_skipped 200 ''Already completed'')
                (scheduledReminders sample_db)"
    using dispatch_order_and_counts
            [where u = sample_user and e = completed_env and d = sample_db
               and r = sample_reminder and rh = "Some sample_habit" and res = no_results and now = 200,
             THEN conjunct2, THEN conjunct2, THEN conjunct2, THEN conjunct2, THEN conjunct1]
          present
    by (simp add: sample_user_def completed_env_def sample_env_def fail_at_def sample_db_def)
  have w3: "fst (dispatch_one (sample_env (fail_at 99)) 200
                   (sample_reminder, Some sample_habit, Some sample_user) no_results sample_db)
              = Inr (no_results\<lparr>sent := sent no_results + 1\<rparr>)"
    using dispatch_order_and_counts
            [where u = sample_user and e = "sample_env (fail_at 99)" and d = sample_db
               and r = sample_reminder and rh = "Some sample_habit" and res = no_results and now = 200,
             THEN conjunct2, THEN conjunct2, THEN conjunct2, THEN conjunct2, THEN conjunct2, THEN conjunct1]
          present
    by (simp add: sample_user_def sample_env_def fail_at_def sample_db_def)
  have t4: "dispatch_try (sample_env (fail_at 0)) 200
              (sample_reminder, Some sample_habit, Some sample_user) no_results sample_db
            = (Inl (Error ''connection lost'' ''Error: connection lost''), tick sample_db)"
    by (simp add: dispatch_try_def sample_user_def and_then_def call_isHabitCompletedForDate_def
        await_def sample_env_def fail_at_def sample_db_def)
  have w4: "fst (dispatch_one (sample_env (fail_at 0)) 200
                   (sample_reminder, Some sample_habit, Some sample_user) no_results sample_db)
              = Inr (no_results\<lparr>failed_count := failed_count no_results + 1\<rparr>)"
    using dispatch_order_and_counts
            [where x = "(sample_reminder, Some sample_habit, Some sample_user)"
               and e = "sample_env (fail_at 0)" and d = sample_db and dt = "tick sample_db"
               and err = "Error ''connection lost'' ''Error: connection lost''"
               and res = no_results and now = 200,
             THEN conjunct2, THEN conjunct2, THEN conjunct2, THEN conjunct2, THEN conjunct2, THEN conjunct2, THEN conjunct1]
          t4 present
    by (simp add: sample_env_def fail_at_def sample_db_def tick_def)
  have t5: "dispatch_try (sample_env (fail_from 0)) 200
              (sample_reminder, Some sample_habit, Some sample_user) no_results sample_db
            = (Inl (Error ''connection lost'' ''Error: connection lost''), tick sample_db)"
    by (simp add: dispatch_try_def sample_user_def and_then_def call_isHabitCompletedForDate_def
        await_def sample_env_def fail_from_def sample_db_def)
  have w5: "fst (dispatch_one (sample_env (fail_from 0)) 200
                   (sample_reminder, Some sample_habit, Some sample_user) no_results sample_db)
              = Inl (Error ''connection lost'' ''Error: connection lost'')"
    using dispatch_order_and_counts
            [where x = "(sample_reminder, Some sample_habit, Some sample_user)"
               and e = "sample_env (fail_from 0)" and d = sample_db and dt = "tick sample_db"
               and err = "Error ''connection lost'' ''Error: connection lost''"
               and werr = "Error ''connection lost'' ''Error: connection lost''"
               and res = no_results and now = 200,
             THEN conjunct2, THEN conjunct2, THEN conjunct2, THEN conjunct2, THEN conjunct2, THEN conjunct2, THEN conjunct2]
          t5
    by (simp add: sample_env_def fail_from_def sample_db_def tick_def)
  from dist nf c1 c2 c3 c4 c5 dist2 r1 c6 c7 a1 c8 w1 w2 w3 w4 w5 show ?thesis
    by (intro conjI)
qed

section \<open>Every handler at the job boundary\<close>

lemma and_then_returns:
  assumes "fst (m d) = Inr x" "\<And>da. \<exists>y. fst (k x da) = Inr y"
  shows "\<exists>y. fst (and_then m k d) = Inr y"
  using assms by (cases "m d") (simp add: and_then_def)

lemma and_then_rejected:
  assumes "m d = (Inl err, da)"
  shows "and_then m k d = (Inl err, da)"
  using assms by (simp add: and_then_def)

lemma await_returns: "\<forall>n. faults e n = None \<Longrightarrow> fst (await e f d) = Inr (fst (f d))"
  by (simp add: await_no_faults)

lemma preservation_create_returns:
  assumes nf: "\<forall>n. faults e n = None"
  shows "\<exists>k. fst (preservation_create e now h n d) = Inr k"
  using nf
  by (simp add: preservation_create_def and_then_def find_recent_preservation_def reminder_create_def
      await_no_faults Let_def split: option.splits prod.splits)

lemma preservation_one_returns:
  assumes nf: "\<forall>n. faults e n = None"
  shows "\<exists>k. fst (preservation_one e now h n d) = Inr k"
  using nf preservation_create_returns [OF nf, of now h n]
  by (simp add: preservation_one_def and_then_def call_isHabitScheduledForDate_def
      call_isHabitCompletedForDate_def call_isInQuietHours_def await_no_faults)

lemma preservation_loop_returns:
  assumes nf: "\<forall>n. faults e n = None"
  shows "\<exists>k. fst (preservation_loop e now hs n d) = Inr k"
proof (induction hs arbitrary: n d)
  case Nil
  then show ?case by simp
next
  case (Cons h hs)
  from preservation_one_returns [OF nf, of now h n d] obtain k where
    "fst (preservation_one e now h n d) = Inr k" by blast
  then obtain da where "preservation_one e now h n d = (Inr k, da)"
    by (cases "preservation_one e now h n d") simp
  with Cons.IH [of k da] show ?case by simp
qed

lemma goal_loop_returns:
  assumes nf: "\<forall>n. faults e n = None"
  shows "\<exists>k. fst (goal_loop e t0 t1 us n d) = Inr k"
proof (induction us arbitrary: n d)
  case Nil
  then show ?case by simp
next
  case (Cons u us)
  from goal_one_no_faults [OF nf, of t0 t1 u n d] obtain k da where
    "goal_one e t0 t1 u n d = (Inr k, da)"
    by (cases "int (completed_between (habitLogs d) (user_id u) t0 t1) \<ge> dailyGoal u") simp_all
  with Cons.IH [of k da] show ?case by simp
qed

lemma warning_loop_returns:
  assumes nf: "\<forall>n. faults e n = None"
  shows "\<exists>k. fst (warning_loop e now hs n d) = Inr k"
  using warning_loop_no_faults [OF nf, of now hs n d] by blast

lemma dispatch_loop_returns:
  assumes nf: "\<forall>n. faults e n = None"
    and "set rs \<subseteq> set (scheduledReminders d)"
  shows "\<exists>res'. fst (dispatch_loop e now (map (join_reminder d0) rs) res d) = Inr res'"
proof -
  have "\<forall>r \<in> set rs. scheduled_reminder_id r \<in> set (map scheduled_reminder_id (scheduledReminders d))
        \<Longrightarrow> ?thesis"
  proof (induction rs arbitrary: res d)
    case Nil
    then show ?case by simp
  next
    case (Cons r rs)
    from Cons.prems have present:
      "scheduled_reminder_id r \<in> set (map scheduled_reminder_id (scheduledReminders d))"
      by simp
    note step = dispatch_one_no_faults [OF nf present, of now d0 res]
    from step(1) obtain res1 da where one: "dispatch_one e now (join_reminder d0 r) res d = (Inr res1, da)"
      by (cases "dispatch_one e now (join_reminder d0 r) res d") simp
    with step(2) have "map scheduled_reminder_id (scheduledReminders da)
                         = map scheduled_reminder_id (scheduledReminders d)"
      by simp
    with Cons.prems
    have "\<forall>r \<in> set rs. scheduled_reminder_id r \<in> set (map scheduled_reminder_id (scheduledReminders da))"
      by simp
    from Cons.IH [OF this, of res1] one show ?case by simp
  qed
  with assms(2) show ?thesis by auto
qed

text \<open>Every body starts with an awaited call, and returns when no call is rejected.\<close>

lemma body_returns:
  assumes "(expr, jobName, body, run) \<in> set (schedule e now finish)"
    and nf: "\<forall>n. faults e n = None"
  shows "\<exists>summary. fst (body d) = Inr summary"
proof -
  from assms(1) consider
      "body = daily_streak_update_body e" | "body = streak_milestone_check_body e"
    | "body = streak_warning_check_body e now" | "body = process_reminders_body e now"
    | "body = streak_preservation_body e now" | "body = prepare_next_day_reminders_body e"
    | "body = weekly_habit_review_body e now" | "body = daily_goal_check_body e now"
    | "body = new_user_welcome_body e now"
    by (auto simp add: schedule_def)
  then show ?thesis
  proof cases
    case 1
    with nf show ?thesis
      by (simp add: daily_streak_update_body_def and_then_def await_no_faults)
  next
    case 2
    with nf show ?thesis
      by (simp add: streak_milestone_check_body_def and_then_def habit_findMany_active_def
          await_no_faults split: prod.splits)
  next
    case 3
    show ?thesis
      unfolding 3 streak_warning_check_body_def
    proof (rule and_then_returns)
      from nf show "fst (habit_findMany_streaks_above e 2 d)
                      = Inr (map (streaks_above 2) (filter is_active (habits d)))"
        by (simp add: habit_findMany_streaks_above_def await_no_faults)
    next
      fix da
      from warning_loop_returns [OF nf] obtain k where
        "fst (warning_loop e now (map (streaks_above 2) (filter is_active (habits d))) 0 da) = Inr k"
        by blast
      then show "\<exists>y. fst (and_then
                 (warning_loop e now (map (streaks_above 2) (filter is_active (habits d))) 0)
                 (\<lambda>warningsCreated d'.
                    (Inr [(''habitsChecked'',
                           JNum (int (length (map (streaks_above 2) (filter is_active (habits d)))))),
                          (''warningsCreated'', JNum (int warningsCreated))], d')) da) = Inr y"
        by (rule and_then_returns) simp
    qed
  next
    case 4
    let ?dues = "filter (in_due_set now) (scheduledReminders d)"
    from nf dispatch_cases [of e d now]
    have run: "dispatch e now d =
          dispatch_loop e now (map (join_reminder d) ?dues)
            \<lparr>processed = length ?dues, sent = 0, skipped = 0, failed_count = 0\<rparr> (tick d)"
      by auto
    have "set ?dues \<subseteq> set (scheduledReminders (tick d))" by auto
    from dispatch_loop_returns [OF nf this, of now d] run
    obtain res' where "fst (dispatch e now d) = Inr res'" by auto
    with 4 show ?thesis
      by (cases "dispatch e now d") (simp add: process_reminders_body_def and_then_def)
  next
    case 5
    show ?thesis
      unfolding 5 streak_preservation_body_def
    proof (rule and_then_returns)
      from nf show "fst (habit_findMany_streaks_above e 7 d)
                      = Inr (map (streaks_above 7) (filter is_active (habits d)))"
        by (simp add: habit_findMany_streaks_above_def await_no_faults)
    next
      fix da
      from preservation_loop_returns [OF nf] obtain k where
        "fst (preservation_loop e now (map (streaks_above 7) (filter is_active (habits d))) 0 da) = Inr k"
        by blast
      then show "\<exists>y. fst (and_then
                 (preservation_loop e now (map (streaks_above 7) (filter is_active (habits d))) 0)
                 (\<lambda>remindersCreated d'.
                    (Inr [(''habitsChecked'',
                           JNum (int (length (map (streaks_above 7) (filter is_active (habits d)))))),
                          (''remindersCreated'', JNum (int remindersCreated))], d')) da) = Inr y"
        by (rule and_then_returns) simp
    qed
  next
    case 6
    with nf show ?thesis
      by (simp add: prepare_next_day_reminders_body_def and_then_def await_no_faults)
  next
    case 7
    from nf have "faults e (ticks d) = None" by simp
    from weekly_body_ok [OF this, of now] 7 show ?thesis by simp
  next
    case 8
    let ?us = "filter (\<lambda>u. prefersNotifications u = True \<and> onVacation u = False \<and> dailyGoal u > 0)
                 (users d)"
    show ?thesis
      unfolding 8 daily_goal_check_body_def Let_def
    proof (rule and_then_returns)
      from nf show "fst (user_findMany_with_goal e d) = Inr ?us"
        by (simp add: user_findMany_with_goal_def await_no_faults)
    next
      fix da
      from goal_loop_returns [OF nf] obtain k where
        "fst (goal_loop e (local_midnight e now) (local_midnight e now + 86400000) ?us 0 da) = Inr k"
        by blast
      then show "\<exists>y. fst (and_then
                 (goal_loop e (local_midnight e now) (local_midnight e now + 86400000) ?us 0)
                 (\<lambda>notificationsSent d'.
                    (Inr [(''usersProcessed'', JNum (int (length ?us))),
                          (''notificationsSent'', JNum (int notificationsSent))], d')) da) = Inr y"
        by (rule and_then_returns) simp
    qed
  next
    case 9
    with nf show ?thesis
      by (simp add: new_user_welcome_body_def and_then_def user_findMany_new_def
          await_no_faults split: prod.splits)
  qed
qed

lemma body_rejected:
  assumes "(expr, jobName, body, run) \<in> set (schedule e now finish)"
    and f: "faults e (ticks d) = Some err"
  shows "body d = (Inl err, tick d)"
proof -
  from assms(1) consider
      "body = daily_streak_update_body e" | "body = streak_milestone_check_body e"
    | "body = streak_warning_check_body e now" | "body = process_reminders_body e now"
    | "body = streak_preservation_body e now" | "body = prepare_next_day_reminders_body e"
    | "body = weekly_habit_review_body e now" | "body = daily_goal_check_body e now"
    | "body = new_user_welcome_body e now"
    by (auto simp add: schedule_def)
  then show ?thesis
  proof cases
    case 1
    with f show ?thesis
      by (simp add: daily_streak_update_body_def and_then_def await_fail)
  next
    case 2
    with f show ?thesis
      by (simp add: streak_milestone_check_body_def and_then_def habit_findMany_active_def await_fail)
  next
    case 3
    with f show ?thesis
      by (simp add: streak_warning_check_body_def and_then_def habit_findMany_streaks_above_def
          await_fail)
  next
    case 4
    with f show ?thesis
      by (simp add: process_reminders_body_def dispatch_def and_then_def find_due_reminders_def
          await_fail)
  next
    case 5
    with f show ?thesis
      by (simp add: streak_preservation_body_def and_then_def habit_findMany_streaks_above_def
          await_fail)
  next
    case 6
    with f show ?thesis
      by (simp add: prepare_next_day_reminders_body_def and_then_def await_fail)
  next
    case 7
    with f show ?thesis
      by (simp add: weekly_habit_review_body_def and_then_def user_findMany_active_def await_fail)
  next
    case 8
    with f show ?thesis
      by (simp add: daily_goal_check_body_def Let_def and_then_def user_findMany_with_goal_def
          await_fail)
  next
    case 9
    with f show ?thesis
      by (simp add: new_user_welcome_body_def and_then_def user_findMany_new_def await_fail)
  qed
qed

text \<open>
  C6. Take any of the nine registrations: its cron expression, its job name, the body of its
  \<open>try\<close> block and its handler. One invocation of the handler at time \<open>now\<close> on the store
  \<open>d\<close> runs that body on \<open>d\<close> and logs two events, \<open>started\<close> with the time of the run and
  then one terminal event. If the body finishes with a summary, the terminal event is
  \<open>completed\<close> with the duration followed by that summary; if the body throws \<open>err\<close>, it is
  \<open>failed\<close> with the message and the stack of \<open>err\<close>. In both cases the handler returns
  with the store as the body left it, so the error goes no further.

  Both outcomes occur for every handler: when no call is rejected the handler logs
  \<open>started\<close> and \<open>completed\<close>, and when its first call, the population query, is rejected
  with \<open>err\<close>, it logs \<open>started\<close> and \<open>failed\<close> with the message and the stack of
  \<open>err\<close> and changes no row. In any series of invocations of registered handlers on one
  store, every invocation logs its own \<open>started\<close> and its own terminal event, whatever
  the invocations before it did.
\<close>

theorem every_job_logs_started_then_one_terminal_event:
  "((expr, jobName, body, run) \<in> set (schedule e now finish) \<longrightarrow>
      run d =
        (case body d of
           (Inr summary, d') \<Rightarrow>
             ([\<lparr>timestamp = now, job = jobName, status = started, details = []\<rparr>,
               \<lparr>timestamp = finish, job = jobName, status = completed,
                details = (''duration'', JStr (show_int (finish - now) @ ''ms'')) # summary\<rparr>], d')
         | (Inl err, d') \<Rightarrow>
             ([\<lparr>timestamp = now, job = jobName, status = started, details = []\<rparr>,
               \<lparr>timestamp = finish, job = jobName, status = failed,
                details = [(''error'', JStr (message err)), (''stack'', JStr (stack err))]\<rparr>], d')))
   \<and> ((expr, jobName, body, run) \<in> set (schedule e now finish) \<and> (\<forall>n. faults e n = None) \<longrightarrow>
        (\<exists>summary.
           fst (run d) =
             [\<lparr>timestamp = now, job = jobName, status = started, details = []\<rparr>,
              \<lparr>timestamp = finish, job = jobName, status = completed,
               details = (''duration'', JStr (show_int (finish - now) @ ''ms'')) # summary\<rparr>]))
   \<and> ((expr, jobName, body, run) \<in> set (schedule e now finish)
        \<and> faults e (ticks d) = Some rejection \<longrightarrow>
        run d =
          ([\<lparr>timestamp = now, job = jobName, status = started, details = []\<rparr>,
            \<lparr>timestamp = finish, job = jobName, status = failed,
             details = [(''error'', JStr (message rejection)), (''stack'', JStr (stack rejection))]\<rparr>],
           tick d))
   \<and> (set runs \<subseteq> set (handlers e now finish) \<longrightarrow>
        length (fst (invoke_all runs d)) = length runs
        \<and> list_all (\<lambda>events. map status events = [started, completed]
                             \<or> map status events = [started, failed])
            (fst (invoke_all runs d)))"
proof (intro conjI impI)
  assume "(expr, jobName, body, run) \<in> set (schedule e now finish)"
  from schedule_entry [OF this] show "run d =
        (case body d of
           (Inr summary, d') \<Rightarrow>
             ([\<lparr>timestamp = now, job = jobName, status = started, details = []\<rparr>,
               \<lparr>timestamp = finish, job = jobName, status = completed,
                details = (''duration'', JStr (show_int (finish - now) @ ''ms'')) # summary\<rparr>], d')
         | (Inl err, d') \<Rightarrow>
             ([\<lparr>timestamp = now, job = jobName, status = started, details = []\<rparr>,
               \<lparr>timestamp = finish, job = jobName, status = failed,
                details = [(''error'', JStr (message err)), (''stack'', JStr (stack err))]\<rparr>], d'))"
    by (simp only: cron_job_frame)
next
  assume a: "(expr, jobName, body, run) \<in> set (schedule e now finish) \<and> (\<forall>n. faults e n = None)"
  then have entry: "(expr, jobName, body, run) \<in> set (schedule e now finish)"
    and nf: "\<forall>n. faults e n = None"
    by simp_all
  from body_returns [OF entry nf, of d] obtain summary da where "body d = (Inr summary, da)"
    by (cases "body d") auto
  then have "fst (run d) =
             [\<lparr>timestamp = now, job = jobName, status = started, details = []\<rparr>,
              \<lparr>timestamp = finish, job = jobName, status = completed,
               details = (''duration'', JStr (show_int (finish - now) @ ''ms'')) # summary\<rparr>]"
    unfolding schedule_entry [OF entry] by (simp add: cron_job_frame)
  then show "\<exists>summary.
           fst (run d) =
             [\<lparr>timestamp = now, job = jobName, status = started, details = []\<rparr>,
              \<lparr>timestamp = finish, job = jobName, status = completed,
               details = (''duration'', JStr (show_int (finish - now) @ ''ms'')) # summary\<rparr>]"
    by blast
next
  assume a: "(expr, jobName, body, run) \<in> set (schedule e now finish)
        \<and> faults e (ticks d) = Some rejection"
  then have entry: "(expr, jobName, body, run) \<in> set (schedule e now finish)"
    and f: "faults e (ticks d) = Some rejection"
    by simp_all
  from body_rejected [OF entry f]
  show "run d =
          ([\<lparr>timestamp = now, job = jobName, status = started, details = []\<rparr>,
            \<lparr>timestamp = finish, job = jobName, status = failed,
             details = [(''error'', JStr (message rejection)), (''stack'', JStr (stack rejection))]\<rparr>],
           tick d)"
    unfolding schedule_entry [OF entry] by (simp add: cron_job_frame)
next
  assume a: "set runs \<subseteq> set (handlers e now finish)"
  from invoke_all_statuses [OF a, of d]
  show "length (fst (invoke_all runs d)) = length runs"
    and "list_all (\<lambda>events. map status events = [started, completed]
                             \<or> map status events = [started, failed])
            (fst (invoke_all runs d))"
    by simp_all
qed

text \<open>
  In a store that rejects its first call, the welcome job fails at its query and the
  milestone scan that is invoked after it completes with its summary. With no rejected call
  the welcome job completes.
\<close>

theorem every_job_logs_started_then_one_terminal_event_witness:
  "(''*/30 * * * *'', ''new-user-welcome'', new_user_welcome_body (sample_env (fail_at 0)) 1000,
      new_user_welcome (sample_env (fail_at 0)) 1000 1007)
     \<in> set (schedule (sample_env (fail_at 0)) 1000 1007)
   \<and> faults (sample_env (fail_at 0)) (ticks sample_db)
        = Some (Error ''connection lost'' ''Error: connection lost'')
   \<and> new_user_welcome (sample_env (fail_at 0)) 1000 1007 sample_db =
       ([\<lparr>timestamp = 1000, job = ''new-user-welcome'', status = started, details = []\<rparr>,
         \<lparr>timestamp = 1007, job = ''new-user-welcome'', status = failed,
          details = [(''error'', JStr ''connection lost''),
                     (''stack'', JStr ''Error: connection lost'')]\<rparr>], tick sample_db)
   \<and> (''5 0 * * *'', ''streak-milestone-check'', streak_milestone_check_body (sample_env (fail_at 0)),
      streak_milestone_check (sample_env (fail_at 0)) 1000 1007)
     \<in> set (schedule (sample_env (fail_at 0)) 1000 1007)
   \<and> fst (streak_milestone_check (sample_env (fail_at 0)) 1000 1007 (tick sample_db)) =
       [\<lparr>timestamp = 1000, job = ''streak-milestone-check'', status = started, details = []\<rparr>,
        \<lparr>timestamp = 1007, job = ''streak-milestone-check'', status = completed,
         details = [(''duration'', JStr ''7ms''), (''habitsChecked'', JNum 1),
                    (''milestoneNotificationsSent'', JNum 1)]\<rparr>]
   \<and> (''*/30 * * * *'', ''new-user-welcome'', new_user_welcome_body (sample_env no_faults) 1000,
      new_user_welcome (sample_env no_faults) 1000 1007)
     \<in> set (schedule (sample_env no_faults) 1000 1007)
   \<and> (\<forall>n. faults (sample_env no_faults) n = None)
   \<and> map status (fst (new_user_welcome (sample_env no_faults) 1000 1007 sample_db))
        = [started, completed]
   \<and> set [new_user_welcome (sample_env (fail_at 0)) 1000 1007,
           streak_milestone_check (sample_env (fail_at 0)) 1000 1007]
        \<subseteq> set (handlers (sample_env (fail_at 0)) 1000 1007)
   \<and> length (fst (invoke_all [new_user_welcome (sample_env (fail_at 0)) 1000 1007,
                               streak_milestone_check (sample_env (fail_at 0)) 1000 1007] sample_db)) = 2"
proof -
  let ?e = "sample_env (fail_at 0)"
  have m1: "(''*/30 * * * *'', ''new-user-welcome'', new_user_welcome_body ?e 1000,
               new_user_welcome ?e 1000 1007) \<in> set (schedule ?e 1000 1007)"
    by (simp add: schedule_def)
  have f1: "faults ?e (ticks sample_db) = Some (Error ''connection lost'' ''Error: connection lost'')"
    by (simp add: sample_env_def fail_at_def sample_db_def)
  have w1: "new_user_welcome ?e 1000 1007 sample_db =
       ([\<lparr>timestamp = 1000, job = ''new-user-welcome'', status = started, details = []\<rparr>,
         \<lparr>timestamp = 1007, job = ''new-user-welcome'', status = failed,
          details = [(''error'', JStr ''connection lost''),
                     (''stack'', JStr ''Error: connection lost'')]\<rparr>], tick sample_db)"
    using every_job_logs_started_then_one_terminal_event
            [where expr = "''*/30 * * * *''" and jobName = "''new-user-welcome''"
               and body = "new_user_welcome_body ?e 1000" and run = "new_user_welcome ?e 1000 1007"
               and e = ?e and now = 1000 and finish = 1007 and d = sample_db
               and rejection = "Error ''connection lost'' ''Error: connection lost''",
             THEN conjunct2, THEN conjunct2, THEN conjunct1] m1 f1
    by simp
  have m2: "(''5 0 * * *'', ''streak-milestone-check'', streak_milestone_check_body ?e,
               streak_milestone_check ?e 1000 1007) \<in> set (schedule ?e 1000 1007)"
    by (simp add: schedule_def)
  have b2: "fst (streak_milestone_check_body ?e (tick sample_db))
              = Inr [(''habitsChecked'', JNum 1), (''milestoneNotificationsSent'', JNum 1)]"
    by code_simp
  have dur: "show_int (1007 - 1000) = ''7''"
    by code_simp
  have w2: "fst (streak_milestone_check ?e 1000 1007 (tick sample_db)) =
       [\<lparr>timestamp = 1000, job = ''streak-milestone-check'', status = started, details = []\<rparr>,
        \<lparr>timestamp = 1007, job = ''streak-milestone-check'', status = completed,
         details = [(''duration'', JStr ''7ms''), (''habitsChecked'', JNum 1),
                    (''milestoneNotificationsSent'', JNum 1)]\<rparr>]"
    using every_job_logs_started_then_one_terminal_event
            [where expr = "''5 0 * * *''" and jobName = "''streak-milestone-check''"
               and body = "streak_milestone_check_body ?e" and run = "streak_milestone_check ?e 1000 1007"
               and e = ?e and now = 1000 and finish = 1007 and d = "tick sample_db",
             THEN conjunct1] m2 b2 dur
    by (cases "streak_milestone_check_body ?e (tick sample_db)") (simp split: sum.splits)
  let ?n = "sample_env no_faults"
  have m3: "(''*/30 * * * *'', ''new-user-welcome'', new_user_welcome_body ?n 1000,
               new_user_welcome ?n 1000 1007) \<in> set (schedule ?n 1000 1007)"
    by (simp add: schedule_def)
  have nf: "\<forall>n. faults ?n n = None"
    by (simp add: sample_env_def no_faults_def)
  from every_job_logs_started_then_one_terminal_event
         [where expr = "''*/30 * * * *''" and jobName = "''new-user-welcome''"
            and body = "new_user_welcome_body ?n 1000" and run = "new_user_welcome ?n 1000 1007"
            and e = ?n and now = 1000 and finish = 1007 and d = sample_db,
          THEN conjunct2, THEN conjunct1] m3 nf
  obtain summary where "fst (new_user_welcome ?n 1000 1007 sample_db) =
             [\<lparr>timestamp = 1000, job = ''new-user-welcome'', status = started, details = []\<rparr>,
              \<lparr>timestamp = 1007, job = ''new-user-welcome'', status = completed,
               details = (''duration'', JStr (show_int (1007 - 1000) @ ''ms'')) # summary\<rparr>]"
    by blast
  then have w3: "map status (fst (new_user_welcome ?n 1000 1007 sample_db)) = [started, completed]"
    by simp
  have m4: "set [new_user_welcome ?e 1000 1007, streak_milestone_check ?e 1000 1007]
              \<subseteq> set (handlers ?e 1000 1007)"
    by (simp add: handlers_def schedule_def)
  have w4: "length (fst (invoke_all [new_user_welcome ?e 1000 1007,
                                      streak_milestone_check ?e 1000 1007] sample_db)) = 2"
    using every_job_logs_started_then_one_terminal_event
            [where runs = "[new_user_welcome ?e 1000 1007, streak_milestone_check ?e 1000 1007]"
               and e = ?e and now = 1000 and finish = 1007 and d = sample_db,
             THEN conjunct2, THEN conjunct2, THEN conjunct2] m4
    by simp
  from m1 f1 w1 m2 w2 m3 nf w3 m4 w4 show ?thesis by (intro conjI)
qed

end
